theory Spec2Isabelle
  imports Complex_Main "HOL-Library.Sublist"
begin

section \<open>JavaScript values, objects and outcomes\<close>

text \<open>
  A JavaScript value is a primitive or a reference to an object of the store. Numbers are
  real numbers.
\<close>

datatype jsvalue = VUndefined | VNull | VBool bool | VNum real | VStr string | VRef nat

text \<open>An object is the map of its own properties.\<close>

type_synonym jsobject = "string \<rightharpoonup> jsvalue"

datatype jserror = TypeError | Error string

text \<open>
  Hooks of \<open>Entity\<close> are empty in the base classes, and \<open>Component\<close>,
  \<open>InternalComponentCollection\<close> and \<open>IInternalSceneEntity\<close> are not among the sources:
  a call of one of their methods is recorded as an event of the trace and changes nothing else.
\<close>

datatype event =
    WillUnmount nat
  | DidMount nat
  | Ref nat
  | OnChildrenUpdated nat
  | ParentUpdated nat bool
  | Tick nat
  | WillUpdate nat nat
  | OnUpdated nat nat
  | OnUpdate nat
  | WillPropsUpdate nat nat
  | OnPropsUpdated nat nat
  | ComponentUnmount nat
  | ComponentDidMount nat
  | ComponentTick nat
  | ComponentOnEntityUpdated nat
  | ComponentOnUpdate nat
  | CollectionMount nat
  | CollectionUnmount nat
  | CollectionMountComponent nat nat
  | CollectionOnEntityPropsWillUpdate nat nat
  | CollectionOnEntityPropsUpdated nat
  | RegisterEntity nat nat
  | UnregisterEntity nat nat

section \<open>The heap: entities, components and the host engine's objects\<close>

text \<open>
  The context bundle (\<open>IEntityContext\<close>, \<open>INucleusContext\<close>): handles of the host engine
  and scene, and the registrar or scene entity where the class has one.
\<close>

record jscontext =
  ctx_engine :: nat
  ctx_scene :: nat
  ctx_systemRegistrar :: "nat option"
  ctx_sceneEntity :: "nat option"

text \<open>The object literal \<open>{engine, scene, node, entity}\<close> a bframe component is given.\<close>

record component_context =
  cc_engine :: nat
  cc_scene :: nat
  cc_node :: "nat option"
  cc_entity :: nat

record component =
  c_kind :: string
  c_loaded :: bool
  c_isEnabled :: bool
  c_context :: "component_context option"

text \<open>
  The fields of both \<open>Entity\<close> classes. \<open>e_childContext\<close> is bframe's \<open>childContext\<close> and
  nucleus' \<open>_parentContext\<close>; \<open>e_ref\<close> says whether a \<open>ref\<close> callback was given (bframe);
  \<open>e_onDisposeObserver\<close> is used by nucleus only.
\<close>

record entity =
  e_isMounted :: bool
  e_node :: "nat option"
  e_props :: nat
  e_parent :: "nat option"
  e_context :: "nat option"
  e_childContext :: jsvalue
  e_components :: "nat list"
  e_children :: "nat list"
  e_key :: "string option"
  e_ref :: bool
  e_onBeforeRenderObserver :: "nat option"
  e_onDisposeObserver :: "nat option"

text \<open>
  A mesh of the host engine, as far as the entity code touches it: its parent, whether it
  was disposed, the \<open>__entity__\<close> slot and the observers of its dispose observable (observer
  and the entity its callback is bound to).
\<close>

record mesh =
  n_name :: string
  n_scene :: nat
  n_parent :: "nat option"
  n_disposed :: bool
  n_entity :: "nat option"
  n_onDispose :: "(nat \<times> nat) list"

record scene =
  s_engine :: nat
  s_isDisposed :: bool
  s_onBeforeRender :: "(nat \<times> nat) list"
  s_nucleus :: "nat option"

record world =
  w_entity :: "nat \<Rightarrow> entity"
  w_entity_count :: nat
  w_component :: "nat \<Rightarrow> component"
  w_node :: "nat \<Rightarrow> mesh"
  w_node_count :: nat
  w_scene :: "nat \<Rightarrow> scene"
  w_jscontext :: "nat \<Rightarrow> jscontext"
  w_jscontext_count :: nat
  w_registrars :: "nat list"
  w_object :: "jsobject list"
  w_observer_count :: nat
  w_trace :: "event list"

text \<open>
  A call returns, throws (the heap as it was when the error was raised is kept), or runs
  out of the fuel that bounds the depth of the recursion through the children.
\<close>

datatype 'a outcome = Returned 'a | Thrown jserror world | Exhausted

definition bind :: "'a outcome \<Rightarrow> ('a \<Rightarrow> 'b outcome) \<Rightarrow> 'b outcome" where
  "bind r f = (case r of Returned x \<Rightarrow> f x | Thrown err w \<Rightarrow> Thrown err w | Exhausted \<Rightarrow> Exhausted)"

definition emit :: "event \<Rightarrow> world \<Rightarrow> world" where
  "emit ev w = w\<lparr>w_trace := w_trace w @ [ev]\<rparr>"

definition upd_entity :: "nat \<Rightarrow> (entity \<Rightarrow> entity) \<Rightarrow> world \<Rightarrow> world" where
  "upd_entity e f w = w\<lparr>w_entity := (w_entity w)(e := f (w_entity w e))\<rparr>"

definition upd_node :: "nat \<Rightarrow> (mesh \<Rightarrow> mesh) \<Rightarrow> world \<Rightarrow> world" where
  "upd_node nd f w = w\<lparr>w_node := (w_node w)(nd := f (w_node w nd))\<rparr>"

definition upd_scene :: "nat \<Rightarrow> (scene \<Rightarrow> scene) \<Rightarrow> world \<Rightarrow> world" where
  "upd_scene sc f w = w\<lparr>w_scene := (w_scene w)(sc := f (w_scene w sc))\<rparr>"

definition upd_component :: "nat \<Rightarrow> (component \<Rightarrow> component) \<Rightarrow> world \<Rightarrow> world" where
  "upd_component c f w = w\<lparr>w_component := (w_component w)(c := f (w_component w c))\<rparr>"

text \<open>
  \<open>Array.prototype.forEach\<close> on an array that the callback may change: the length is read
  once, and an index is visited only if the array still has it.
\<close>

primrec forEachFrom ::
  "nat \<Rightarrow> nat \<Rightarrow> (world \<Rightarrow> nat list) \<Rightarrow> (nat \<Rightarrow> world \<Rightarrow> world outcome) \<Rightarrow> world \<Rightarrow> world outcome" where
  "forEachFrom 0 i arr f w = Returned w"
| "forEachFrom (Suc k) i arr f w =
     (if i < length (arr w) then bind (f (arr w ! i) w) (forEachFrom k (Suc i) arr f)
      else forEachFrom k (Suc i) arr f w)"

definition forEach :: "(world \<Rightarrow> nat list) \<Rightarrow> (nat \<Rightarrow> world \<Rightarrow> world outcome) \<Rightarrow> world \<Rightarrow> world outcome" where
  "forEach arr f w = forEachFrom (length (arr w)) 0 arr f w"

text \<open>\<open>indexOf\<close> (\<open>-1\<close> when absent) and \<open>splice(index, 1)\<close>, where a negative index counts from the end.\<close>

fun indexOf :: "nat list \<Rightarrow> nat \<Rightarrow> int" where
  "indexOf [] x = -1"
| "indexOf (y # ys) x = (if y = x then 0 else (let i = indexOf ys x in if i < 0 then -1 else i + 1))"

definition splice1 :: "int \<Rightarrow> nat list \<Rightarrow> nat list" where
  "splice1 i xs =
     (let n = int (length xs); start = (if i < 0 then max (n + i) 0 else min i n)
      in take (nat start) xs @ drop (Suc (nat start)) xs)"

text \<open>
  The object store: reading an object, object literals, \<open>Object.assign(target, source)\<close>
  on two objects, and the assignment \<open>a.k = v\<close>.
\<close>

definition object_at :: "world \<Rightarrow> nat \<Rightarrow> jsobject" where
  "object_at w a = (if a < length (w_object w) then w_object w ! a else Map.empty)"

definition new_object :: "jsobject \<Rightarrow> world \<Rightarrow> nat \<times> world" where
  "new_object ob w = (length (w_object w), w\<lparr>w_object := w_object w @ [ob]\<rparr>)"

definition Object_assign :: "nat \<Rightarrow> nat \<Rightarrow> world \<Rightarrow> world" where
  "Object_assign target source w =
     w\<lparr>w_object := (w_object w)[target := object_at w target ++ object_at w source]\<rparr>"


text \<open>The test of an \<open>if\<close> on a value.\<close>

definition truthy :: "jsvalue \<Rightarrow> bool" where
  "truthy v =
     (case v of VUndefined \<Rightarrow> False | VNull \<Rightarrow> False | VBool b \<Rightarrow> b | VNum r \<Rightarrow> r \<noteq> 0
      | VStr s \<Rightarrow> s \<noteq> [] | VRef a \<Rightarrow> True)"

section \<open>The host engine\<close>

text \<open>
  The engine is not part of the repository. A mesh is created in a scene, an observable
  hands out a new observer on every \<open>add\<close> and forgets an observer on \<open>remove\<close>, and
  \<open>dispose\<close> marks a mesh disposed.
\<close>

definition new_Mesh :: "string \<Rightarrow> nat \<Rightarrow> world \<Rightarrow> nat \<times> world" where
  "new_Mesh name sc w =
     (let nd = w_node_count w
      in (nd, w\<lparr>w_node := (w_node w)(nd := \<lparr>n_name = name, n_scene = sc, n_parent = None,
                   n_disposed = False, n_entity = None, n_onDispose = []\<rparr>),
               w_node_count := Suc nd\<rparr>))"

definition dispose :: "nat \<Rightarrow> world \<Rightarrow> world" where
  "dispose nd w = upd_node nd (\<lambda>m. m\<lparr>n_disposed := True\<rparr>) w"

text \<open>
  Disposing a mesh does more: after the mark the engine disposes the meshes whose parent the
  mesh is, takes the mesh out of its own parent, notifies the observers of its dispose
  observable and clears the observable. For the bframe entity the mark is all there is to model: it adds no
  observer to a mesh, and its \<open>unmount\<close> has unmounted every child, and so disposed the
  meshes below, before it disposes its own. The nucleus entity listens
  (\<open>onDisposeObservable.add(this._onDispose)\<close>), and its \<open>unmount\<close> is modelled with
  \<open>dispose_cascade\<close>, which is given what the callback of an entity does.

  The meshes below a mesh are the meshes made so far that have it as their parent, in the
  order in which they were made. The observers are notified in the order in which they were
  added; one that was removed in the meantime is not called.
\<close>

definition child_nodes :: "world \<Rightarrow> nat \<Rightarrow> nat list" where
  "child_nodes w nd = filter (\<lambda>m. n_parent (w_node w m) = Some nd) [0..<w_node_count w]"

definition notifyObservers :: "(nat \<Rightarrow> world \<Rightarrow> world outcome) \<Rightarrow> nat \<Rightarrow> world \<Rightarrow> world outcome" where
  "notifyObservers callback nd w =
     forEach (\<lambda>_. map fst (n_onDispose (w_node w nd)))
       (\<lambda>ob v. case find (\<lambda>p. fst p = ob) (n_onDispose (w_node v nd)) of
                 None \<Rightarrow> Returned v
               | Some p \<Rightarrow> callback (snd p) v) w"

primrec dispose_cascade ::
  "nat \<Rightarrow> (nat \<Rightarrow> world \<Rightarrow> world outcome) \<Rightarrow> nat \<Rightarrow> world \<Rightarrow> world outcome" where
  "dispose_cascade 0 callback nd w = Exhausted"
| "dispose_cascade (Suc fuel) callback nd w =
     bind (forEach (\<lambda>_. child_nodes w nd) (dispose_cascade fuel callback) (dispose nd w))
       (\<lambda>w1. bind (notifyObservers callback nd (upd_node nd (\<lambda>m. m\<lparr>n_parent := None\<rparr>) w1))
          (\<lambda>w2. Returned (upd_node nd (\<lambda>m. m\<lparr>n_onDispose := []\<rparr>) w2)))"

definition observable_remove :: "nat option \<Rightarrow> (nat \<times> nat) list \<Rightarrow> (nat \<times> nat) list" where
  "observable_remove ob obs = (case ob of None \<Rightarrow> obs | Some x \<Rightarrow> filter (\<lambda>p. fst p \<noteq> x) obs)"

definition onBeforeRender_add :: "nat \<Rightarrow> nat \<Rightarrow> world \<Rightarrow> nat \<times> world" where
  "onBeforeRender_add sc e w =
     (let ob = w_observer_count w
      in (ob, upd_scene sc (\<lambda>s. s\<lparr>s_onBeforeRender := s_onBeforeRender s @ [(ob, e)]\<rparr>)
                (w\<lparr>w_observer_count := Suc ob\<rparr>)))"

definition onBeforeRender_remove :: "nat \<Rightarrow> nat option \<Rightarrow> world \<Rightarrow> world" where
  "onBeforeRender_remove sc ob w =
     upd_scene sc (\<lambda>s. s\<lparr>s_onBeforeRender := observable_remove ob (s_onBeforeRender s)\<rparr>) w"

definition onDispose_add :: "nat \<Rightarrow> nat \<Rightarrow> world \<Rightarrow> nat \<times> world" where
  "onDispose_add nd e w =
     (let ob = w_observer_count w
      in (ob, upd_node nd (\<lambda>m. m\<lparr>n_onDispose := n_onDispose m @ [(ob, e)]\<rparr>)
                (w\<lparr>w_observer_count := Suc ob\<rparr>)))"

definition onDispose_remove :: "nat \<Rightarrow> nat option \<Rightarrow> world \<Rightarrow> world" where
  "onDispose_remove nd ob w =
     upd_node nd (\<lambda>m. m\<lparr>n_onDispose := observable_remove ob (n_onDispose m)\<rparr>) w"

text \<open>\<open>this.key || 'Entity'\<close>: an absent or empty key gives the default name.\<close>

definition mesh_name :: "string option \<Rightarrow> string" where
  "mesh_name k = (case k of None \<Rightarrow> ''Entity'' | Some s \<Rightarrow> if s = [] then ''Entity'' else s)"

text \<open>\<open>onMount\<close> of both classes: a new mesh in the scene of \<open>this.context\<close>.\<close>

definition onMount :: "nat \<Rightarrow> world \<Rightarrow> (nat \<times> world) outcome" where
  "onMount e w =
     (case e_context (w_entity w e) of
        None \<Rightarrow> Thrown TypeError w
      | Some cx \<Rightarrow> Returned (new_Mesh (mesh_name (e_key (w_entity w e))) (ctx_scene (w_jscontext w cx)) w))"

text \<open>
  The block \<open>Set to parent\<close> of both \<open>_mount\<close>s: a mesh without a parent gets the given parent
  node or else the node of the parent entity.
\<close>

definition set_to_parent :: "nat \<Rightarrow> nat option \<Rightarrow> nat \<Rightarrow> world \<Rightarrow> world" where
  "set_to_parent nd parentNode e w =
     (if n_parent (w_node w nd) = None then
        (case parentNode of
           Some pn \<Rightarrow> upd_node nd (\<lambda>m. m\<lparr>n_parent := Some pn\<rparr>) w
         | None \<Rightarrow>
            (case e_parent (w_entity w e) of
               Some p \<Rightarrow> upd_node nd (\<lambda>m. m\<lparr>n_parent := e_node (w_entity w p)\<rparr>) w
             | None \<Rightarrow> w))
      else w)"

section \<open>The bframe entity (src/core/Entity.ts)\<close>


text \<open>\<open>this.props.k\<close>: a property that is absent reads as \<open>undefined\<close>.\<close>

definition props_get :: "nat \<Rightarrow> string \<Rightarrow> world \<Rightarrow> jsvalue" where
  "props_get e k w =
     (case object_at w (e_props (w_entity w e)) k of None \<Rightarrow> VUndefined | Some v \<Rightarrow> v)"

text \<open>
  \<open>_updateCoreProps\<close> computes vectors from the properties and assigns them to the mesh;
  what is left of it here is that the assignment fails when there is a vector to assign and
  no mesh.
\<close>

definition bframe_updateCoreProps :: "nat \<Rightarrow> world \<Rightarrow> world outcome" where
  "bframe_updateCoreProps e w =
     (if (truthy (props_get e ''position'' w) \<or> truthy (props_get e ''rotation'' w) \<or>
          truthy (props_get e ''scaling'' w) \<or> truthy (props_get e ''scale'' w)) \<and>
         e_node (w_entity w e) = None
      then Thrown TypeError w else Returned w)"

definition bframe_mountComponent :: "nat \<Rightarrow> nat \<Rightarrow> world \<Rightarrow> world outcome" where
  "bframe_mountComponent e c w =
     (case e_context (w_entity w e) of
        None \<Rightarrow> Thrown TypeError w
      | Some cx \<Rightarrow>
          Returned (emit (ComponentDidMount c)
            (upd_component c (\<lambda>k. k\<lparr>c_context := Some \<lparr>cc_engine = ctx_engine (w_jscontext w cx),
                cc_scene = ctx_scene (w_jscontext w cx), cc_node = e_node (w_entity w e),
                cc_entity = e\<rparr>\<rparr>) w)))"

text \<open>
  The first guarded block of \<open>_mount\<close>: take the context, create the node.
  \<open>_updateCoreProps\<close>, which follows, has the new mesh to assign to: it returns and changes
  nothing of the heap.
\<close>

definition bframe_mount_begin :: "nat option \<Rightarrow> nat \<Rightarrow> world \<Rightarrow> world outcome" where
  "bframe_mount_begin context e w =
     bind (onMount e (upd_entity e (\<lambda>r. r\<lparr>e_context := context\<rparr>) w))
       (\<lambda>(nd, w1). Returned (upd_entity e (\<lambda>r. r\<lparr>e_node := Some nd\<rparr>) w1))"

text \<open>The last guarded block of \<open>_mount\<close>: hooks, the render observer, the flag, the components.\<close>

definition bframe_mount_wire :: "nat \<Rightarrow> world \<Rightarrow> world outcome" where
  "bframe_mount_wire e w =
     (let w1 = emit (DidMount e) w;
          w2 = (if e_ref (w_entity w1 e) then emit (Ref e) w1 else w1)
      in case e_context (w_entity w2 e) of
           None \<Rightarrow> Thrown TypeError w2
         | Some cx \<Rightarrow>
             (case onBeforeRender_add (ctx_scene (w_jscontext w2 cx)) e w2 of
                (ob, w3) \<Rightarrow>
                  Returned (upd_entity e (\<lambda>r. r\<lparr>e_isMounted := True\<rparr>)
                    (upd_entity e (\<lambda>r. r\<lparr>e_onBeforeRenderObserver := Some ob\<rparr>) w3))))"

definition bframe_mount_finish :: "nat \<Rightarrow> world \<Rightarrow> world outcome" where
  "bframe_mount_finish e w =
     bind (bframe_mount_wire e w)
       (forEach (\<lambda>v. e_components (w_entity v e)) (bframe_mountComponent e))"

text \<open>The loop \<open>Mount children\<close>, given the function that mounts one entity.\<close>

definition bframe_mount_children ::
  "(nat option \<Rightarrow> nat option \<Rightarrow> nat \<Rightarrow> world \<Rightarrow> world outcome) \<Rightarrow> nat \<Rightarrow> world \<Rightarrow> world outcome" where
  "bframe_mount_children mnt e w =
     forEach (\<lambda>v. e_children (w_entity v e))
       (\<lambda>child v. mnt (e_context (w_entity v e)) None child
          (upd_entity child (\<lambda>r. r\<lparr>e_childContext := VUndefined\<rparr>) v)) w"

primrec bframe_mount :: "nat \<Rightarrow> nat option \<Rightarrow> nat option \<Rightarrow> nat \<Rightarrow> world \<Rightarrow> world outcome" where
  "bframe_mount 0 context parentNode e w = Exhausted"
| "bframe_mount (Suc fuel) context parentNode e w =
     bind (if \<not> e_isMounted (w_entity w e) then bframe_mount_begin context e w else Returned w)
       (\<lambda>w1. case e_node (w_entity w1 e) of
          None \<Rightarrow> Thrown TypeError w1
        | Some nd \<Rightarrow>
            bind (bframe_mount_children (bframe_mount fuel) e (set_to_parent nd parentNode e w1))
              (\<lambda>w3. if \<not> e_isMounted (w_entity w3 e) then bframe_mount_finish e w3 else Returned w3))"

text \<open>
  What \<open>unmount\<close> does after its children and components: the observer is removed and
  forgotten, the node disposed and forgotten, the flag cleared, the parent's hook called.
\<close>

definition bframe_unmount_tail :: "nat \<Rightarrow> world \<Rightarrow> world outcome" where
  "bframe_unmount_tail e w2 =
     (case e_context (w_entity w2 e) of
        None \<Rightarrow> Thrown TypeError w2
      | Some cx \<Rightarrow>
          (let w3 = upd_entity e (\<lambda>r. r\<lparr>e_onBeforeRenderObserver := None\<rparr>)
                      (onBeforeRender_remove (ctx_scene (w_jscontext w2 cx))
                         (e_onBeforeRenderObserver (w_entity w2 e)) w2)
           in case e_node (w_entity w3 e) of
                None \<Rightarrow> Thrown TypeError w3
              | Some nd \<Rightarrow>
                  (let w4 = upd_entity e (\<lambda>r. r\<lparr>e_isMounted := False\<rparr>)
                              (upd_entity e (\<lambda>r. r\<lparr>e_node := None\<rparr>) (dispose nd w3))
                   in case e_parent (w_entity w4 e) of
                        None \<Rightarrow> Thrown TypeError w4
                      | Some p \<Rightarrow> Returned (emit (OnChildrenUpdated p) w4))))"

definition bframe_unmount_self :: "nat \<Rightarrow> world \<Rightarrow> world outcome" where
  "bframe_unmount_self e w1 =
     bind (forEach (\<lambda>v. e_components (w_entity v e)) (\<lambda>c v. Returned (emit (ComponentUnmount c) v)) w1)
       (bframe_unmount_tail e)"

primrec bframe_unmount :: "nat \<Rightarrow> nat \<Rightarrow> world \<Rightarrow> world outcome" where
  "bframe_unmount 0 e w = Exhausted"
| "bframe_unmount (Suc fuel) e w =
     bind (forEach (\<lambda>v. e_children (w_entity v e)) (bframe_unmount fuel) (emit (WillUnmount e) w))
       (bframe_unmount_self e)"

definition bframe_remount :: "nat \<Rightarrow> nat \<Rightarrow> world \<Rightarrow> world outcome" where
  "bframe_remount fuel e w =
     (if \<not> e_isMounted (w_entity w e) then Returned w
      else bind (bframe_unmount fuel e w) (\<lambda>w1. bframe_mount fuel (e_context (w_entity w1 e)) None e w1))"

definition bframe_mountChild :: "nat \<Rightarrow> nat \<Rightarrow> nat \<Rightarrow> world \<Rightarrow> world outcome" where
  "bframe_mountChild fuel e child w =
     (if e_isMounted (w_entity w child) then Thrown (Error ''Child already mounted.'') w
      else
        (let w1 = upd_entity e (\<lambda>r. r\<lparr>e_children := e_children r @ [child]\<rparr>) w;
             w2 = upd_entity child (\<lambda>r. r\<lparr>e_parent := Some e\<rparr>) w1;
             w3 = emit (ParentUpdated child (e_isMounted (w_entity w2 e))) w2
         in if e_isMounted (w_entity w3 e) then
              bind (bframe_mount fuel (e_context (w_entity w3 e)) None child
                      (upd_entity child (\<lambda>r. r\<lparr>e_childContext := VUndefined\<rparr>) w3))
                (\<lambda>w4. Returned (emit (OnChildrenUpdated e) w4))
            else Returned w3))"

text \<open>\<open>addComponents\<close>: the argument array is walked; an instance not yet in the list is pushed.\<close>

definition bframe_addComponents :: "nat \<Rightarrow> nat list \<Rightarrow> world \<Rightarrow> world outcome" where
  "bframe_addComponents e cs w =
     forEach (\<lambda>_. cs)
       (\<lambda>c v. if indexOf (e_components (w_entity v e)) c = -1 then
                 (let v1 = upd_entity e (\<lambda>r. r\<lparr>e_components := e_components r @ [c]\<rparr>) v
                  in if e_isMounted (w_entity v1 e) then bframe_mountComponent e c v1 else Returned v1)
               else Returned v) w"

definition bframe_addComponent :: "nat \<Rightarrow> nat \<Rightarrow> world \<Rightarrow> world outcome" where
  "bframe_addComponent e c w = bframe_addComponents e [c] w"

definition bframe_removeComponent :: "nat \<Rightarrow> nat \<Rightarrow> world \<Rightarrow> world" where
  "bframe_removeComponent e c w =
     emit (ComponentUnmount c)
       (upd_entity e (\<lambda>r. r\<lparr>e_components := splice1 (indexOf (e_components r) c) (e_components r)\<rparr>) w)"

primrec bframe_notifyChildren :: "nat \<Rightarrow> nat \<Rightarrow> world \<Rightarrow> world outcome" where
  "bframe_notifyChildren 0 e w = Exhausted"
| "bframe_notifyChildren (Suc fuel) e w =
     forEach (\<lambda>v. e_children (w_entity v e))
       (\<lambda>child v. bframe_notifyChildren fuel child
          (emit (ParentUpdated child (e_isMounted (w_entity v e))) v)) w"

text \<open>
  \<open>updateProps\<close>: \<open>willUpdate\<close> is asked only for a mounted entity and answers true in the
  base class; the old properties are copied to a new object, the new ones are assigned onto
  the entity's own properties object.
\<close>

definition bframe_updateProps :: "nat \<Rightarrow> nat \<Rightarrow> nat \<Rightarrow> world \<Rightarrow> world outcome" where
  "bframe_updateProps fuel e props w =
     (let w0 = (if e_isMounted (w_entity w e) then emit (WillUpdate e props) w else w)
      in case new_object (object_at w0 (e_props (w_entity w0 e))) w0 of
           (oldProps, w1) \<Rightarrow>
             (let w2 = Object_assign (e_props (w_entity w1 e)) props w1
              in if e_isMounted (w_entity w2 e) then
                   bind (forEach (\<lambda>v. e_components (w_entity v e))
                           (\<lambda>c v. if c_loaded (w_component v c)
                                   then Returned (emit (ComponentOnEntityUpdated c) v)
                                   else bframe_mountComponent e c v) w2)
                     (\<lambda>w3. bind (bframe_updateCoreProps e (emit (OnUpdated e oldProps) w3))
                             (bframe_notifyChildren fuel e))
                 else Returned w2))"

text \<open>The constructor: \<open>props || {}\<close> keeps a given object and makes a new one otherwise.\<close>

definition bframe_Entity :: "nat option \<Rightarrow> string option \<Rightarrow> bool \<Rightarrow> world \<Rightarrow> nat \<times> world" where
  "bframe_Entity props k rf w =
     (case (case props of Some a \<Rightarrow> (a, w) | None \<Rightarrow> new_object Map.empty w) of
        (p, w1) \<Rightarrow>
          (w_entity_count w1,
           w1\<lparr>w_entity := (w_entity w1)(w_entity_count w1 :=
                  \<lparr>e_isMounted = False, e_node = None, e_props = p, e_parent = None,
                   e_context = None, e_childContext = VUndefined, e_components = [],
                   e_children = [], e_key = k, e_ref = rf, e_onBeforeRenderObserver = None,
                   e_onDisposeObserver = None\<rparr>),
               w_entity_count := Suc (w_entity_count w1)\<rparr>))"




section \<open>The nucleus entity\<close>

text \<open>
  \<open>cloneDeep\<close> is lodash's: its result is a copy of the object graph below the argument
  that shares no object with it. The model copies every object of the store to a new address
  (address \<open>a\<close> to \<open>a + n\<close>, for a store of \<open>n\<close> objects) and returns the copy of the argument;
  the copies of objects the argument does not reach are reachable from nowhere.
\<close>

definition shift_ref :: "nat \<Rightarrow> jsvalue \<Rightarrow> jsvalue" where
  "shift_ref n v = (case v of VRef a \<Rightarrow> VRef (a + n) | _ \<Rightarrow> v)"

definition cloneDeep :: "nat \<Rightarrow> world \<Rightarrow> nat \<times> world" where
  "cloneDeep a w =
     (let n = length (w_object w)
      in (a + n, w\<lparr>w_object := w_object w @ map (\<lambda>ob. map_option (shift_ref n) \<circ> ob) (w_object w)\<rparr>))"

text \<open>The constructor: \<open>cloneDeep(props) || {}\<close>.\<close>

definition nucleus_Entity :: "nat option \<Rightarrow> string option \<Rightarrow> world \<Rightarrow> nat \<times> world" where
  "nucleus_Entity props k w =
     (case (case props of Some a \<Rightarrow> cloneDeep a w | None \<Rightarrow> new_object Map.empty w) of
        (p, w1) \<Rightarrow>
          (w_entity_count w1,
           w1\<lparr>w_entity := (w_entity w1)(w_entity_count w1 :=
                  \<lparr>e_isMounted = False, e_node = None, e_props = p, e_parent = None,
                   e_context = None, e_childContext = VUndefined, e_components = [],
                   e_children = [], e_key = k, e_ref = False, e_onBeforeRenderObserver = None,
                   e_onDisposeObserver = None\<rparr>),
               w_entity_count := Suc (w_entity_count w1)\<rparr>))"

text \<open>
  What \<open>unmount\<close> does after its children, in three blocks.
  \<open>InternalComponentCollection.unmount\<close> and \<open>_unregisterEntity\<close> are events. First the two
  observers are removed and forgotten.
\<close>

definition nucleus_unwire :: "nat \<Rightarrow> nat \<Rightarrow> nat \<Rightarrow> world \<Rightarrow> world" where
  "nucleus_unwire cx nd e w2 =
     (let w3 = onBeforeRender_remove (ctx_scene (w_jscontext w2 cx))
                 (e_onBeforeRenderObserver (w_entity w2 e)) w2
      in upd_entity e (\<lambda>r. r\<lparr>e_onDisposeObserver := None\<rparr>)
           (upd_entity e (\<lambda>r. r\<lparr>e_onBeforeRenderObserver := None\<rparr>)
              (onDispose_remove nd (e_onDisposeObserver (w_entity w3 e)) w3)))"

text \<open>
  Then the node is disposed unless it is disposed already. After that the \<open>__entity__\<close>
  slot of the node is cleared, and the node and the flag of the entity.
\<close>

definition nucleus_forget :: "nat \<Rightarrow> nat \<Rightarrow> world \<Rightarrow> world" where
  "nucleus_forget nd e w5 =
     upd_entity e (\<lambda>r. r\<lparr>e_isMounted := False\<rparr>)
       (upd_entity e (\<lambda>r. r\<lparr>e_node := None\<rparr>)
          (upd_node nd (\<lambda>m. m\<lparr>n_entity := None\<rparr>) w5))"

text \<open>Then the entity is spliced out of its parent's children, at the index \<open>indexOf\<close> found.\<close>

definition nucleus_leave_parent :: "nat \<Rightarrow> world \<Rightarrow> world" where
  "nucleus_leave_parent e w6 =
     (case e_parent (w_entity w6 e) of
        None \<Rightarrow> w6
      | Some p \<Rightarrow>
          upd_entity p (\<lambda>r. r\<lparr>e_children := splice1 (indexOf (e_children r) e) (e_children r)\<rparr>) w6)"

text \<open>
  The three blocks together, given the engine's \<open>dispose\<close>. \<open>this._node\<close> is read again
  after the disposal, during which callbacks have run.
\<close>

definition nucleus_unmount_self :: "(nat \<Rightarrow> world \<Rightarrow> world outcome) \<Rightarrow> nat \<Rightarrow> world \<Rightarrow> world outcome" where
  "nucleus_unmount_self dsp e w1 =
     (let w2 = emit (CollectionUnmount e) w1
      in case e_context (w_entity w2 e) of
           None \<Rightarrow> Thrown TypeError w2
         | Some cx \<Rightarrow>
             (case e_node (w_entity w2 e) of
                None \<Rightarrow>
                  Thrown TypeError
                    (onBeforeRender_remove (ctx_scene (w_jscontext w2 cx))
                       (e_onBeforeRenderObserver (w_entity w2 e)) w2)
              | Some nd \<Rightarrow>
                  bind (let w4 = nucleus_unwire cx nd e w2
                        in if \<not> n_disposed (w_node w4 nd) then dsp nd w4 else Returned w4)
                    (\<lambda>w5. case e_node (w_entity w5 e) of
                            None \<Rightarrow> Thrown TypeError w5
                          | Some nd' \<Rightarrow>
                              (let w7 = nucleus_leave_parent e (nucleus_forget nd' e w5)
                               in case ctx_sceneEntity (w_jscontext w7 cx) of
                                    None \<Rightarrow> Thrown TypeError w7
                                  | Some se \<Rightarrow> Returned (emit (UnregisterEntity se e) w7)))))"

text \<open>\<open>_onDispose\<close>, the callback on the dispose observable of the entity's node.\<close>

definition nucleus_onDispose :: "(nat \<Rightarrow> world \<Rightarrow> world outcome) \<Rightarrow> nat \<Rightarrow> world \<Rightarrow> world outcome" where
  "nucleus_onDispose unmount e w = (if e_isMounted (w_entity w e) then unmount e w else Returned w)"

text \<open>
  \<open>unmount\<close>. The fuel bounds the depth of the calls of \<open>unmount\<close> within \<open>unmount\<close>, through
  the children and through the callbacks, and the depth of the meshes that are disposed.
\<close>

primrec nucleus_unmount :: "nat \<Rightarrow> nat \<Rightarrow> world \<Rightarrow> world outcome" where
  "nucleus_unmount 0 e w = Exhausted"
| "nucleus_unmount (Suc fuel) e w =
     (if \<not> e_isMounted (w_entity w e) then Thrown (Error ''Entity not mounted'') w
      else
        bind (forEach (\<lambda>v. e_children (w_entity v e))
                (\<lambda>child v. if e_isMounted (w_entity v child) then nucleus_unmount fuel child v
                            else Returned v)
                (emit (WillUnmount e) w))
          (nucleus_unmount_self
             (dispose_cascade (Suc fuel) (nucleus_onDispose (nucleus_unmount fuel))) e))"

text \<open>The start of \<open>_mount\<close>, up to the flag.\<close>

definition nucleus_mount_begin :: "nat option \<Rightarrow> nat option \<Rightarrow> nat \<Rightarrow> world \<Rightarrow> world outcome" where
  "nucleus_mount_begin context parentNode e w =
     bind (onMount e (upd_entity e (\<lambda>r. r\<lparr>e_context := context\<rparr>) w))
       (\<lambda>(nd, w1).
          (let w2 = upd_entity e (\<lambda>r. r\<lparr>e_node := Some nd\<rparr>) w1;
               w3 = (if n_entity (w_node w2 nd) = None
                     then upd_node nd (\<lambda>m. m\<lparr>n_entity := Some e\<rparr>) w2 else w2)
           in Returned (upd_entity e (\<lambda>r. r\<lparr>e_isMounted := True\<rparr>) (set_to_parent nd parentNode e w3))))"

definition nucleus_mount_children ::
  "(nat option \<Rightarrow> nat option \<Rightarrow> nat \<Rightarrow> world \<Rightarrow> world outcome) \<Rightarrow> nat \<Rightarrow> world \<Rightarrow> world outcome" where
  "nucleus_mount_children mnt e w =
     forEach (\<lambda>v. e_children (w_entity v e))
       (\<lambda>child v. mnt (e_context (w_entity v e)) None child
          (upd_entity child (\<lambda>r. r\<lparr>e_childContext := VUndefined\<rparr>) v)) w"

text \<open>
  The end of \<open>_mount\<close>: \<open>InternalComponentCollection.mount\<close> (an event), \<open>didMount\<close>, the
  two observers, \<open>_registerEntity\<close> (an event).
\<close>

definition nucleus_mount_finish :: "nat option \<Rightarrow> nat \<Rightarrow> world \<Rightarrow> world outcome" where
  "nucleus_mount_finish context e w =
     (case e_context (w_entity w e) of
        None \<Rightarrow> Thrown TypeError w
      | Some cx \<Rightarrow>
          (let w1 = emit (DidMount e) (emit (CollectionMount e) w)
           in case onBeforeRender_add (ctx_scene (w_jscontext w1 cx)) e w1 of
                (ob, w2) \<Rightarrow>
                  (let w3 = upd_entity e (\<lambda>r. r\<lparr>e_onBeforeRenderObserver := Some ob\<rparr>) w2
                   in case e_node (w_entity w3 e) of
                        None \<Rightarrow> Thrown TypeError w3
                      | Some nd \<Rightarrow>
                          (case onDispose_add nd e w3 of
                             (ob2, w4) \<Rightarrow>
                               (let w5 = upd_entity e (\<lambda>r. r\<lparr>e_onDisposeObserver := Some ob2\<rparr>) w4
                                in case context of
                                     None \<Rightarrow> Thrown TypeError w5
                                   | Some cx0 \<Rightarrow>
                                       (case ctx_sceneEntity (w_jscontext w5 cx0) of
                                          None \<Rightarrow> Thrown TypeError w5
                                        | Some se \<Rightarrow> Returned (emit (RegisterEntity se e) w5)))))))"

primrec nucleus_mount :: "nat \<Rightarrow> nat option \<Rightarrow> nat option \<Rightarrow> nat \<Rightarrow> world \<Rightarrow> world outcome" where
  "nucleus_mount 0 context parentNode e w = Exhausted"
| "nucleus_mount (Suc fuel) context parentNode e w =
     (if e_isMounted (w_entity w e) then Thrown (Error ''Entity already mounted'') w
      else
        bind (nucleus_mount_begin context parentNode e w)
          (\<lambda>w1. bind (nucleus_mount_children (nucleus_mount fuel) e w1)
             (nucleus_mount_finish context e)))"

definition nucleus_remount :: "nat \<Rightarrow> nat \<Rightarrow> world \<Rightarrow> world outcome" where
  "nucleus_remount fuel e w =
     (if \<not> e_isMounted (w_entity w e) then Thrown (Error ''Not mounted.'') w
      else bind (nucleus_unmount fuel e w)
             (\<lambda>w1. nucleus_mount fuel (e_context (w_entity w1 e)) None e w1))"

definition nucleus_mountChild :: "nat \<Rightarrow> nat \<Rightarrow> nat \<Rightarrow> world \<Rightarrow> world outcome" where
  "nucleus_mountChild fuel e child w =
     (if e_isMounted (w_entity w child) then Thrown (Error ''Child already mounted.'') w
      else
        (let w1 = upd_entity e (\<lambda>r. r\<lparr>e_children := e_children r @ [child]\<rparr>) w;
             w2 = upd_entity child (\<lambda>r. r\<lparr>e_parent := Some e\<rparr>) w1;
             w3 = emit (ParentUpdated child (e_isMounted (w_entity w2 e))) w2
         in if e_isMounted (w_entity w3 e) then
              nucleus_mount fuel (e_context (w_entity w3 e)) None child
                (upd_entity child (\<lambda>r. r\<lparr>e_childContext := VUndefined\<rparr>) w3)
            else Returned w3))"

text \<open>
  Modelled from the spec: \<open>InternalComponentCollection\<close> is not among the sources. The spec
  calls it the collection of attached components; \<open>mountComponent\<close> is taken to append the
  component to the array that \<open>Entity.components\<close> returns.
\<close>

definition collection_mountComponent :: "nat \<Rightarrow> nat \<Rightarrow> world \<Rightarrow> world" where
  "collection_mountComponent e c w =
     emit (CollectionMountComponent e c)
       (upd_entity e (\<lambda>r. r\<lparr>e_components := e_components r @ [c]\<rparr>) w)"

definition nucleus_mountComponents :: "nat \<Rightarrow> nat list \<Rightarrow> world \<Rightarrow> world outcome" where
  "nucleus_mountComponents e cs w =
     forEach (\<lambda>_. cs)
       (\<lambda>c v. if find (\<lambda>k. c_kind (w_component v k) = c_kind (w_component v c))
                    (e_components (w_entity v e)) \<noteq> None
               then Thrown (Error ''An instance of this component is already mounted.'') v
               else Returned (collection_mountComponent e c v)) w"

text \<open>
  \<open>updateProps\<close>: \<open>Object.assign(cloneDeep(props), this.props)\<close> becomes the entity's
  properties; \<open>_notifyChildren\<close> touches the children only.
\<close>

definition nucleus_notifyChildren :: "nat \<Rightarrow> world \<Rightarrow> world" where
  "nucleus_notifyChildren e w =
     fold (\<lambda>child v. emit (ParentUpdated child (e_isMounted (w_entity v e)))
                       (upd_entity child (\<lambda>r. r\<lparr>e_childContext := VUndefined\<rparr>) v))
       (e_children (w_entity w e)) w"

definition nucleus_updateProps :: "nat \<Rightarrow> nat \<Rightarrow> world \<Rightarrow> world" where
  "nucleus_updateProps e props w =
     (let w0 = (if e_isMounted (w_entity w e) then emit (WillPropsUpdate e props) w else w)
      in case cloneDeep (e_props (w_entity w0 e)) w0 of
           (oldProps, w1) \<Rightarrow>
             (case cloneDeep props w1 of
                (p, w2) \<Rightarrow>
                  (let w3 = upd_entity e (\<lambda>r. r\<lparr>e_props := p\<rparr>)
                              (Object_assign p (e_props (w_entity w2 e)) w2)
                   in if e_isMounted (w_entity w3 e) then
                        nucleus_notifyChildren e
                          (emit (CollectionOnEntityPropsUpdated e)
                             (emit (OnPropsUpdated e oldProps)
                                (emit (CollectionOnEntityPropsWillUpdate e oldProps) w3)))
                      else w3)))"


section \<open>The context helper (src/core/common/NucleusHelper.ts)\<close>

datatype mountingPoint = MPContext nat | MPEntity nat | MPTransformNode nat | MPScene nat

text \<open>
  \<open>_initializeFor\<close>: \<open>new SystemRegistrar(scene)\<close> adds a registrar (of that scene) to the
  registrars made so far.
\<close>

definition initializeFor :: "nat \<Rightarrow> world \<Rightarrow> (nat \<times> world) outcome" where
  "initializeFor sc w =
     (if s_isDisposed (w_scene w sc) then Thrown (Error ''Scene has been disposed'') w
      else
        (let cx = w_jscontext_count w;
             w1 = w\<lparr>w_jscontext := (w_jscontext w)(cx :=
                       \<lparr>ctx_engine = s_engine (w_scene w sc), ctx_scene = sc,
                        ctx_systemRegistrar = Some (length (w_registrars w)),
                        ctx_sceneEntity = None\<rparr>),
                    w_jscontext_count := Suc cx,
                    w_registrars := w_registrars w @ [sc]\<rparr>
         in Returned (cx, upd_scene sc (\<lambda>s. s\<lparr>s_nucleus := Some cx\<rparr>) w1)))"

definition getContextFor :: "mountingPoint \<Rightarrow> world \<Rightarrow> (nat option \<times> world) outcome" where
  "getContextFor mp w =
     (case mp of
        MPContext cx \<Rightarrow>
          (if ctx_systemRegistrar (w_jscontext w cx) \<noteq> None then Returned (Some cx, w)
           else Thrown TypeError w)
      | MPEntity e \<Rightarrow> Returned (e_context (w_entity w e), w)
      | _ \<Rightarrow>
          (let sc = (case mp of MPTransformNode nd \<Rightarrow> n_scene (w_node w nd) | MPScene s \<Rightarrow> s | _ \<Rightarrow> 0)
           in case s_nucleus (w_scene w sc) of
                Some cx \<Rightarrow> Returned (Some cx, w)
              | None \<Rightarrow> bind (initializeFor sc w) (\<lambda>(cx, w1). Returned (Some cx, w1))))"

section \<open>Example heaps\<close>

definition blank_entity :: entity where
  "blank_entity = \<lparr>e_isMounted = False, e_node = None, e_props = 0, e_parent = None,
     e_context = None, e_childContext = VUndefined, e_components = [], e_children = [],
     e_key = None, e_ref = False, e_onBeforeRenderObserver = None, e_onDisposeObserver = None\<rparr>"

definition blank_world :: world where
  "blank_world = \<lparr>w_entity = (\<lambda>_. blank_entity), w_entity_count = 0,
     w_component = (\<lambda>_. \<lparr>c_kind = ''Component'', c_loaded = False, c_isEnabled = True, c_context = None\<rparr>),
     w_node = (\<lambda>_. \<lparr>n_name = [], n_scene = 0, n_parent = None, n_disposed = False,
                    n_entity = None, n_onDispose = []\<rparr>),
     w_node_count = 0,
     w_scene = (\<lambda>_. \<lparr>s_engine = 0, s_isDisposed = False, s_onBeforeRender = [], s_nucleus = None\<rparr>),
     w_jscontext = (\<lambda>_. \<lparr>ctx_engine = 0, ctx_scene = 0, ctx_systemRegistrar = None,
                         ctx_sceneEntity = Some 0\<rparr>),
     w_jscontext_count = 1, w_registrars = [],
     w_object = [], w_observer_count = 0, w_trace = []\<rparr>"

text \<open>A mounted bframe root: one entity, constructed and mounted in context 0.\<close>

definition bframe_root :: world where
  "bframe_root =
     (case bframe_Entity None (Some ''root'') False blank_world of
        (e, w) \<Rightarrow> (case bframe_mount 1 (Some 0) None e w of Returned w' \<Rightarrow> w' | _ \<Rightarrow> w))"

text \<open>The bframe root with a child: a second entity, mounted by \<open>mountChild\<close>.\<close>

definition bframe_family :: world where
  "bframe_family =
     (case bframe_Entity None (Some ''child'') False bframe_root of
        (c, w) \<Rightarrow> (case bframe_mountChild 1 0 c w of Returned w' \<Rightarrow> w' | _ \<Rightarrow> w))"

text \<open>The same for nucleus: a mounted root, and the root with a child.\<close>

definition nucleus_root :: world where
  "nucleus_root =
     (case nucleus_Entity None (Some ''root'') blank_world of
        (e, w) \<Rightarrow> (case nucleus_mount 1 (Some 0) None e w of Returned w' \<Rightarrow> w' | _ \<Rightarrow> w))"

definition nucleus_family :: world where
  "nucleus_family =
     (case nucleus_Entity None (Some ''child'') nucleus_root of
        (c, w) \<Rightarrow> (case nucleus_mountChild 1 0 c w of Returned w' \<Rightarrow> w' | _ \<Rightarrow> w))"

text \<open>
  The nucleus root with two children, both mounted by \<open>mountChild\<close>; and the same heap after
  \<open>remount\<close> of the first child.
\<close>

definition nucleus_siblings :: world where
  "nucleus_siblings =
     (case nucleus_Entity None (Some ''second'') nucleus_family of
        (c, w) \<Rightarrow> (case nucleus_mountChild 1 0 c w of Returned w' \<Rightarrow> w' | _ \<Rightarrow> w))"


text \<open>A bframe entity to which two component instances of one kind were added.\<close>

definition bframe_two_instances :: world where
  "bframe_two_instances =
     (case bframe_Entity None None False blank_world of
        (e, w) \<Rightarrow> (case bframe_addComponents e [0, 1] w of Returned w' \<Rightarrow> w' | _ \<Rightarrow> w))"

text \<open>A nucleus entity with two components of different kinds, the second one disabled.\<close>

definition nucleus_two_components :: world where
  "nucleus_two_components =
     (case nucleus_Entity None None blank_world of
        (e, w) \<Rightarrow>
          (case nucleus_mountComponents e [0, 1]
                  (upd_component 1 (\<lambda>k. k\<lparr>c_kind := ''Other'', c_isEnabled := False\<rparr>) w) of
             Returned w' \<Rightarrow> w' | _ \<Rightarrow> w))"

text \<open>The same entity, and a component 5 of a third kind that is not attached.\<close>

definition nucleus_third_kind :: world where
  "nucleus_third_kind = upd_component 5 (\<lambda>k. k\<lparr>c_kind := ''Third''\<rparr>) nucleus_two_components"




text \<open>
  A nucleus entity constructed from the properties \<open>{x: 1, name: 'a'}\<close>, and a second
  properties object \<open>{x: 5, y: 7}\<close> at address 2.
\<close>

definition nucleus_with_props :: world where
  "nucleus_with_props =
     (case new_object [''x'' \<mapsto> VNum 1, ''name'' \<mapsto> VStr ''a''] blank_world of
        (a, w) \<Rightarrow> (case nucleus_Entity (Some a) None w of
           (e, w1) \<Rightarrow> snd (new_object [''x'' \<mapsto> VNum 5, ''y'' \<mapsto> VNum 7] w1)))"

text \<open>A heap whose scene 0 was disposed before any context was made for it.\<close>

definition disposed_scene_world :: world where
  "disposed_scene_world = upd_scene 0 (\<lambda>s. s\<lparr>s_isDisposed := True\<rparr>) blank_world"

text \<open>The mounted roots, with a second entity that is constructed and not yet mounted.\<close>

definition bframe_with_orphan :: world where
  "bframe_with_orphan = snd (bframe_Entity None (Some ''child'') False bframe_root)"

definition nucleus_with_orphan :: world where
  "nucleus_with_orphan = snd (nucleus_Entity None (Some ''child'') nucleus_root)"

text \<open>
  Three bframe entities, none mounted; entity 2 was given as a child to entity 0 and then
  to entity 1.
\<close>

definition bframe_two_parents :: world where
  "bframe_two_parents =
     (case bframe_Entity None None False blank_world of
        (p1, w1) \<Rightarrow> (case bframe_Entity None None False w1 of
          (p2, w2) \<Rightarrow> (case bframe_Entity None None False w2 of
            (c, w3) \<Rightarrow> (case bframe_mountChild 1 p1 c w3 of
               Returned w4 \<Rightarrow> (case bframe_mountChild 1 p2 c w4 of Returned w5 \<Rightarrow> w5 | _ \<Rightarrow> w4)
             | _ \<Rightarrow> w3))))"

text \<open>
  A store with the properties \<open>{pos: {x: 1}}\<close> at address 0 (the inner object at address 1),
  and a bframe and a nucleus entity constructed from them.
\<close>

definition nested_props :: world where
  "nested_props = blank_world\<lparr>w_object := [[''pos'' \<mapsto> VRef 1], [''x'' \<mapsto> VNum 1]]\<rparr>"

definition bframe_from_props :: world where
  "bframe_from_props = snd (bframe_Entity (Some 0) None False nested_props)"

definition nucleus_from_props :: world where
  "nucleus_from_props = snd (nucleus_Entity (Some 0) None nested_props)"







text \<open>
  Three nucleus entities: the mounted root 0, and entity 2 given as a child first to the
  unmounted entity 1 and then to the root, which mounted it.
\<close>

definition nucleus_shared_child :: world where
  "nucleus_shared_child =
     (case nucleus_Entity None None nucleus_root of
        (p, w1) \<Rightarrow> (case nucleus_Entity None None w1 of
          (c, w2) \<Rightarrow> (case nucleus_mountChild 1 p c w2 of
             Returned w3 \<Rightarrow> (case nucleus_mountChild 1 0 c w3 of Returned w4 \<Rightarrow> w4 | _ \<Rightarrow> w3)
           | _ \<Rightarrow> w2)))"

section \<open>Predicates of the claims\<close>

text \<open>Two heaps with the same parent references and the same children lists.\<close>

definition same_links :: "world \<Rightarrow> world \<Rightarrow> bool" where
  "same_links w w' \<longleftrightarrow>
     (\<forall>y. e_parent (w_entity w' y) = e_parent (w_entity w y) \<and>
          e_children (w_entity w' y) = e_children (w_entity w y))"


text \<open>
  What \<open>unmount\<close> leaves alone: nothing is undisposed; an entity holds the node it held or
  none; no entity is mounted that was not; no entity stores a render observer that stored
  none; and no context and no parent reference changes.
\<close>

definition only_unmounts :: "world \<Rightarrow> world \<Rightarrow> bool" where
  "only_unmounts w w' \<longleftrightarrow>
     (\<forall>nd. n_disposed (w_node w nd) \<longrightarrow> n_disposed (w_node w' nd)) \<and>
     (\<forall>y. (e_node (w_entity w' y) = e_node (w_entity w y) \<or> e_node (w_entity w' y) = None) \<and>
          (e_isMounted (w_entity w' y) \<longrightarrow> e_isMounted (w_entity w y)) \<and>
          (e_onBeforeRenderObserver (w_entity w y) = None \<longrightarrow>
             e_onBeforeRenderObserver (w_entity w' y) = None) \<and>
          e_context (w_entity w' y) = e_context (w_entity w y) \<and>
          e_parent (w_entity w' y) = e_parent (w_entity w y)) \<and>
     w_jscontext w' = w_jscontext w"





text \<open>The kinds (constructor names) of the components attached to an entity, in order.\<close>

definition kinds :: "world \<Rightarrow> nat \<Rightarrow> string list" where
  "kinds w e = map (\<lambda>k. c_kind (w_component w k)) (e_components (w_entity w e))"

text \<open>
  The objects reachable from an object: the object itself and whatever a property of a
  reachable object refers to.
\<close>

inductive reaches :: "world \<Rightarrow> nat \<Rightarrow> nat \<Rightarrow> bool" for w :: world and a :: nat where
  reaches_self: "reaches w a a"
| reaches_step: "reaches w a b \<Longrightarrow> object_at w b k = Some (VRef c) \<Longrightarrow> reaches w a c"




text \<open>No entity that was mounted is unmounted.\<close>

definition stay_mounted :: "world \<Rightarrow> world \<Rightarrow> bool" where
  "stay_mounted w w' \<longleftrightarrow> (\<forall>z. e_isMounted (w_entity w z) \<longrightarrow> e_isMounted (w_entity w' z))"

text \<open>The scene of the context of an entity, when it has a context.\<close>

definition scene_of :: "world \<Rightarrow> nat \<Rightarrow> nat option" where
  "scene_of w e = map_option (\<lambda>cx. ctx_scene (w_jscontext w cx)) (e_context (w_entity w e))"

text \<open>The before-render observers of a scene: pairs of an observer and the entity it calls.\<close>

definition registered :: "world \<Rightarrow> nat \<Rightarrow> (nat \<times> nat) set" where
  "registered w sc = set (s_onBeforeRender (w_scene w sc))"

text \<open>
  The render loop is wired to exactly the mounted entities. \<open>X\<close> holds the entities whose
  \<open>_mount\<close> is under way: flagged as mounted, not yet observed. A mounted entity outside
  \<open>X\<close> has its stored observer registered on the scene of its context; every registered
  observer is the stored observer of a mounted entity outside \<open>X\<close>, on the scene of its
  context, and was handed out before; an entity that is not mounted stores no observer; and
  no observer is registered for two entities.
\<close>

definition render_wired :: "nat set \<Rightarrow> world \<Rightarrow> bool" where
  "render_wired X w \<longleftrightarrow>
     (\<forall>e. e_isMounted (w_entity w e) \<and> e \<notin> X \<longrightarrow>
        (\<exists>ob sc. e_onBeforeRenderObserver (w_entity w e) = Some ob \<and> scene_of w e = Some sc \<and>
           (ob, e) \<in> registered w sc)) \<and>
     (\<forall>sc ob e. (ob, e) \<in> registered w sc \<longrightarrow>
        e_isMounted (w_entity w e) \<and> e \<notin> X \<and> e_onBeforeRenderObserver (w_entity w e) = Some ob \<and>
        scene_of w e = Some sc \<and> ob < w_observer_count w) \<and>
     (\<forall>e. \<not> e_isMounted (w_entity w e) \<longrightarrow> e_onBeforeRenderObserver (w_entity w e) = None) \<and>
     (\<forall>e. e \<in> X \<longrightarrow> e_isMounted (w_entity w e)) \<and>
     (\<forall>sc sc' ob e e'. (ob, e) \<in> registered w sc \<and> (ob, e') \<in> registered w sc' \<longrightarrow> e = e')"

text \<open>Heaps that differ in nothing the wiring depends on.\<close>

definition same_wiring :: "world \<Rightarrow> world \<Rightarrow> bool" where
  "same_wiring w w' \<longleftrightarrow>
     (\<forall>z. e_isMounted (w_entity w' z) = e_isMounted (w_entity w z) \<and>
          e_onBeforeRenderObserver (w_entity w' z) = e_onBeforeRenderObserver (w_entity w z) \<and>
          scene_of w' z = scene_of w z) \<and>
     (\<forall>sc. registered w' sc = registered w sc) \<and>
     w_observer_count w \<le> w_observer_count w'"

definition keeps_wired :: "world \<Rightarrow> world \<Rightarrow> bool" where
  "keeps_wired w w' \<longleftrightarrow> (render_wired {} w \<longrightarrow> render_wired {} w')"

text \<open>
  While an \<open>unmount\<close> is under way the entities it has taken off the render loop are still
  flagged as mounted: they are the mounted entities that store no observer.
\<close>

definition unobserved :: "world \<Rightarrow> nat set" where
  "unobserved w = {z. e_isMounted (w_entity w z) \<and> e_onBeforeRenderObserver (w_entity w z) = None}"

definition unwires :: "world \<Rightarrow> world \<Rightarrow> bool" where
  "unwires w w' \<longleftrightarrow>
     (render_wired (unobserved w) w \<longrightarrow> render_wired (unobserved w') w') \<and>
     (\<forall>z. (z \<in> unobserved w' \<longrightarrow> z \<in> unobserved w) \<and>
          (e_onBeforeRenderObserver (w_entity w z) = None \<longrightarrow>
             e_onBeforeRenderObserver (w_entity w' z) = None))"

section \<open>Loops and outcomes\<close>

lemmas heap_defs = emit_def upd_entity_def upd_node_def upd_scene_def upd_component_def
  dispose_def onBeforeRender_remove_def onDispose_remove_def onBeforeRender_add_def
  onDispose_add_def new_Mesh_def

lemmas run_defs = bind_def forEach_def Let_def mesh_name_def set_to_parent_def onMount_def
  new_object_def object_at_def blank_world_def blank_entity_def

lemma bind_Returned_iff: "bind r f = Returned y \<longleftrightarrow> (\<exists>x. r = Returned x \<and> f x = Returned y)"
  by (cases r) (simp_all add: bind_def)

text \<open>A property that every call of the loop body keeps is kept by the loop.\<close>

lemma forEachFrom_preserves:
  assumes step: "\<And>x v v'. P v \<Longrightarrow> f x v = Returned v' \<Longrightarrow> P v'"
  shows "P w \<Longrightarrow> forEachFrom k i arr f w = Returned w' \<Longrightarrow> P w'"
proof (induction k arbitrary: i w)
  case 0
  then show ?case by simp
next
  case (Suc k)
  show ?case
  proof (cases "i < length (arr w)")
    case True
    with Suc.prems(2) obtain v where v: "f (arr w ! i) w = Returned v"
      and rest: "forEachFrom k (Suc i) arr f v = Returned w'"
      by (auto simp: bind_Returned_iff)
    from step [OF Suc.prems(1) v] rest show ?thesis by (rule Suc.IH)
  next
    case False
    with Suc.prems show ?thesis by (auto intro: Suc.IH)
  qed
qed

lemma forEach_preserves:
  assumes step: "\<And>x v v'. P v \<Longrightarrow> f x v = Returned v' \<Longrightarrow> P v'"
    and init: "P w" and run: "forEach arr f w = Returned w'"
  shows "P w'"
proof -
  from run have "forEachFrom (length (arr w)) 0 arr f w = Returned w'"
    by (simp add: forEach_def)
  from forEachFrom_preserves [where P = P and f = f, OF step init this] show ?thesis
    by assumption
qed

lemma same_links_refl: "same_links w w"
  by (simp add: same_links_def)

lemma same_links_trans: "same_links a b \<Longrightarrow> same_links b c \<Longrightarrow> same_links a c"
  by (simp add: same_links_def)

section \<open>Frame rules\<close>

text \<open>
  A reflexive and transitive relation between heaps that every block of an operation respects
  holds between the heap before the operation and the heap it returns.
\<close>

lemma forEach_rel:
  assumes refl: "\<And>a. R a a" and trans: "\<And>a b c. R a b \<Longrightarrow> R b c \<Longrightarrow> R a c"
    and step: "\<And>x v v'. f x v = Returned v' \<Longrightarrow> R v v'"
    and run: "forEach arr f w = Returned w'"
  shows "R w w'"
  using refl run
proof (rule forEach_preserves [where P = "R w", rotated])
  show "\<And>x v v'. R w v \<Longrightarrow> f x v = Returned v' \<Longrightarrow> R w v'"
    by (blast intro: trans step)
qed

lemma bframe_unmount_rel:
  assumes refl: "\<And>a. R a a" and trans: "\<And>a b c. R a b \<Longrightarrow> R b c \<Longrightarrow> R a c"
    and ev: "\<And>x a. R a (emit x a)"
    and tail: "\<And>x a b. bframe_unmount_tail x a = Returned b \<Longrightarrow> R a b"
  shows "bframe_unmount fuel e w = Returned w' \<Longrightarrow> R w w'"
proof (induction fuel arbitrary: e w w')
  case 0
  then show ?case by simp
next
  case (Suc fuel)
  from Suc.prems obtain w1 w2 where
    l1: "forEach (\<lambda>v. e_children (w_entity v e)) (bframe_unmount fuel) (emit (WillUnmount e) w) = Returned w1"
    and l2: "forEach (\<lambda>v. e_components (w_entity v e)) (\<lambda>c v. Returned (emit (ComponentUnmount c) v)) w1 = Returned w2"
    and rest: "bframe_unmount_tail e w2 = Returned w'"
    by (auto simp: bind_Returned_iff bframe_unmount_self_def)
  have "R (emit (WillUnmount e) w) w1"
    using refl trans Suc.IH l1 by (rule forEach_rel [where R = R])
  moreover have "R w1 w2"
    using refl trans _ l2
  proof (rule forEach_rel [where R = R])
    show "\<And>x v v'. Returned (emit (ComponentUnmount x) v) = Returned v' \<Longrightarrow> R v v'"
      using ev by auto
  qed
  ultimately show ?case using ev [of w "WillUnmount e"] tail [OF rest] by (blast intro: trans)
qed

lemma bframe_mount_finish_rel:
  assumes refl: "\<And>a. R a a" and trans: "\<And>a b c. R a b \<Longrightarrow> R b c \<Longrightarrow> R a c"
    and wire: "\<And>x a b. bframe_mount_wire x a = Returned b \<Longrightarrow> R a b"
    and comp: "\<And>x c a b. bframe_mountComponent x c a = Returned b \<Longrightarrow> R a b"
    and run: "bframe_mount_finish e w = Returned w'"
  shows "R w w'"
proof -
  from run obtain w1 where a: "bframe_mount_wire e w = Returned w1"
    and b: "forEach (\<lambda>v. e_components (w_entity v e)) (bframe_mountComponent e) w1 = Returned w'"
    by (auto simp: bframe_mount_finish_def bind_Returned_iff)
  have "R w1 w'" using refl trans comp b by (rule forEach_rel [where R = R])
  with wire [OF a] show ?thesis by (blast intro: trans)
qed

lemma bframe_mount_rel:
  assumes refl: "\<And>a. R a a" and trans: "\<And>a b c. R a b \<Longrightarrow> R b c \<Longrightarrow> R a c"
    and bgn: "\<And>c x a b. \<not> e_isMounted (w_entity a x) \<Longrightarrow> bframe_mount_begin c x a = Returned b \<Longrightarrow> R a b"
    and par: "\<And>nd pn x a. R a (set_to_parent nd pn x a)"
    and cc: "\<And>x a. R a (upd_entity x (\<lambda>r. r\<lparr>e_childContext := VUndefined\<rparr>) a)"
    and wire: "\<And>x a b. \<not> e_isMounted (w_entity a x) \<Longrightarrow> bframe_mount_wire x a = Returned b \<Longrightarrow> R a b"
    and comp: "\<And>x c a b. bframe_mountComponent x c a = Returned b \<Longrightarrow> R a b"
  shows "bframe_mount fuel ctx parentNode e w = Returned w' \<Longrightarrow> R w w'"
proof (induction fuel arbitrary: ctx parentNode e w w')
  case 0
  then show ?case by simp
next
  case (Suc fuel)
  from Suc.prems obtain w1 nd w3 where
    s1: "(if \<not> e_isMounted (w_entity w e) then bframe_mount_begin ctx e w else Returned w) = Returned w1"
    and nd: "e_node (w_entity w1 e) = Some nd"
    and s2: "bframe_mount_children (bframe_mount fuel) e (set_to_parent nd parentNode e w1) = Returned w3"
    and s3: "(if \<not> e_isMounted (w_entity w3 e) then bframe_mount_finish e w3 else Returned w3) = Returned w'"
    by (auto simp: bind_Returned_iff split: option.splits)
  from s1 have r1: "R w w1"
    by (cases "e_isMounted (w_entity w e)") (auto intro: refl bgn)
  have r2: "R (set_to_parent nd parentNode e w1) w3"
    using refl trans _ s2 [unfolded bframe_mount_children_def]
  proof (rule forEach_rel [where R = R])
    fix x v v'
    assume "bframe_mount fuel (e_context (w_entity v e)) None x
              (upd_entity x (\<lambda>r. r\<lparr>e_childContext := VUndefined\<rparr>) v) = Returned v'"
    from Suc.IH [OF this] cc [of v x] show "R v v'" by (blast intro: trans)
  qed
  from s3 have r3: "R w3 w'"
  proof (cases "e_isMounted (w_entity w3 e)")
    case True
    with s3 show ?thesis by (auto intro: refl)
  next
    case False
    with s3 have f: "bframe_mount_finish e w3 = Returned w'" by simp
    then obtain w4 where a: "bframe_mount_wire e w3 = Returned w4"
      and b: "forEach (\<lambda>v. e_components (w_entity v e)) (bframe_mountComponent e) w4 = Returned w'"
      by (auto simp: bframe_mount_finish_def bind_Returned_iff)
    have "R w4 w'" using refl trans comp b by (rule forEach_rel [where R = R])
    with wire [OF False a] show ?thesis by (blast intro: trans)
  qed
  from r1 par [of w1 nd parentNode e] r2 r3 show ?case by (blast intro: trans)
qed

text \<open>The blocks of the nucleus \<open>unmount\<close>, field by field.\<close>

lemma nucleus_unwire_fields:
  "e_node (w_entity (nucleus_unwire cx nd e w) y) = e_node (w_entity w y)"
  "e_isMounted (w_entity (nucleus_unwire cx nd e w) y) = e_isMounted (w_entity w y)"
  "e_onBeforeRenderObserver (w_entity (nucleus_unwire cx nd e w) y) =
     (if y = e then None else e_onBeforeRenderObserver (w_entity w y))"
  "e_parent (w_entity (nucleus_unwire cx nd e w) y) = e_parent (w_entity w y)"
  "e_context (w_entity (nucleus_unwire cx nd e w) y) = e_context (w_entity w y)"
  "e_children (w_entity (nucleus_unwire cx nd e w) y) = e_children (w_entity w y)"
  "n_disposed (w_node (nucleus_unwire cx nd e w) m) = n_disposed (w_node w m)"
  "w_jscontext (nucleus_unwire cx nd e w) = w_jscontext w"
  "w_observer_count (nucleus_unwire cx nd e w) = w_observer_count w"
  "s_onBeforeRender (w_scene (nucleus_unwire cx nd e w) sc) =
     (if sc = ctx_scene (w_jscontext w cx)
      then observable_remove (e_onBeforeRenderObserver (w_entity w e)) (s_onBeforeRender (w_scene w sc))
      else s_onBeforeRender (w_scene w sc))"
  by (simp_all add: nucleus_unwire_def Let_def heap_defs)

lemma nucleus_forget_fields:
  "e_node (w_entity (nucleus_forget nd e w) y) = (if y = e then None else e_node (w_entity w y))"
  "e_isMounted (w_entity (nucleus_forget nd e w) y) = (if y = e then False else e_isMounted (w_entity w y))"
  "e_onBeforeRenderObserver (w_entity (nucleus_forget nd e w) y) = e_onBeforeRenderObserver (w_entity w y)"
  "e_parent (w_entity (nucleus_forget nd e w) y) = e_parent (w_entity w y)"
  "e_context (w_entity (nucleus_forget nd e w) y) = e_context (w_entity w y)"
  "e_children (w_entity (nucleus_forget nd e w) y) = e_children (w_entity w y)"
  "n_disposed (w_node (nucleus_forget nd e w) m) = n_disposed (w_node w m)"
  "w_scene (nucleus_forget nd e w) = w_scene w"
  "w_jscontext (nucleus_forget nd e w) = w_jscontext w"
  "w_observer_count (nucleus_forget nd e w) = w_observer_count w"
  by (simp_all add: nucleus_forget_def heap_defs)

lemma nucleus_leave_parent_fields:
  "e_node (w_entity (nucleus_leave_parent e w) y) = e_node (w_entity w y)"
  "e_isMounted (w_entity (nucleus_leave_parent e w) y) = e_isMounted (w_entity w y)"
  "e_onBeforeRenderObserver (w_entity (nucleus_leave_parent e w) y) = e_onBeforeRenderObserver (w_entity w y)"
  "e_parent (w_entity (nucleus_leave_parent e w) y) = e_parent (w_entity w y)"
  "e_context (w_entity (nucleus_leave_parent e w) y) = e_context (w_entity w y)"
  "e_children (w_entity (nucleus_leave_parent e w) y) =
     (if e_parent (w_entity w e) = Some y
      then splice1 (indexOf (e_children (w_entity w y)) e) (e_children (w_entity w y))
      else e_children (w_entity w y))"
  "w_node (nucleus_leave_parent e w) = w_node w"
  "w_scene (nucleus_leave_parent e w) = w_scene w"
  "w_jscontext (nucleus_leave_parent e w) = w_jscontext w"
  "w_observer_count (nucleus_leave_parent e w) = w_observer_count w"
  by (simp_all add: nucleus_leave_parent_def heap_defs split: option.splits)

text \<open>The parts of a call of the last blocks of \<open>unmount\<close> that returns.\<close>

lemma nucleus_unmount_self_Returned:
  "nucleus_unmount_self dsp e w = Returned w' \<longleftrightarrow>
     (\<exists>cx nd w5 nd' se. e_context (w_entity w e) = Some cx \<and> e_node (w_entity w e) = Some nd \<and>
        (if n_disposed (w_node w nd)
         then w5 = nucleus_unwire cx nd e (emit (CollectionUnmount e) w)
         else dsp nd (nucleus_unwire cx nd e (emit (CollectionUnmount e) w)) = Returned w5) \<and>
        e_node (w_entity w5 e) = Some nd' \<and> ctx_sceneEntity (w_jscontext w5 cx) = Some se \<and>
        w' = emit (UnregisterEntity se e) (nucleus_leave_parent e (nucleus_forget nd' e w5)))"
proof (cases "e_context (w_entity w e)")
  case None
  then show ?thesis by (simp add: nucleus_unmount_self_def Let_def emit_def)
next
  case cx: (Some cx)
  show ?thesis
  proof (cases "e_node (w_entity w e)")
    case None
    with cx show ?thesis by (simp add: nucleus_unmount_self_def Let_def emit_def)
  next
    case nd: (Some nd)
    let ?u = "nucleus_unwire cx nd e (emit (CollectionUnmount e) w)"
    let ?K = "\<lambda>w5. case e_node (w_entity w5 e) of
                 None \<Rightarrow> Thrown TypeError w5
               | Some nd' \<Rightarrow>
                   (let w7 = nucleus_leave_parent e (nucleus_forget nd' e w5)
                    in case ctx_sceneEntity (w_jscontext w7 cx) of
                         None \<Rightarrow> Thrown TypeError w7
                       | Some se \<Rightarrow> Returned (emit (UnregisterEntity se e) w7))"
    have run: "nucleus_unmount_self dsp e w =
        bind (if \<not> n_disposed (w_node w nd) then dsp nd ?u else Returned ?u) ?K"
      using cx nd by (simp add: nucleus_unmount_self_def Let_def nucleus_unwire_fields emit_def)
    have K: "?K w5 = Returned w' \<longleftrightarrow>
        (\<exists>nd' se. e_node (w_entity w5 e) = Some nd' \<and> ctx_sceneEntity (w_jscontext w5 cx) = Some se \<and>
           w' = emit (UnregisterEntity se e) (nucleus_leave_parent e (nucleus_forget nd' e w5)))" for w5
      by (auto simp: Let_def nucleus_leave_parent_fields nucleus_forget_fields split: option.splits)
    have "nucleus_unmount_self dsp e w = Returned w' \<longleftrightarrow>
        (\<exists>w5. (if n_disposed (w_node w nd) then w5 = ?u else dsp nd ?u = Returned w5) \<and>
           ?K w5 = Returned w')"
      unfolding run bind_Returned_iff by auto
    with cx nd show ?thesis unfolding K by auto
  qed
qed

text \<open>The engine's disposal, and \<open>unmount\<close> with it.\<close>

lemma notifyObservers_rel:
  assumes refl: "\<And>a. R a a" and trans: "\<And>a b c. R a b \<Longrightarrow> R b c \<Longrightarrow> R a c"
    and cb: "\<And>x a b. callback x a = Returned b \<Longrightarrow> R a b"
    and run: "notifyObservers callback nd w = Returned w'"
  shows "R w w'"
  using refl trans _ run [unfolded notifyObservers_def]
proof (rule forEach_rel [where R = R])
  fix x v v'
  assume "(case find (\<lambda>p. fst p = x) (n_onDispose (w_node v nd)) of
             None \<Rightarrow> Returned v | Some p \<Rightarrow> callback (snd p) v) = Returned v'"
  then show "R v v'" by (auto intro: refl cb split: option.splits)
qed

lemma dispose_cascade_rel:
  assumes refl: "\<And>a. R a a" and trans: "\<And>a b c. R a b \<Longrightarrow> R b c \<Longrightarrow> R a c"
    and mark: "\<And>nd a. R a (dispose nd a)"
    and det: "\<And>nd a. R a (upd_node nd (\<lambda>m. m\<lparr>n_parent := None\<rparr>) a)"
    and clr: "\<And>nd a. R a (upd_node nd (\<lambda>m. m\<lparr>n_onDispose := []\<rparr>) a)"
    and cb: "\<And>x a b. callback x a = Returned b \<Longrightarrow> R a b"
  shows "dispose_cascade fuel callback nd w = Returned w' \<Longrightarrow> R w w'"
proof (induction fuel arbitrary: nd w w')
  case 0
  then show ?case by simp
next
  case (Suc fuel)
  from Suc.prems obtain w1 w2 where
    l1: "forEach (\<lambda>_. child_nodes w nd) (dispose_cascade fuel callback) (dispose nd w) = Returned w1"
    and l2: "notifyObservers callback nd (upd_node nd (\<lambda>m. m\<lparr>n_parent := None\<rparr>) w1) = Returned w2"
    and w': "w' = upd_node nd (\<lambda>m. m\<lparr>n_onDispose := []\<rparr>) w2"
    by (auto simp: bind_Returned_iff)
  have "R (dispose nd w) w1"
    using refl trans Suc.IH l1 by (rule forEach_rel [where R = R])
  moreover have "R (upd_node nd (\<lambda>m. m\<lparr>n_parent := None\<rparr>) w1) w2"
    using refl trans cb l2 by (rule notifyObservers_rel [where R = R])
  ultimately show ?case
    unfolding w' using mark [of w nd] det [of w1 nd] clr [of w2 nd] by (blast intro: trans)
qed

lemma nucleus_unmount_rel:
  assumes refl: "\<And>a. R a a" and trans: "\<And>a b c. R a b \<Longrightarrow> R b c \<Longrightarrow> R a c"
    and ev: "\<And>x a. R a (emit x a)"
    and mark: "\<And>nd a. R a (dispose nd a)"
    and det: "\<And>nd a. R a (upd_node nd (\<lambda>m. m\<lparr>n_parent := None\<rparr>) a)"
    and clr: "\<And>nd a. R a (upd_node nd (\<lambda>m. m\<lparr>n_onDispose := []\<rparr>) a)"
    and self: "\<And>x cx nd nd' a0 a c. e_isMounted (w_entity a0 x) \<Longrightarrow> R a0 a \<Longrightarrow>
       e_context (w_entity a x) = Some cx \<Longrightarrow>
       e_node (w_entity a x) = Some nd \<Longrightarrow> R (nucleus_unwire cx nd x a) c \<Longrightarrow>
       e_node (w_entity c x) = Some nd' \<Longrightarrow>
       R a0 (nucleus_leave_parent x (nucleus_forget nd' x c))"
  shows "nucleus_unmount fuel e w = Returned w' \<Longrightarrow> R w w'"
proof (induction fuel arbitrary: e w w')
  case 0
  then show ?case by simp
next
  case (Suc fuel)
  let ?dsp = "dispose_cascade (Suc fuel) (nucleus_onDispose (nucleus_unmount fuel))"
  from Suc.prems obtain w1 where
    m: "e_isMounted (w_entity w e)"
    and l1: "forEach (\<lambda>v. e_children (w_entity v e))
                (\<lambda>child v. if e_isMounted (w_entity v child) then nucleus_unmount fuel child v
                            else Returned v)
                (emit (WillUnmount e) w) = Returned w1"
    and rest: "nucleus_unmount_self ?dsp e w1 = Returned w'"
    by (auto simp: bind_Returned_iff split: if_splits)
  have r1: "R (emit (WillUnmount e) w) w1"
    using refl trans _ l1
  proof (rule forEach_rel [where R = R])
    fix x v v'
    assume "(if e_isMounted (w_entity v x) then nucleus_unmount fuel x v else Returned v) = Returned v'"
    then show "R v v'" by (auto intro: refl Suc.IH split: if_splits)
  qed
  let ?a = "emit (CollectionUnmount e) w1"
  from rest obtain cx nd w5 nd' se where
    cx: "e_context (w_entity w1 e) = Some cx" and nd: "e_node (w_entity w1 e) = Some nd"
    and d: "if n_disposed (w_node w1 nd) then w5 = nucleus_unwire cx nd e ?a
            else ?dsp nd (nucleus_unwire cx nd e ?a) = Returned w5"
    and nd': "e_node (w_entity w5 e) = Some nd'"
    and w': "w' = emit (UnregisterEntity se e) (nucleus_leave_parent e (nucleus_forget nd' e w5))"
    unfolding nucleus_unmount_self_Returned by blast
  have cb: "R u v" if "nucleus_onDispose (nucleus_unmount fuel) x u = Returned v" for x u v
    using that by (auto simp: nucleus_onDispose_def intro: refl Suc.IH split: if_splits)
  have r2: "R (nucleus_unwire cx nd e ?a) w5"
  proof (cases "n_disposed (w_node w1 nd)")
    case True
    with d show ?thesis by (simp add: refl)
  next
    case False
    with d have "?dsp nd (nucleus_unwire cx nd e ?a) = Returned w5" by simp
    with refl trans mark det clr cb show ?thesis by (rule dispose_cascade_rel [where R = R])
  qed
  from ev [of w "WillUnmount e"] r1 ev [of w1 "CollectionUnmount e"] have r0: "R w ?a"
    by (blast intro: trans)
  from cx nd have "e_context (w_entity ?a e) = Some cx" and "e_node (w_entity ?a e) = Some nd"
    by (simp_all add: emit_def)
  from self [OF m r0 this r2 nd'] have "R w (nucleus_leave_parent e (nucleus_forget nd' e w5))" .
  then show ?case unfolding w' by (blast intro: trans ev)
qed

text \<open>The rule for a relation that every block respects by itself.\<close>

lemma nucleus_unmount_rel_blocks:
  assumes refl: "\<And>a. R a a" and trans: "\<And>a b c. R a b \<Longrightarrow> R b c \<Longrightarrow> R a c"
    and ev: "\<And>x a. R a (emit x a)"
    and mark: "\<And>nd a. R a (dispose nd a)"
    and det: "\<And>nd a. R a (upd_node nd (\<lambda>m. m\<lparr>n_parent := None\<rparr>) a)"
    and clr: "\<And>nd a. R a (upd_node nd (\<lambda>m. m\<lparr>n_onDispose := []\<rparr>) a)"
    and unw: "\<And>x cx nd a. R a (nucleus_unwire cx nd x a)"
    and fgt: "\<And>x nd a. R a (nucleus_leave_parent x (nucleus_forget nd x a))"
    and run: "nucleus_unmount fuel e w = Returned w'"
  shows "R w w'"
  using refl trans ev mark det clr _ run
proof (rule nucleus_unmount_rel [where R = R])
  fix x cx nd nd' a0 a c
  assume "R a0 a" and "R (nucleus_unwire cx nd x a) c"
  with unw [of a cx nd x] fgt [of c x nd']
  show "R a0 (nucleus_leave_parent x (nucleus_forget nd' x c))" by (blast intro: trans)
qed

lemma nucleus_mount_rel:
  assumes refl: "\<And>a. R a a" and trans: "\<And>a b c. R a b \<Longrightarrow> R b c \<Longrightarrow> R a c"
    and bgn: "\<And>c pn x a b. \<not> e_isMounted (w_entity a x) \<Longrightarrow> nucleus_mount_begin c pn x a = Returned b \<Longrightarrow> R a b"
    and cc: "\<And>x a. R a (upd_entity x (\<lambda>r. r\<lparr>e_childContext := VUndefined\<rparr>) a)"
    and fin: "\<And>c x a b. nucleus_mount_finish c x a = Returned b \<Longrightarrow> R a b"
  shows "nucleus_mount fuel ctx parentNode e w = Returned w' \<Longrightarrow> R w w'"
proof (induction fuel arbitrary: ctx parentNode e w w')
  case 0
  then show ?case by simp
next
  case (Suc fuel)
  from Suc.prems obtain w1 w2 where
    nm: "\<not> e_isMounted (w_entity w e)"
    and s1: "nucleus_mount_begin ctx parentNode e w = Returned w1"
    and s2: "nucleus_mount_children (nucleus_mount fuel) e w1 = Returned w2"
    and s3: "nucleus_mount_finish ctx e w2 = Returned w'"
    by (auto simp: bind_Returned_iff split: if_splits)
  have r2: "R w1 w2"
    using refl trans _ s2 [unfolded nucleus_mount_children_def]
  proof (rule forEach_rel [where R = R])
    fix x v v'
    assume "nucleus_mount fuel (e_context (w_entity v e)) None x
              (upd_entity x (\<lambda>r. r\<lparr>e_childContext := VUndefined\<rparr>) v) = Returned v'"
    from Suc.IH [OF this] cc [of v x] show "R v v'" by (blast intro: trans)
  qed
  from bgn [OF nm s1] r2 fin [OF s3] show ?case by (blast intro: trans)
qed

section \<open>bframe: unmount and the parent\<close>

lemma bframe_unmount_tail_Returned:
  "bframe_unmount_tail e w = Returned w' \<longleftrightarrow>
     (\<exists>cx nd p. e_context (w_entity w e) = Some cx \<and> e_node (w_entity w e) = Some nd \<and>
        e_parent (w_entity w e) = Some p \<and>
        w' = emit (OnChildrenUpdated p)
               (upd_entity e (\<lambda>r. r\<lparr>e_isMounted := False\<rparr>)
                  (upd_entity e (\<lambda>r. r\<lparr>e_node := None\<rparr>)
                     (dispose nd
                        (upd_entity e (\<lambda>r. r\<lparr>e_onBeforeRenderObserver := None\<rparr>)
                           (onBeforeRender_remove (ctx_scene (w_jscontext w cx))
                              (e_onBeforeRenderObserver (w_entity w e)) w))))))"
  by (auto simp: bframe_unmount_tail_def Let_def heap_defs split: option.splits)

lemma unmount_components_links:
  assumes "forEach (\<lambda>v. e_components (w_entity v e)) (\<lambda>c v. Returned (emit (ComponentUnmount c) v)) w = Returned w2"
  shows "same_links w w2"
  using same_links_refl assms
proof (rule forEach_preserves [where P = "same_links w", rotated])
  show "\<And>x v v'. same_links w v \<Longrightarrow> Returned (emit (ComponentUnmount x) v) = Returned v' \<Longrightarrow> same_links w v'"
    by (auto simp: same_links_def heap_defs)
qed

lemma bframe_unmount_self_links:
  assumes "bframe_unmount_self e w = Returned w'"
  shows "same_links w w'"
proof -
  from assms obtain w2 where
    l2: "forEach (\<lambda>v. e_components (w_entity v e)) (\<lambda>c v. Returned (emit (ComponentUnmount c) v)) w = Returned w2"
    and rest: "bframe_unmount_tail e w2 = Returned w'"
    by (auto simp: bframe_unmount_self_def bind_Returned_iff)
  from rest have "same_links w2 w'"
    by (auto simp: bframe_unmount_tail_Returned same_links_def heap_defs)
  with unmount_components_links [OF l2] show ?thesis by (blast intro: same_links_trans)
qed

lemma bframe_unmount_links:
  "bframe_unmount fuel e w = Returned w' \<Longrightarrow> same_links w w'"
proof (induction fuel arbitrary: e w w')
  case 0
  then show ?case by simp
next
  case (Suc fuel)
  from Suc.prems obtain w1 where
    l1: "forEach (\<lambda>v. e_children (w_entity v e)) (bframe_unmount fuel) (emit (WillUnmount e) w) = Returned w1"
    and rest: "bframe_unmount_self e w1 = Returned w'"
    by (auto simp: bind_Returned_iff)
  have "same_links w (emit (WillUnmount e) w)"
    by (simp add: same_links_def heap_defs)
  then have "same_links w w1"
    using l1
  proof (rule forEach_preserves [where P = "same_links w", rotated])
    show "\<And>x v v'. same_links w v \<Longrightarrow> bframe_unmount fuel x v = Returned v' \<Longrightarrow> same_links w v'"
      by (blast intro: same_links_trans Suc.IH)
  qed
  with bframe_unmount_self_links [OF rest] show ?case
    by (blast intro: same_links_trans)
qed

lemma bframe_unmount_self_needs_parent:
  assumes "bframe_unmount_self e w = Returned w'"
  shows "e_parent (w_entity w e) \<noteq> None"
proof -
  from assms obtain w2 where
    l2: "forEach (\<lambda>v. e_components (w_entity v e)) (\<lambda>c v. Returned (emit (ComponentUnmount c) v)) w = Returned w2"
    and rest: "bframe_unmount_tail e w2 = Returned w'"
    by (auto simp: bframe_unmount_self_def bind_Returned_iff)
  from rest have "e_parent (w_entity w2 e) \<noteq> None"
    by (auto simp: bframe_unmount_tail_Returned)
  with unmount_components_links [OF l2] show ?thesis by (simp add: same_links_def)
qed

lemma bframe_unmount_needs_parent:
  assumes "bframe_unmount fuel e w = Returned w'"
  shows "e_parent (w_entity w e) \<noteq> None"
proof -
  from assms obtain n where fuel: "fuel = Suc n" by (cases fuel) auto
  from assms fuel obtain w1 where
    l1: "forEach (\<lambda>v. e_children (w_entity v e)) (bframe_unmount n) (emit (WillUnmount e) w) = Returned w1"
    and rest: "bframe_unmount_self e w1 = Returned w'"
    by (auto simp: bind_Returned_iff)
  have "same_links w (emit (WillUnmount e) w)"
    by (simp add: same_links_def heap_defs)
  then have "same_links w w1"
    using l1
  proof (rule forEach_preserves [where P = "same_links w", rotated])
    show "\<And>x v v'. same_links w v \<Longrightarrow> bframe_unmount n x v = Returned v' \<Longrightarrow> same_links w v'"
      by (blast intro: same_links_trans bframe_unmount_links)
  qed
  with bframe_unmount_self_needs_parent [OF rest] show ?thesis
    by (simp add: same_links_def)
qed

lemma bframe_root_eval:
  "e_isMounted (w_entity bframe_root 0) \<and> e_parent (w_entity bframe_root 0) = None \<and>
   e_node (w_entity bframe_root 0) = Some 0 \<and> e_context (w_entity bframe_root 0) = Some 0 \<and>
   e_children (w_entity bframe_root 0) = [] \<and> e_components (w_entity bframe_root 0) = [] \<and>
   s_onBeforeRender (w_scene bframe_root 0) = [(0, 0)]"
  by (simp add: bframe_root_def bframe_Entity_def bframe_mount_begin_def bframe_mount_children_def
      bframe_mount_finish_def bframe_mount_wire_def run_defs heap_defs)

section \<open>Arrays\<close>

lemma indexOf_ge: "- 1 \<le> indexOf xs x"
  by (induction xs) (auto simp: Let_def)

lemma indexOf_absent: "indexOf xs x = - 1 \<longleftrightarrow> x \<notin> set xs"
proof (induction xs)
  case Nil
  then show ?case by simp
next
  case (Cons y ys)
  from indexOf_ge [of ys x] Cons show ?case by (auto simp: Let_def)
qed



section \<open>Components\<close>

lemma bframe_mountComponent_entities:
  "bframe_mountComponent e c w = Returned w' \<Longrightarrow> w_entity w' = w_entity w"
  by (auto simp: bframe_mountComponent_def heap_defs split: option.splits)

lemma bframe_two_instances_eval:
  "e_components (w_entity bframe_two_instances 0) = [0, 1] \<and>
   c_kind (w_component bframe_two_instances 0) = c_kind (w_component bframe_two_instances 1)"
  by (simp add: bframe_two_instances_def bframe_Entity_def bframe_addComponents_def run_defs heap_defs)

lemma nucleus_two_components_eval:
  "e_components (w_entity nucleus_two_components 0) = [0, 1] \<and>
   c_kind (w_component nucleus_two_components 0) = ''Component'' \<and>
   c_kind (w_component nucleus_two_components 2) = ''Component'' \<and>
   c_isEnabled (w_component nucleus_two_components 0) \<and>
   \<not> c_isEnabled (w_component nucleus_two_components 1) \<and>
   w_trace nucleus_two_components = [CollectionMountComponent 0 0, CollectionMountComponent 0 1]"
  by (simp add: nucleus_two_components_def nucleus_Entity_def nucleus_mountComponents_def
      collection_mountComponent_def run_defs heap_defs)

section \<open>nucleus: the properties after \<open>updateProps\<close>\<close>

lemma nucleus_notifyChildren_frame:
  "w_object (nucleus_notifyChildren e w) = w_object w \<and>
   e_props (w_entity (nucleus_notifyChildren e w) y) = e_props (w_entity w y)"
proof -
  have "w_object (fold (\<lambda>child v. emit (ParentUpdated child (e_isMounted (w_entity v e)))
                       (upd_entity child (\<lambda>r. r\<lparr>e_childContext := VUndefined\<rparr>) v)) cs w) = w_object w \<and>
        e_props (w_entity (fold (\<lambda>child v. emit (ParentUpdated child (e_isMounted (w_entity v e)))
                       (upd_entity child (\<lambda>r. r\<lparr>e_childContext := VUndefined\<rparr>) v)) cs w) y) = e_props (w_entity w y)" for cs
    by (induction cs arbitrary: w) (simp_all add: heap_defs)
  then show ?thesis by (simp add: nucleus_notifyChildren_def)
qed

lemma nucleus_updateProps_props:
  "e_props (w_entity (nucleus_updateProps e a w) e) = a + 2 * length (w_object w)"
  by (simp add: nucleus_updateProps_def cloneDeep_def Let_def Object_assign_def
      nucleus_notifyChildren_frame heap_defs mult_2 split: prod.splits)

lemma nucleus_updateProps_object:
  assumes "e_props (w_entity w e) < length (w_object w)" and "a < length (w_object w)"
  shows "object_at (nucleus_updateProps e a w) (a + 2 * length (w_object w)) =
     (map_option (shift_ref (2 * length (w_object w))) \<circ> object_at w a) ++
     object_at w (e_props (w_entity w e))"
  using assms
  by (simp add: nucleus_updateProps_def cloneDeep_def Let_def Object_assign_def object_at_def
      nucleus_notifyChildren_frame heap_defs nth_append mult_2 split: prod.splits)

lemma nucleus_with_props_eval:
  "length (w_object nucleus_with_props) = 3 \<and> e_props (w_entity nucleus_with_props 0) = 1 \<and>
   object_at nucleus_with_props 1 ''x'' = Some (VNum 1) \<and>
   object_at nucleus_with_props 1 ''y'' = None \<and>
   object_at nucleus_with_props 2 ''x'' = Some (VNum 5) \<and>
   object_at nucleus_with_props 2 ''y'' = Some (VNum 7)"
  by (simp add: nucleus_with_props_def nucleus_Entity_def cloneDeep_def shift_ref_def run_defs)

section \<open>The example heaps, evaluated\<close>

lemmas bframe_defs = bframe_Entity_def bframe_mount_begin_def bframe_mount_children_def
  bframe_mount_finish_def bframe_mount_wire_def bframe_mountChild_def bframe_unmount_self_def
  bframe_unmount_tail_def bframe_mountComponent_def

lemmas nucleus_defs = nucleus_Entity_def nucleus_mount_begin_def nucleus_mount_children_def
  nucleus_mount_finish_def nucleus_mountChild_def nucleus_unmount_self_def nucleus_unwire_def
  nucleus_forget_def nucleus_leave_parent_def nucleus_onDispose_def notifyObservers_def child_nodes_def
  observable_remove_def


lemma bframe_family_unmount:
  "\<exists>w'. bframe_unmount (Suc 0) 1 bframe_family = Returned w' \<and> e_children (w_entity w' 0) = [1]"
  by (simp add: bframe_family_def bframe_root_def bframe_defs run_defs heap_defs)


lemma nucleus_family_unmount:
  "\<exists>w'. nucleus_unmount (Suc 0) 1 nucleus_family = Returned w' \<and> e_children (w_entity w' 0) = []"
  by (simp add: nucleus_family_def nucleus_root_def nucleus_defs run_defs heap_defs splice1_def)

section \<open>The claims\<close>

text \<open>
  C9. In the bframe entity \<open>unmount\<close> dereferences the parent without a test
  (\<open>this.parent.onChildrenUpdated()\<close>): for an entity without a parent \<open>unmount\<close> never
  returns, whatever the fuel; and when such an entity has a context and a node and neither
  children nor components, the call runs to its last statement and throws the
  \<open>TypeError\<close> there, the entity already unmounted and its node gone.
\<close>

theorem bframe_unmount_without_parent_throws:
  assumes "e_parent (w_entity w e) = None"
  shows "(\<forall>w'. bframe_unmount fuel e w \<noteq> Returned w') \<and>
         (e_context (w_entity w e) \<noteq> None \<and> e_node (w_entity w e) \<noteq> None \<and>
          e_children (w_entity w e) = [] \<and> e_components (w_entity w e) = [] \<longrightarrow>
            (\<exists>w'. bframe_unmount (Suc fuel) e w = Thrown TypeError w' \<and>
                  \<not> e_isMounted (w_entity w' e) \<and> e_node (w_entity w' e) = None))"
proof (intro conjI allI impI)
  fix w'
  from assms bframe_unmount_needs_parent [of fuel e w w']
  show "bframe_unmount fuel e w \<noteq> Returned w'" by blast
next
  assume "e_context (w_entity w e) \<noteq> None \<and> e_node (w_entity w e) \<noteq> None \<and>
          e_children (w_entity w e) = [] \<and> e_components (w_entity w e) = []"
  with assms show "\<exists>w'. bframe_unmount (Suc fuel) e w = Thrown TypeError w' \<and>
                  \<not> e_isMounted (w_entity w' e) \<and> e_node (w_entity w' e) = None"
    by (auto simp: bframe_unmount_self_def bframe_unmount_tail_def run_defs heap_defs)
qed

theorem bframe_unmount_without_parent_throws_witness:
  "e_parent (w_entity bframe_root 0) = None \<and> e_isMounted (w_entity bframe_root 0) \<and>
   (\<forall>w'. bframe_unmount (Suc 0) 0 bframe_root \<noteq> Returned w') \<and>
   (\<exists>w'. bframe_unmount (Suc 0) 0 bframe_root = Thrown TypeError w' \<and>
      \<not> e_isMounted (w_entity w' 0) \<and> e_node (w_entity w' 0) = None)"
proof -
  from bframe_root_eval have np: "e_parent (w_entity bframe_root 0) = None" by simp
  from bframe_unmount_without_parent_throws [OF np, of "Suc 0"]
  have a: "\<forall>w'. bframe_unmount (Suc 0) 0 bframe_root \<noteq> Returned w'" by blast
  from bframe_unmount_without_parent_throws [OF np, of 0] bframe_root_eval
  have b: "\<exists>w'. bframe_unmount (Suc 0) 0 bframe_root = Thrown TypeError w' \<and>
      \<not> e_isMounted (w_entity w' 0) \<and> e_node (w_entity w' 0) = None"
    by (simp del: bframe_unmount.simps)
  from np bframe_root_eval a b show ?thesis by blast
qed

text \<open>
  C10. In the nucleus entity \<open>updateProps\<close> stores \<open>Object.assign(cloneDeep(props), this.props)\<close>:
  the old properties win. Every key of the entity's current properties keeps its value, and a
  key that the current properties do not have gets the value of the copy of the argument (a
  primitive as it is, a reference as the reference to the copied object).
\<close>

theorem nucleus_updateProps_old_props_win:
  assumes "e_props (w_entity w e) < length (w_object w)" and "a < length (w_object w)"
  shows "(\<forall>k v. object_at w (e_props (w_entity w e)) k = Some v \<longrightarrow>
            object_at (nucleus_updateProps e a w)
              (e_props (w_entity (nucleus_updateProps e a w) e)) k = Some v) \<and>
         (\<forall>k. object_at w (e_props (w_entity w e)) k = None \<longrightarrow>
            object_at (nucleus_updateProps e a w)
              (e_props (w_entity (nucleus_updateProps e a w) e)) k =
              map_option (shift_ref (2 * length (w_object w))) (object_at w a k))"
  by (simp add: nucleus_updateProps_props nucleus_updateProps_object [OF assms] map_add_def)

theorem nucleus_updateProps_old_props_win_witness:
  "e_props (w_entity nucleus_with_props 0) < length (w_object nucleus_with_props) \<and>
   2 < length (w_object nucleus_with_props) \<and>
   object_at nucleus_with_props (e_props (w_entity nucleus_with_props 0)) ''x'' = Some (VNum 1) \<and>
   object_at nucleus_with_props 2 ''x'' = Some (VNum 5) \<and>
   object_at (nucleus_updateProps 0 2 nucleus_with_props)
     (e_props (w_entity (nucleus_updateProps 0 2 nucleus_with_props) 0)) ''x'' = Some (VNum 1) \<and>
   object_at nucleus_with_props (e_props (w_entity nucleus_with_props 0)) ''y'' = None \<and>
   object_at (nucleus_updateProps 0 2 nucleus_with_props)
     (e_props (w_entity (nucleus_updateProps 0 2 nucleus_with_props) 0)) ''y'' = Some (VNum 7)"
proof -
  from nucleus_with_props_eval
  have h1: "e_props (w_entity nucleus_with_props 0) < length (w_object nucleus_with_props)"
    and h2: "2 < length (w_object nucleus_with_props)" by simp_all
  from nucleus_updateProps_old_props_win [OF h1 h2] nucleus_with_props_eval show ?thesis
    by (simp add: shift_ref_def)
qed







text \<open>
  C7, as stated, fails for a disposed scene: the first \<open>getContextFor\<close> throws and neither a
  context nor a registrar is made.
\<close>

theorem getContextFor_disposed_scene:
  "getContextFor (MPScene 0) disposed_scene_world =
     Thrown (Error ''Scene has been disposed'') disposed_scene_world \<and>
   s_nucleus (w_scene disposed_scene_world 0) = None \<and> w_registrars disposed_scene_world = []"
  by (simp add: getContextFor_def initializeFor_def disposed_scene_world_def run_defs heap_defs)

text \<open>
  C7, amended. For a scene that is not disposed and has no context yet, \<open>getContextFor\<close>
  makes a context with one new registrar and stores it on the scene. Whenever a call for a
  scene returns, every later call for that scene, or for a node of that scene, returns the same
  context and changes nothing: no second registrar is made. For a disposed scene without a
  context the call throws and changes nothing.
\<close>

lemma getContextFor_fresh:
  assumes "\<not> s_isDisposed (w_scene w sc)" and "s_nucleus (w_scene w sc) = None"
  shows "getContextFor (MPScene sc) w =
     Returned (Some (w_jscontext_count w),
       upd_scene sc (\<lambda>s. s\<lparr>s_nucleus := Some (w_jscontext_count w)\<rparr>)
         (w\<lparr>w_jscontext := (w_jscontext w)(w_jscontext_count w :=
                \<lparr>ctx_engine = s_engine (w_scene w sc), ctx_scene = sc,
                 ctx_systemRegistrar = Some (length (w_registrars w)),
                 ctx_sceneEntity = None\<rparr>),
             w_jscontext_count := Suc (w_jscontext_count w),
             w_registrars := w_registrars w @ [sc]\<rparr>))"
  using assms by (simp add: getContextFor_def initializeFor_def bind_def Let_def)

lemma getContextFor_stored:
  assumes "getContextFor (MPScene sc) w = Returned (cx, w1)"
  shows "\<exists>c. cx = Some c \<and> s_nucleus (w_scene w1 sc) = Some c"
proof (cases "s_nucleus (w_scene w sc)")
  case None
  with assms show ?thesis
    by (cases "s_isDisposed (w_scene w sc)")
      (auto simp: getContextFor_def initializeFor_def bind_def Let_def upd_scene_def)
next
  case (Some c)
  with assms have "cx = Some c" and "w1 = w" by (auto simp: getContextFor_def)
  with Some show ?thesis by simp
qed

lemma getContextFor_known:
  assumes "s_nucleus (w_scene w sc) = Some c"
  shows "getContextFor (MPScene sc) w = Returned (Some c, w)"
    and "n_scene (w_node w nd) = sc \<Longrightarrow> getContextFor (MPTransformNode nd) w = Returned (Some c, w)"
  using assms by (simp_all add: getContextFor_def)

theorem getContextFor_once_per_scene:
  "(\<not> s_isDisposed (w_scene w sc) \<and> s_nucleus (w_scene w sc) = None \<longrightarrow>
      (\<exists>w1. getContextFor (MPScene sc) w = Returned (Some (w_jscontext_count w), w1) \<and>
            s_nucleus (w_scene w1 sc) = Some (w_jscontext_count w) \<and>
            ctx_systemRegistrar (w_jscontext w1 (w_jscontext_count w)) = Some (length (w_registrars w)) \<and>
            ctx_scene (w_jscontext w1 (w_jscontext_count w)) = sc \<and>
            w_registrars w1 = w_registrars w @ [sc])) \<and>
   (\<forall>cx w1. getContextFor (MPScene sc) w = Returned (cx, w1) \<longrightarrow>
      getContextFor (MPScene sc) w1 = Returned (cx, w1) \<and>
      (\<forall>nd. n_scene (w_node w1 nd) = sc \<longrightarrow> getContextFor (MPTransformNode nd) w1 = Returned (cx, w1))) \<and>
   (s_isDisposed (w_scene w sc) \<and> s_nucleus (w_scene w sc) = None \<longrightarrow>
      getContextFor (MPScene sc) w = Thrown (Error ''Scene has been disposed'') w)"
proof (intro conjI impI allI)
  assume "\<not> s_isDisposed (w_scene w sc) \<and> s_nucleus (w_scene w sc) = None"
  then have "\<not> s_isDisposed (w_scene w sc)" and "s_nucleus (w_scene w sc) = None" by simp_all
  from getContextFor_fresh [OF this]
  show "\<exists>w1. getContextFor (MPScene sc) w = Returned (Some (w_jscontext_count w), w1) \<and>
            s_nucleus (w_scene w1 sc) = Some (w_jscontext_count w) \<and>
            ctx_systemRegistrar (w_jscontext w1 (w_jscontext_count w)) = Some (length (w_registrars w)) \<and>
            ctx_scene (w_jscontext w1 (w_jscontext_count w)) = sc \<and>
            w_registrars w1 = w_registrars w @ [sc]"
    by (simp add: upd_scene_def)
next
  fix cx w1
  assume r: "getContextFor (MPScene sc) w = Returned (cx, w1)"
  from getContextFor_stored [OF r] getContextFor_known(1)
  show "getContextFor (MPScene sc) w1 = Returned (cx, w1)" by blast
next
  fix cx w1 nd
  assume r: "getContextFor (MPScene sc) w = Returned (cx, w1)" and n: "n_scene (w_node w1 nd) = sc"
  from getContextFor_stored [OF r] getContextFor_known(2) [OF _ n]
  show "getContextFor (MPTransformNode nd) w1 = Returned (cx, w1)" by blast
next
  assume "s_isDisposed (w_scene w sc) \<and> s_nucleus (w_scene w sc) = None"
  then show "getContextFor (MPScene sc) w = Thrown (Error ''Scene has been disposed'') w"
    by (simp add: getContextFor_def initializeFor_def bind_def)
qed

theorem getContextFor_once_per_scene_witness:
  "\<not> s_isDisposed (w_scene blank_world 0) \<and> s_nucleus (w_scene blank_world 0) = None \<and>
   (\<exists>w1. getContextFor (MPScene 0) blank_world = Returned (Some 1, w1) \<and>
      w_registrars w1 = [0] \<and> getContextFor (MPScene 0) w1 = Returned (Some 1, w1)) \<and>
   s_isDisposed (w_scene disposed_scene_world 0) \<and> s_nucleus (w_scene disposed_scene_world 0) = None \<and>
   getContextFor (MPScene 0) disposed_scene_world =
     Thrown (Error ''Scene has been disposed'') disposed_scene_world"
proof -
  have b: "\<not> s_isDisposed (w_scene blank_world 0) \<and> s_nucleus (w_scene blank_world 0) = None"
    and c: "w_jscontext_count blank_world = 1" and r: "w_registrars blank_world = []"
    by (simp_all add: blank_world_def)
  have d: "s_isDisposed (w_scene disposed_scene_world 0) \<and> s_nucleus (w_scene disposed_scene_world 0) = None"
    by (simp add: disposed_scene_world_def blank_world_def heap_defs)
  note t = getContextFor_once_per_scene [of blank_world 0]
  from t b obtain w1 where g: "getContextFor (MPScene 0) blank_world = Returned (Some (w_jscontext_count blank_world), w1)"
    and rg: "w_registrars w1 = w_registrars blank_world @ [0]" by blast
  from t g have "getContextFor (MPScene 0) w1 = Returned (Some (w_jscontext_count blank_world), w1)" by blast
  with g rg c r have e: "\<exists>w1. getContextFor (MPScene 0) blank_world = Returned (Some 1, w1) \<and>
      w_registrars w1 = [0] \<and> getContextFor (MPScene 0) w1 = Returned (Some 1, w1)" by auto
  from getContextFor_once_per_scene [of disposed_scene_world 0] d
  have "getContextFor (MPScene 0) disposed_scene_world =
     Thrown (Error ''Scene has been disposed'') disposed_scene_world" by blast
  with b d e show ?thesis by blast
qed

text \<open>
  C3, as stated, fails for the bframe entity: \<open>addComponents\<close> compares instances, and two
  instances of one kind are both attached.
\<close>

theorem bframe_two_components_of_one_kind:
  "e_components (w_entity bframe_two_instances 0) = [0, 1] \<and>
   c_kind (w_component bframe_two_instances 0) = c_kind (w_component bframe_two_instances 1)"
  by (rule bframe_two_instances_eval)

text \<open>A loop over an array that the body does not change.\<close>

lemma forEachFrom_shift:
  "forEachFrom k (Suc i) (\<lambda>_. c # cs) f = forEachFrom k i (\<lambda>_. cs) f"
proof (induction k arbitrary: i)
  case 0
  show ?case by (rule ext) simp
next
  case (Suc k)
  show ?case by (rule ext) (simp add: Suc.IH)
qed

lemma forEach_Nil: "forEach (\<lambda>_. []) f w = Returned w"
  by (simp add: forEach_def)

lemma forEach_Cons: "forEach (\<lambda>_. c # cs) f w = bind (f c w) (forEach (\<lambda>_. cs) f)"
proof -
  have "forEach (\<lambda>_. cs) f = forEachFrom (length cs) 0 (\<lambda>_. cs) f"
    by (rule ext) (simp add: forEach_def)
  then show ?thesis by (simp add: forEach_def forEachFrom_shift)
qed

lemma forEach_append:
  "forEach (\<lambda>_. xs @ ys) f w = bind (forEach (\<lambda>_. xs) f w) (forEach (\<lambda>_. ys) f)"
proof (induction xs arbitrary: w)
  case Nil
  show ?case by (simp add: forEach_Nil bind_def)
next
  case (Cons x xs)
  show ?case by (cases "f x w") (simp_all add: forEach_Cons bind_def Cons.IH)
qed

lemma nucleus_mountComponents_Cons:
  "nucleus_mountComponents e (c # cs) w =
     (if c_kind (w_component w c) \<in> set (kinds w e)
      then Thrown (Error ''An instance of this component is already mounted.'') w
      else nucleus_mountComponents e cs (collection_mountComponent e c w))"
proof -
  have "find (\<lambda>k. c_kind (w_component w k) = c_kind (w_component w c)) (e_components (w_entity w e)) \<noteq> None
      \<longleftrightarrow> c_kind (w_component w c) \<in> set (kinds w e)"
    unfolding kinds_def find_None_iff set_map image_iff by (metis (full_types))
  then show ?thesis
    by (simp add: nucleus_mountComponents_def forEach_Cons bind_def)
qed

lemma collection_mountComponent_fields:
  "e_components (w_entity (collection_mountComponent e c w) e) = e_components (w_entity w e) @ [c]"
  "w_component (collection_mountComponent e c w) = w_component w"
  "kinds (collection_mountComponent e c w) e = kinds w e @ [c_kind (w_component w c)]"
  by (simp_all add: collection_mountComponent_def kinds_def heap_defs)

lemma nucleus_mountComponents_Returned:
  "nucleus_mountComponents e cs w = Returned w' \<Longrightarrow>
     e_components (w_entity w' e) = e_components (w_entity w e) @ cs \<and> w_component w' = w_component w"
proof (induction cs arbitrary: w)
  case Nil
  then show ?case by (simp add: nucleus_mountComponents_def forEach_Nil)
next
  case (Cons c cs)
  from Cons.prems
  have "nucleus_mountComponents e cs (collection_mountComponent e c w) = Returned w'"
    by (simp add: nucleus_mountComponents_Cons split: if_splits)
  from Cons.IH [OF this] show ?case by (simp add: collection_mountComponent_fields)
qed

lemma nucleus_mountComponents_kinds:
  "distinct (kinds w e) \<Longrightarrow>
   nucleus_mountComponents e cs w = Returned w' \<or> nucleus_mountComponents e cs w = Thrown err w' \<Longrightarrow>
   distinct (kinds w' e)"
proof (induction cs arbitrary: w)
  case Nil
  then show ?case by (simp add: nucleus_mountComponents_def forEach_Nil)
next
  case (Cons c cs)
  show ?case
  proof (cases "c_kind (w_component w c) \<in> set (kinds w e)")
    case True
    with Cons.prems show ?thesis by (simp add: nucleus_mountComponents_Cons)
  next
    case False
    with Cons.prems(1) have "distinct (kinds (collection_mountComponent e c w) e)"
      by (simp add: collection_mountComponent_fields)
    moreover from False Cons.prems(2)
    have "nucleus_mountComponents e cs (collection_mountComponent e c w) = Returned w' \<or>
          nucleus_mountComponents e cs (collection_mountComponent e c w) = Thrown err w'"
      by (simp add: nucleus_mountComponents_Cons)
    ultimately show ?thesis by (rule Cons.IH)
  qed
qed

lemma nucleus_mountComponents_clash:
  assumes "nucleus_mountComponents e pre w = Returned w1"
    and "c_kind (w_component w1 c) \<in> set (kinds w1 e)"
  shows "nucleus_mountComponents e (pre @ c # post) w =
     Thrown (Error ''An instance of this component is already mounted.'') w1"
proof -
  have "nucleus_mountComponents e (pre @ c # post) w =
      bind (nucleus_mountComponents e pre w) (nucleus_mountComponents e (c # post))"
    unfolding nucleus_mountComponents_def by (rule forEach_append)
  with assms show ?thesis by (simp add: bind_def nucleus_mountComponents_Cons)
qed

text \<open>
  C3, amended. In the bframe entity the components have set semantics by instance: adding an
  instance that is attached already changes nothing, and no instance is ever attached twice.
  In the nucleus entity \<open>mountComponents\<close> walks the array and attaches one component after
  the other: a call that returns has attached them all, in order; a component whose
  constructor name is that of an attached component (one attached before the call, or
  earlier in the array) is rejected with an error, and then the components before it in the
  array stay attached. So when no two attached components have one constructor name before
  the call, none have after it, whether it returns or throws.
\<close>

theorem components_set_semantics:
  "(indexOf (e_components (w_entity w e)) c \<noteq> - 1 \<longrightarrow> bframe_addComponents e [c] w = Returned w) \<and>
   (distinct (e_components (w_entity w e)) \<and> bframe_addComponents e cs w = Returned w' \<longrightarrow>
      distinct (e_components (w_entity w' e))) \<and>
   (nucleus_mountComponents e cs w = Returned w' \<longrightarrow>
      e_components (w_entity w' e) = e_components (w_entity w e) @ cs) \<and>
   (nucleus_mountComponents e pre w = Returned w1 \<and>
    c_kind (w_component w1 c) \<in> set (kinds w1 e) \<longrightarrow>
      nucleus_mountComponents e (pre @ c # post) w =
        Thrown (Error ''An instance of this component is already mounted.'') w1) \<and>
   (distinct (kinds w e) \<and>
    (nucleus_mountComponents e cs w = Returned w' \<or> nucleus_mountComponents e cs w = Thrown err w') \<longrightarrow>
      distinct (kinds w' e))"
proof (intro conjI impI)
  assume "indexOf (e_components (w_entity w e)) c \<noteq> - 1"
  then show "bframe_addComponents e [c] w = Returned w"
    by (simp add: bframe_addComponents_def forEach_def bind_def)
next
  assume a: "distinct (e_components (w_entity w e)) \<and> bframe_addComponents e cs w = Returned w'"
  then have run: "forEach (\<lambda>_. cs)
       (\<lambda>c v. if indexOf (e_components (w_entity v e)) c = -1 then
                 (let v1 = upd_entity e (\<lambda>r. r\<lparr>e_components := e_components r @ [c]\<rparr>) v
                  in if e_isMounted (w_entity v1 e) then bframe_mountComponent e c v1 else Returned v1)
               else Returned v) w = Returned w'"
    by (simp add: bframe_addComponents_def)
  from a have "distinct (e_components (w_entity w e))" by simp
  then show "distinct (e_components (w_entity w' e))"
    using run
  proof (rule forEach_preserves [where P = "\<lambda>v. distinct (e_components (w_entity v e))", rotated])
    fix x v v'
    assume d: "distinct (e_components (w_entity v e))"
      and s: "(if indexOf (e_components (w_entity v e)) x = - 1
          then let v1 = upd_entity e (\<lambda>r. r\<lparr>e_components := e_components r @ [x]\<rparr>) v
               in if e_isMounted (w_entity v1 e) then bframe_mountComponent e x v1 else Returned v1
          else Returned v) = Returned v'"
    show "distinct (e_components (w_entity v' e))"
    proof (cases "indexOf (e_components (w_entity v e)) x = - 1")
      case True
      then have nx: "x \<notin> set (e_components (w_entity v e))" by (simp add: indexOf_absent)
      let ?v1 = "upd_entity e (\<lambda>r. r\<lparr>e_components := e_components r @ [x]\<rparr>) v"
      from True s have "w_entity v' = w_entity ?v1"
        by (auto simp: Let_def dest: bframe_mountComponent_entities split: if_splits)
      with d nx show ?thesis by (simp add: heap_defs)
    next
      case False
      with s d show ?thesis by simp
    qed
  qed
next
  assume "nucleus_mountComponents e cs w = Returned w'"
  from nucleus_mountComponents_Returned [OF this]
  show "e_components (w_entity w' e) = e_components (w_entity w e) @ cs" by simp
next
  assume "nucleus_mountComponents e pre w = Returned w1 \<and>
    c_kind (w_component w1 c) \<in> set (kinds w1 e)"
  then show "nucleus_mountComponents e (pre @ c # post) w =
        Thrown (Error ''An instance of this component is already mounted.'') w1"
    by (simp add: nucleus_mountComponents_clash)
next
  assume "distinct (kinds w e) \<and>
    (nucleus_mountComponents e cs w = Returned w' \<or> nucleus_mountComponents e cs w = Thrown err w')"
  then show "distinct (kinds w' e)"
    by (blast intro: nucleus_mountComponents_kinds)
qed

lemma nucleus_third_kind_eval:
  "kinds nucleus_third_kind 0 = [''Component'', ''Other''] \<and>
   e_components (w_entity nucleus_third_kind 0) = [0, 1] \<and>
   c_kind (w_component nucleus_third_kind 5) = ''Third'' \<and>
   c_kind (w_component nucleus_third_kind 2) = ''Component'' \<and>
   (\<exists>w1. nucleus_mountComponents 0 [5] nucleus_third_kind = Returned w1)"
  by (simp add: nucleus_third_kind_def nucleus_two_components_def nucleus_Entity_def
      nucleus_mountComponents_def collection_mountComponent_def kinds_def run_defs heap_defs)

theorem components_set_semantics_witness:
  "indexOf (e_components (w_entity bframe_two_instances 0)) 1 \<noteq> - 1 \<and>
   distinct (e_components (w_entity bframe_two_instances 0)) \<and>
   bframe_addComponents 0 [1] bframe_two_instances = Returned bframe_two_instances \<and>
   distinct (kinds nucleus_third_kind 0) \<and>
   (\<exists>w1. nucleus_mountComponents 0 [5] nucleus_third_kind = Returned w1 \<and>
      e_components (w_entity w1 0) = [0, 1, 5] \<and>
      kinds w1 0 = [''Component'', ''Other'', ''Third''] \<and>
      c_kind (w_component w1 2) \<in> set (kinds w1 0) \<and>
      nucleus_mountComponents 0 [5, 2, 7] nucleus_third_kind =
        Thrown (Error ''An instance of this component is already mounted.'') w1)"
proof -
  from bframe_two_instances_eval
  have i: "indexOf (e_components (w_entity bframe_two_instances 0)) 1 \<noteq> - 1"
    and d: "distinct (e_components (w_entity bframe_two_instances 0))" by simp_all
  from i components_set_semantics [of bframe_two_instances 0 1]
  have b: "bframe_addComponents 0 [1] bframe_two_instances = Returned bframe_two_instances" by blast
  from nucleus_third_kind_eval obtain w1 where
    r: "nucleus_mountComponents 0 [5] nucleus_third_kind = Returned w1" by blast
  from nucleus_third_kind_eval have dk: "distinct (kinds nucleus_third_kind 0)" by simp
  from r components_set_semantics [where w = nucleus_third_kind and e = 0 and cs = "[5]" and w' = w1]
  have c1: "e_components (w_entity w1 0) = [0, 1, 5]"
    using nucleus_third_kind_eval by simp
  from nucleus_mountComponents_Returned [OF r] nucleus_third_kind_eval c1
  have k1: "kinds w1 0 = [''Component'', ''Other'', ''Third'']"
    and k2: "c_kind (w_component w1 2) \<in> set (kinds w1 0)"
    by (simp_all add: kinds_def nucleus_third_kind_def nucleus_two_components_def nucleus_Entity_def
        nucleus_mountComponents_def collection_mountComponent_def run_defs heap_defs)
  from r k2 components_set_semantics [where w = nucleus_third_kind and e = 0 and pre = "[5]" and
      ?w1.0 = w1 and c = 2 and post = "[7]"]
  have t: "nucleus_mountComponents 0 [5, 2, 7] nucleus_third_kind =
        Thrown (Error ''An instance of this component is already mounted.'') w1" by simp
  from i d b dk r c1 k1 k2 t show ?thesis by blast
qed






lemma only_unmounts_refl: "only_unmounts w w"
  by (simp add: only_unmounts_def)

lemma only_unmounts_trans:
  assumes "only_unmounts a b" and "only_unmounts b c"
  shows "only_unmounts a c"
proof -
  note ab = assms(1) [unfolded only_unmounts_def] and bc = assms(2) [unfolded only_unmounts_def]
  have 1: "\<forall>nd. n_disposed (w_node a nd) \<longrightarrow> n_disposed (w_node c nd)"
    using ab [THEN conjunct1] bc [THEN conjunct1] by blast
  have 2: "e_node (w_entity c y) = e_node (w_entity a y) \<or> e_node (w_entity c y) = None" for y
    using ab [THEN conjunct2, THEN conjunct1, rule_format, of y]
      bc [THEN conjunct2, THEN conjunct1, rule_format, of y] by auto
  have 3: "(e_isMounted (w_entity c y) \<longrightarrow> e_isMounted (w_entity a y)) \<and>
      (e_onBeforeRenderObserver (w_entity a y) = None \<longrightarrow> e_onBeforeRenderObserver (w_entity c y) = None) \<and>
      e_context (w_entity c y) = e_context (w_entity a y) \<and>
      e_parent (w_entity c y) = e_parent (w_entity a y)" for y
    using ab [THEN conjunct2, THEN conjunct1, rule_format, of y]
      bc [THEN conjunct2, THEN conjunct1, rule_format, of y] by simp
  have 4: "w_jscontext c = w_jscontext a"
    using ab [THEN conjunct2, THEN conjunct2] bc [THEN conjunct2, THEN conjunct2] by simp
  show ?thesis unfolding only_unmounts_def
    by (intro conjI allI) (simp_all add: 1 [rule_format] 2 3 4)
qed

lemma only_unmounts_engine:
  "only_unmounts a (dispose nd a)"
  "only_unmounts a (upd_node nd (\<lambda>m. m\<lparr>n_parent := None\<rparr>) a)"
  "only_unmounts a (upd_node nd (\<lambda>m. m\<lparr>n_onDispose := []\<rparr>) a)"
  "only_unmounts a (emit ev a)"
  by (simp_all add: only_unmounts_def heap_defs)

lemma only_unmounts_blocks:
  "only_unmounts a (nucleus_unwire cx nd x a)"
  "only_unmounts a (nucleus_leave_parent x (nucleus_forget nd x a))"
  by (simp_all add: only_unmounts_def nucleus_unwire_fields nucleus_leave_parent_fields
      nucleus_forget_fields)

lemma nucleus_unmount_only_unmounts:
  "nucleus_unmount fuel e w = Returned w' \<Longrightarrow> only_unmounts w w'"
  by (rule nucleus_unmount_rel_blocks [where R = only_unmounts])
    (blast intro: only_unmounts_refl only_unmounts_trans only_unmounts_engine only_unmounts_blocks)+

lemma nucleus_onDispose_only_unmounts:
  "nucleus_onDispose (nucleus_unmount fuel) x a = Returned b \<Longrightarrow> only_unmounts a b"
  by (auto simp: nucleus_onDispose_def only_unmounts_refl nucleus_unmount_only_unmounts
      split: if_splits)

text \<open>The engine's disposal leaves the mesh disposed.\<close>

lemma dispose_cascade_disposed:
  assumes cb: "\<And>x a b. callback x a = Returned b \<Longrightarrow> only_unmounts a b"
    and run: "dispose_cascade fuel callback nd w = Returned w'"
  shows "n_disposed (w_node w' nd) \<and> only_unmounts w w'"
proof -
  from run obtain n where fuel: "fuel = Suc n" by (cases fuel) auto
  from run [unfolded fuel] obtain w1 w2 where
    l1: "forEach (\<lambda>_. child_nodes w nd) (dispose_cascade n callback) (dispose nd w) = Returned w1"
    and l2: "notifyObservers callback nd (upd_node nd (\<lambda>m. m\<lparr>n_parent := None\<rparr>) w1) = Returned w2"
    and w': "w' = upd_node nd (\<lambda>m. m\<lparr>n_onDispose := []\<rparr>) w2"
    by (auto simp: bind_Returned_iff)
  have inner: "\<And>m a b. dispose_cascade n callback m a = Returned b \<Longrightarrow> only_unmounts a b"
    using only_unmounts_refl only_unmounts_trans only_unmounts_engine(1,2,3) cb
    by (rule dispose_cascade_rel [where R = only_unmounts])
  have "only_unmounts (dispose nd w) w1"
    using only_unmounts_refl only_unmounts_trans inner l1
    by (rule forEach_rel [where R = only_unmounts])
  moreover have "only_unmounts (upd_node nd (\<lambda>m. m\<lparr>n_parent := None\<rparr>) w1) w2"
    using only_unmounts_refl only_unmounts_trans cb l2
    by (rule notifyObservers_rel [where R = only_unmounts])
  moreover have "n_disposed (w_node (dispose nd w) nd)" by (simp add: heap_defs)
  ultimately have "n_disposed (w_node w2 nd)"
    using only_unmounts_engine(2) [of w1 nd] unfolding only_unmounts_def by blast
  then have "n_disposed (w_node w' nd)" by (simp add: w' heap_defs)
  moreover have "only_unmounts w w'"
    using only_unmounts_refl only_unmounts_trans only_unmounts_engine(1,2,3) cb run
    by (rule dispose_cascade_rel [where R = only_unmounts])
  ultimately show ?thesis by simp
qed

text \<open>The entity itself, when the last blocks of \<open>unmount\<close> return.\<close>

lemma nucleus_unmount_self_gone:
  assumes cb: "\<And>x a b. callback x a = Returned b \<Longrightarrow> only_unmounts a b"
    and run: "nucleus_unmount_self (dispose_cascade fuel callback) e w = Returned w'"
  shows "e_node (w_entity w' e) = None \<and> \<not> e_isMounted (w_entity w' e) \<and>
         e_onBeforeRenderObserver (w_entity w' e) = None \<and>
         (\<exists>nd. e_node (w_entity w e) = Some nd \<and> n_disposed (w_node w' nd))"
proof -
  let ?a = "emit (CollectionUnmount e) w"
  from run obtain cx nd w5 nd' se where
    nd: "e_node (w_entity w e) = Some nd"
    and d: "if n_disposed (w_node w nd) then w5 = nucleus_unwire cx nd e ?a
            else dispose_cascade fuel callback nd (nucleus_unwire cx nd e ?a) = Returned w5"
    and w': "w' = emit (UnregisterEntity se e) (nucleus_leave_parent e (nucleus_forget nd' e w5))"
    unfolding nucleus_unmount_self_Returned by blast
  have o0: "e_onBeforeRenderObserver (w_entity (nucleus_unwire cx nd e ?a) e) = None"
    by (simp add: nucleus_unwire_fields)
  have d5: "n_disposed (w_node w5 nd) \<and> only_unmounts (nucleus_unwire cx nd e ?a) w5"
  proof (cases "n_disposed (w_node w nd)")
    case True
    with d show ?thesis by (simp add: nucleus_unwire_fields emit_def only_unmounts_refl)
  next
    case False
    with d have "dispose_cascade fuel callback nd (nucleus_unwire cx nd e ?a) = Returned w5" by simp
    with cb show ?thesis by (rule dispose_cascade_disposed)
  qed
  with o0 have o5: "e_onBeforeRenderObserver (w_entity w5 e) = None"
    unfolding only_unmounts_def by blast
  have "e_node (w_entity w' e) = None" and "\<not> e_isMounted (w_entity w' e)"
    and "n_disposed (w_node w' nd) = n_disposed (w_node w5 nd)"
    and "e_onBeforeRenderObserver (w_entity w' e) = e_onBeforeRenderObserver (w_entity w5 e)"
    by (simp_all add: w' nucleus_leave_parent_fields nucleus_forget_fields emit_def)
  with nd d5 o5 show ?thesis by simp
qed


text \<open>The entity itself, after the last block of unmount.\<close>

lemma bframe_unmount_tail_self:
  assumes "bframe_unmount_tail e w = Returned w'"
  shows "e_node (w_entity w' e) = None \<and> \<not> e_isMounted (w_entity w' e) \<and>
         e_onBeforeRenderObserver (w_entity w' e) = None \<and>
         (\<exists>nd. e_node (w_entity w e) = Some nd \<and> n_disposed (w_node w' nd))"
  using assms by (auto simp: bframe_unmount_tail_Returned heap_defs)



















lemma orphan_mountChild:
  "(\<exists>w'. bframe_mountChild (Suc 0) 0 1 bframe_with_orphan = Returned w') \<and>
   e_children (w_entity bframe_with_orphan 0) = [] \<and>
   (\<exists>w'. nucleus_mountChild (Suc 0) 0 1 nucleus_with_orphan = Returned w') \<and>
   e_children (w_entity nucleus_with_orphan 0) = []"
  by (simp add: bframe_with_orphan_def nucleus_with_orphan_def bframe_root_def nucleus_root_def
      bframe_defs nucleus_defs run_defs heap_defs)

lemma bframe_family_remount: "\<exists>w'. bframe_remount (Suc 0) 1 bframe_family = Returned w'"
  by (simp add: bframe_remount_def bframe_family_def bframe_root_def bframe_defs run_defs heap_defs)

lemma shift_ref_VRef: "shift_ref n v = VRef c \<longleftrightarrow> (\<exists>c0. v = VRef c0 \<and> c = c0 + n)"
  by (cases v) (auto simp: shift_ref_def)

lemma object_at_cloneDeep:
  "object_at (snd (cloneDeep a w)) b =
     (if b < length (w_object w) then object_at w b
      else if b < 2 * length (w_object w)
           then map_option (shift_ref (length (w_object w))) \<circ> object_at w (b - length (w_object w))
           else Map.empty)"
  by (auto simp: cloneDeep_def object_at_def Let_def nth_append)

lemma cloneDeep_result:
  "fst (cloneDeep a w) = a + length (w_object w)"
  "length (w_object (snd (cloneDeep a w))) = 2 * length (w_object w)"
  "w_entity (snd (cloneDeep a w)) = w_entity w"
  "w_entity_count (snd (cloneDeep a w)) = w_entity_count w"
  by (simp_all add: cloneDeep_def Let_def)

text \<open>The references held by the copies point into the copies.\<close>

lemma cloneDeep_refs:
  assumes "object_at (snd (cloneDeep a w)) b k = Some (VRef c)" and "length (w_object w) \<le> b"
  shows "length (w_object w) \<le> c"
  using assms by (auto simp: object_at_cloneDeep shift_ref_VRef split: if_splits)

lemma nucleus_Entity_props:
  "e_props (w_entity (snd (nucleus_Entity (Some a) k w)) (fst (nucleus_Entity (Some a) k w))) =
     a + length (w_object w)"
  "w_object (snd (nucleus_Entity (Some a) k w)) = w_object (snd (cloneDeep a w))"
  by (simp_all add: nucleus_Entity_def cloneDeep_def Let_def)

lemma object_at_cong: "w_object w = w_object v \<Longrightarrow> object_at w = object_at v"
  by (simp add: object_at_def fun_eq_iff)

lemma nucleus_Entity_fresh:
  assumes "reaches (snd (nucleus_Entity (Some a) k w)) (a + length (w_object w)) b"
  shows "length (w_object w) \<le> b"
  using assms
proof (induction rule: reaches.induct)
  case reaches_self
  show ?case by simp
next
  case (reaches_step b k c)
  from reaches_step.hyps(2) have "object_at (snd (cloneDeep a w)) b k = Some (VRef c)"
    by (simp add: object_at_cong [OF nucleus_Entity_props(2)])
  from this reaches_step.IH show ?case by (rule cloneDeep_refs)
qed

text \<open>The store after \<open>updateProps\<close>: two rounds of copies, and the assignment onto the second copy of the argument.\<close>

lemma nucleus_updateProps_store:
  "w_object (nucleus_updateProps e a w) =
     (w_object (snd (cloneDeep a (snd (cloneDeep (e_props (w_entity w e)) w)))))
       [a + 2 * length (w_object w) :=
          object_at (snd (cloneDeep a (snd (cloneDeep (e_props (w_entity w e)) w)))) (a + 2 * length (w_object w)) ++
          object_at (snd (cloneDeep a (snd (cloneDeep (e_props (w_entity w e)) w)))) (e_props (w_entity w e))]"
  by (simp add: nucleus_updateProps_def cloneDeep_def Let_def Object_assign_def object_at_def
      nucleus_notifyChildren_frame heap_defs mult_2 split: prod.splits)

lemma object_at_update:
  "object_at (v\<lparr>w_object := (w_object v)[p := ob]\<rparr>) b =
     (if b = p \<and> p < length (w_object v) then ob else object_at v b)"
  by (simp add: object_at_def)

lemma object_at_updateProps_other:
  assumes "b \<noteq> a + 2 * length (w_object w)"
  shows "object_at (nucleus_updateProps e a w) b =
     object_at (snd (cloneDeep a (snd (cloneDeep (e_props (w_entity w e)) w)))) b"
  using assms by (simp add: object_at_def nucleus_updateProps_store)

lemma nucleus_updateProps_old_untouched:
  assumes "b < length (w_object w)"
  shows "object_at (nucleus_updateProps e a w) b = object_at w b"
  using assms by (simp add: object_at_updateProps_other object_at_cloneDeep cloneDeep_result)

lemma nucleus_updateProps_refs:
  assumes step: "object_at (nucleus_updateProps e a w) b k = Some (VRef c)"
    and old: "e_props (w_entity w e) < length (w_object w)" and arg: "a < length (w_object w)"
    and new: "length (w_object w) \<le> b"
  shows "length (w_object w) \<le> c \<or> object_at w (e_props (w_entity w e)) k = Some (VRef c)"
proof (cases "b = a + 2 * length (w_object w)")
  case True
  with step nucleus_updateProps_object [OF old arg]
  have "((map_option (shift_ref (2 * length (w_object w))) \<circ> object_at w a) ++
     object_at w (e_props (w_entity w e))) k = Some (VRef c)" by simp
  then show ?thesis by (auto simp: map_add_def shift_ref_VRef split: option.splits)
next
  case False
  with step have "object_at (snd (cloneDeep a (snd (cloneDeep (e_props (w_entity w e)) w)))) b k = Some (VRef c)"
    by (simp add: object_at_updateProps_other)
  with new show ?thesis
    by (auto simp: object_at_cloneDeep cloneDeep_result shift_ref_VRef split: if_splits)
qed

lemma nucleus_updateProps_reaches:
  assumes r: "reaches (nucleus_updateProps e a w) (a + 2 * length (w_object w)) b"
    and old: "e_props (w_entity w e) < length (w_object w)" and arg: "a < length (w_object w)"
  shows "length (w_object w) \<le> b \<or> reaches w (e_props (w_entity w e)) b"
  using r
proof (induction rule: reaches.induct)
  case reaches_self
  show ?case by simp
next
  case (reaches_step b k c)
  show ?case
  proof (cases "length (w_object w) \<le> b")
    case True
    from nucleus_updateProps_refs [OF reaches_step.hyps(2) old arg True]
    show ?thesis by (auto intro: reaches.intros)
  next
    case False
    with reaches_step.IH have rb: "reaches w (e_props (w_entity w e)) b" by simp
    from False reaches_step.hyps(2) have "object_at w b k = Some (VRef c)"
      by (simp add: nucleus_updateProps_old_untouched)
    with rb show ?thesis by (auto intro: reaches.intros)
  qed
qed

text \<open>
  C2, as stated, fails for the bframe entity: its constructor stores the object it is given,
  and a later change of that object by the caller is a change of \<open>entity.props\<close>.
\<close>

theorem bframe_constructor_keeps_the_argument:
  "e_props (w_entity bframe_from_props 0) = 0 \<and>
   object_at bframe_from_props (e_props (w_entity bframe_from_props 0)) ''pos'' = Some (VRef 1) \<and>
   object_at (Object_assign 0 1 bframe_from_props) (e_props (w_entity bframe_from_props 0)) ''x'' =
     Some (VNum 1)"
  by (simp add: bframe_from_props_def nested_props_def bframe_Entity_def Object_assign_def run_defs)

text \<open>
  C2, amended. In the nucleus entity the properties given to the constructor and to
  \<open>updateProps\<close> are cloned before they are stored. After the constructor \<open>entity.props\<close> is
  a new object, not the argument; it has the argument's keys with copies of their values; no
  object that existed before is changed, and every object reachable from \<open>entity.props\<close> is
  new, so that nothing the caller does to the objects of the argument changes it. After
  \<open>updateProps\<close> \<open>entity.props\<close> is again a new object; no object that existed before is
  changed, and what is reachable from \<open>entity.props\<close> is new or was reachable from the
  entity's properties before the call.
\<close>

theorem nucleus_props_cloned:
  assumes "a < length (w_object w)"
  shows "(let e = fst (nucleus_Entity (Some a) k w); w' = snd (nucleus_Entity (Some a) k w);
              p = e_props (w_entity w' e)
          in p \<noteq> a \<and> length (w_object w) \<le> p \<and>
             (\<forall>key. object_at w' p key = map_option (shift_ref (length (w_object w))) (object_at w a key)) \<and>
             (\<forall>b. b < length (w_object w) \<longrightarrow> object_at w' b = object_at w b) \<and>
             (\<forall>b. reaches w' p b \<longrightarrow> length (w_object w) \<le> b)) \<and>
         (e_props (w_entity w e) < length (w_object w) \<longrightarrow>
           (let w' = nucleus_updateProps e a w; p = e_props (w_entity w' e)
            in p \<noteq> a \<and> length (w_object w) \<le> p \<and>
               (\<forall>b. b < length (w_object w) \<longrightarrow> object_at w' b = object_at w b) \<and>
               (\<forall>b. reaches w' p b \<longrightarrow>
                    length (w_object w) \<le> b \<or> reaches w (e_props (w_entity w e)) b)))"
proof (rule conjI)
  let ?w' = "snd (nucleus_Entity (Some a) k w)"
  have "object_at ?w' b = object_at (snd (cloneDeep a w)) b" for b
    by (simp add: object_at_cong [OF nucleus_Entity_props(2)])
  moreover from assms have "w_object w \<noteq> []" by auto
  ultimately show "let e = fst (nucleus_Entity (Some a) k w); w' = snd (nucleus_Entity (Some a) k w);
              p = e_props (w_entity w' e)
          in p \<noteq> a \<and> length (w_object w) \<le> p \<and>
             (\<forall>key. object_at w' p key = map_option (shift_ref (length (w_object w))) (object_at w a key)) \<and>
             (\<forall>b. b < length (w_object w) \<longrightarrow> object_at w' b = object_at w b) \<and>
             (\<forall>b. reaches w' p b \<longrightarrow> length (w_object w) \<le> b)"
    using assms nucleus_Entity_fresh [of a k w]
    by (simp add: Let_def nucleus_Entity_props(1) object_at_cloneDeep)
next
  show "e_props (w_entity w e) < length (w_object w) \<longrightarrow>
           (let w' = nucleus_updateProps e a w; p = e_props (w_entity w' e)
            in p \<noteq> a \<and> length (w_object w) \<le> p \<and>
               (\<forall>b. b < length (w_object w) \<longrightarrow> object_at w' b = object_at w b) \<and>
               (\<forall>b. reaches w' p b \<longrightarrow>
                    length (w_object w) \<le> b \<or> reaches w (e_props (w_entity w e)) b))"
    using assms nucleus_updateProps_reaches [of e a w]
    by (auto simp: Let_def nucleus_updateProps_props nucleus_updateProps_old_untouched)
qed

lemma nucleus_from_props_eval:
  "length (w_object nested_props) = 2 \<and> e_props (w_entity nucleus_from_props 0) = 2 \<and>
   fst (nucleus_Entity (Some 0) None nested_props) = 0 \<and>
   length (w_object nucleus_from_props) = 4"
  by (simp add: nucleus_from_props_def nested_props_def nucleus_Entity_def cloneDeep_def run_defs)

theorem nucleus_props_cloned_witness:
  "0 < length (w_object nested_props) \<and>
   e_props (w_entity nucleus_from_props 0) = 2 \<and>
   object_at nucleus_from_props 2 ''pos'' = Some (VRef 3) \<and>
   \<not> reaches nucleus_from_props 2 0 \<and> \<not> reaches nucleus_from_props 2 1 \<and>
   1 < length (w_object nucleus_from_props) \<and>
   e_props (w_entity nucleus_from_props 0) < length (w_object nucleus_from_props) \<and>
   e_props (w_entity (nucleus_updateProps 0 1 nucleus_from_props) 0) = 9 \<and>
   \<not> reaches (nucleus_updateProps 0 1 nucleus_from_props) 9 1"
proof -
  have a0: "0 < length (w_object nested_props)" and a1: "1 < length (w_object nucleus_from_props)"
    and old: "e_props (w_entity nucleus_from_props 0) < length (w_object nucleus_from_props)"
    using nucleus_from_props_eval by simp_all
  have pos: "object_at nested_props 0 ''pos'' = Some (VRef 1)"
    by (simp add: nested_props_def run_defs)
  from nucleus_props_cloned [OF a0, of None] nucleus_from_props_eval pos
  have c: "object_at nucleus_from_props 2 ''pos'' = Some (VRef 3) \<and>
     (\<forall>b. reaches nucleus_from_props 2 b \<longrightarrow> 2 \<le> b)"
    by (simp add: Let_def nucleus_from_props_def shift_ref_def)
  then have n: "\<not> reaches nucleus_from_props 2 0 \<and> \<not> reaches nucleus_from_props 2 1" by auto
  from nucleus_props_cloned [OF a1, of _ 0] old nucleus_from_props_eval
  have u: "e_props (w_entity (nucleus_updateProps 0 1 nucleus_from_props) 0) = 9 \<and>
     (\<forall>b. reaches (nucleus_updateProps 0 1 nucleus_from_props) 9 b \<longrightarrow>
        4 \<le> b \<or> reaches nucleus_from_props 2 b)"
    by (simp add: Let_def nucleus_updateProps_props)
  with n have "\<not> reaches (nucleus_updateProps 0 1 nucleus_from_props) 9 1" by auto
  with a0 a1 old c n u nucleus_from_props_eval show ?thesis by simp
qed



section \<open>bframe: the blocks of \<open>_mount\<close>\<close>

lemma set_to_parent_frame:
  "w_entity (set_to_parent nd pn e w) = w_entity w"
  "w_scene (set_to_parent nd pn e w) = w_scene w"
  "w_jscontext (set_to_parent nd pn e w) = w_jscontext w"
  "w_observer_count (set_to_parent nd pn e w) = w_observer_count w"
  by (simp_all add: set_to_parent_def heap_defs split: option.splits)

lemma bframe_mount_begin_fields:
  assumes "bframe_mount_begin ctx e w = Returned w1"
  shows "ctx \<noteq> None"
    and "e_context (w_entity w1 z) = (if z = e then ctx else e_context (w_entity w z))"
    and "e_isMounted (w_entity w1 z) = e_isMounted (w_entity w z)"
    and "e_onBeforeRenderObserver (w_entity w1 z) = e_onBeforeRenderObserver (w_entity w z)"
    and "w_scene w1 = w_scene w" and "w_jscontext w1 = w_jscontext w"
    and "w_observer_count w1 = w_observer_count w"
  using assms
  by (auto simp: bframe_mount_begin_def onMount_def bind_Returned_iff heap_defs Let_def
      split: option.splits if_splits)

lemma bframe_mount_wire_fields:
  assumes "bframe_mount_wire e w = Returned w1"
  shows "e_context (w_entity w1 z) = e_context (w_entity w z)"
    and "e_isMounted (w_entity w1 z) = (z = e \<or> e_isMounted (w_entity w z))"
    and "e_context (w_entity w e) \<noteq> None"
    and "w_jscontext w1 = w_jscontext w"
  using assms
  by (auto simp: bframe_mount_wire_def heap_defs Let_def split: option.splits if_splits)

lemma mount_components_entities:
  assumes "forEach (\<lambda>v. e_components (w_entity v e)) (bframe_mountComponent e) w = Returned w'"
  shows "w_entity w' = w_entity w"
  using _ assms
proof (rule forEach_preserves [where P = "\<lambda>v. w_entity v = w_entity w", rotated])
  show "\<And>x v v'. w_entity v = w_entity w \<Longrightarrow> bframe_mountComponent e x v = Returned v' \<Longrightarrow>
      w_entity v' = w_entity w"
    by (auto dest: bframe_mountComponent_entities)
qed simp

lemma bframe_mount_finish_fields:
  assumes "bframe_mount_finish e w = Returned w'"
  shows "e_context (w_entity w' z) = e_context (w_entity w z)"
    and "e_isMounted (w_entity w' z) = (z = e \<or> e_isMounted (w_entity w z))"
    and "e_context (w_entity w e) \<noteq> None"
proof -
  from assms obtain w1 where a: "bframe_mount_wire e w = Returned w1"
    and b: "forEach (\<lambda>v. e_components (w_entity v e)) (bframe_mountComponent e) w1 = Returned w'"
    by (auto simp: bframe_mount_finish_def bind_Returned_iff)
  from mount_components_entities [OF b] bframe_mount_wire_fields [OF a]
  show "e_context (w_entity w' z) = e_context (w_entity w z)"
    and "e_isMounted (w_entity w' z) = (z = e \<or> e_isMounted (w_entity w z))"
    and "e_context (w_entity w e) \<noteq> None"
    by simp_all
qed

text \<open>The parts of a call of \<open>_mount\<close> that returns.\<close>

lemma bframe_mount_Suc_Returned:
  assumes "bframe_mount (Suc fuel) ctx pn e w = Returned w'"
  obtains w1 nd w3 where
    "if e_isMounted (w_entity w e) then w1 = w else bframe_mount_begin ctx e w = Returned w1"
    and "e_node (w_entity w1 e) = Some nd"
    and "bframe_mount_children (bframe_mount fuel) e (set_to_parent nd pn e w1) = Returned w3"
    and "if e_isMounted (w_entity w3 e) then w' = w3 else bframe_mount_finish e w3 = Returned w'"
  using assms by (auto simp: bind_Returned_iff split: option.splits if_splits)

lemma bframe_mount_mounted:
  assumes "bframe_mount fuel ctx pn e w = Returned w'"
  shows "e_isMounted (w_entity w' e)"
proof -
  from assms obtain n where fuel: "fuel = Suc n" by (cases fuel) auto
  from assms [unfolded fuel] obtain w1 nd w3 where
    "if e_isMounted (w_entity w e) then w1 = w else bframe_mount_begin ctx e w = Returned w1"
    and "e_node (w_entity w1 e) = Some nd"
    and "bframe_mount_children (bframe_mount n) e (set_to_parent nd pn e w1) = Returned w3"
    and "if e_isMounted (w_entity w3 e) then w' = w3 else bframe_mount_finish e w3 = Returned w'"
    by (rule bframe_mount_Suc_Returned)
  then show ?thesis
    by (cases "e_isMounted (w_entity w3 e)") (auto simp: bframe_mount_finish_fields)
qed

lemma stay_mounted_refl: "stay_mounted w w"
  by (simp add: stay_mounted_def)

lemma stay_mounted_trans: "stay_mounted a b \<Longrightarrow> stay_mounted b c \<Longrightarrow> stay_mounted a c"
  by (simp add: stay_mounted_def)


section \<open>bframe: the context that \<open>_mount\<close> hands down\<close>



















lemma bframe_with_orphan_eval:
  "(\<forall>z. e_isMounted (w_entity bframe_with_orphan z) \<longrightarrow> e_context (w_entity bframe_with_orphan z) = Some 0) \<and>
   e_isMounted (w_entity bframe_with_orphan 0)"
  by (simp add: bframe_with_orphan_def bframe_root_def bframe_defs run_defs heap_defs)

lemma bframe_two_parents_eval:
  "(\<forall>z. \<not> e_isMounted (w_entity bframe_two_parents z)) \<and>
   (\<exists>w'. bframe_mount (Suc (Suc 0)) (Some 0) None 0 bframe_two_parents = Returned w' \<and>
      e_children (w_entity w' 0) = [2])"
  by (simp add: bframe_two_parents_def bframe_defs run_defs heap_defs)






section \<open>The render observers\<close>

lemma same_wiring_wired:
  assumes "same_wiring w w'" and "render_wired X w"
  shows "render_wired X w'"
proof -
  from assms(1) have m: "\<And>z. e_isMounted (w_entity w' z) = e_isMounted (w_entity w z)"
    and ob: "\<And>z. e_onBeforeRenderObserver (w_entity w' z) = e_onBeforeRenderObserver (w_entity w z)"
    and sc: "\<And>z. scene_of w' z = scene_of w z"
    and rg: "\<And>sc. registered w' sc = registered w sc"
    and cn: "w_observer_count w \<le> w_observer_count w'"
    by (simp_all add: same_wiring_def)
  from assms(2) have "\<forall>sc ob e. (ob, e) \<in> registered w sc \<longrightarrow> ob < w_observer_count w"
    by (simp add: render_wired_def)
  with cn have "\<forall>sc ob e. (ob, e) \<in> registered w sc \<longrightarrow> ob < w_observer_count w'"
    by (meson less_le_trans)
  with assms(2) show ?thesis
    unfolding render_wired_def m ob sc rg by simp
qed

lemma render_wiredI:
  assumes "\<And>z. e_isMounted (w_entity w z) \<Longrightarrow> z \<notin> X \<Longrightarrow>
        \<exists>ob sc. e_onBeforeRenderObserver (w_entity w z) = Some ob \<and> scene_of w z = Some sc \<and>
           (ob, z) \<in> registered w sc"
    and "\<And>sc ob z. (ob, z) \<in> registered w sc \<Longrightarrow>
        e_isMounted (w_entity w z) \<and> z \<notin> X \<and> e_onBeforeRenderObserver (w_entity w z) = Some ob \<and>
        scene_of w z = Some sc \<and> ob < w_observer_count w"
    and "\<And>z. \<not> e_isMounted (w_entity w z) \<Longrightarrow> e_onBeforeRenderObserver (w_entity w z) = None"
    and "\<And>z. z \<in> X \<Longrightarrow> e_isMounted (w_entity w z)"
    and "\<And>sc sc' ob z z'. (ob, z) \<in> registered w sc \<Longrightarrow> (ob, z') \<in> registered w sc' \<Longrightarrow> z = z'"
  shows "render_wired X w"
proof -
  have 1: "\<forall>e. e_isMounted (w_entity w e) \<and> e \<notin> X \<longrightarrow>
        (\<exists>ob sc. e_onBeforeRenderObserver (w_entity w e) = Some ob \<and> scene_of w e = Some sc \<and>
           (ob, e) \<in> registered w sc)"
    using assms(1) by blast
  have 2: "\<forall>sc ob e. (ob, e) \<in> registered w sc \<longrightarrow>
        e_isMounted (w_entity w e) \<and> e \<notin> X \<and> e_onBeforeRenderObserver (w_entity w e) = Some ob \<and>
        scene_of w e = Some sc \<and> ob < w_observer_count w"
    using assms(2) by blast
  have 3: "\<forall>e. \<not> e_isMounted (w_entity w e) \<longrightarrow> e_onBeforeRenderObserver (w_entity w e) = None"
    using assms(3) by blast
  have 4: "\<forall>e. e \<in> X \<longrightarrow> e_isMounted (w_entity w e)"
    using assms(4) by blast
  have 5: "\<forall>sc sc' ob e e'. (ob, e) \<in> registered w sc \<and> (ob, e') \<in> registered w sc' \<longrightarrow> e = e'"
    using assms(5) by blast
  show ?thesis unfolding render_wired_def
    by (rule conjI [OF 1 conjI [OF 2 conjI [OF 3 conjI [OF 4 5]]]])
qed

lemma render_wiredD:
  assumes "render_wired X w"
  shows "e_isMounted (w_entity w z) \<Longrightarrow> z \<notin> X \<Longrightarrow>
        \<exists>ob sc. e_onBeforeRenderObserver (w_entity w z) = Some ob \<and> scene_of w z = Some sc \<and>
           (ob, z) \<in> registered w sc"
    and "(ob, z) \<in> registered w sc \<Longrightarrow>
        e_isMounted (w_entity w z) \<and> z \<notin> X \<and> e_onBeforeRenderObserver (w_entity w z) = Some ob \<and>
        scene_of w z = Some sc \<and> ob < w_observer_count w"
    and "\<not> e_isMounted (w_entity w z) \<Longrightarrow> e_onBeforeRenderObserver (w_entity w z) = None"
    and "z \<in> X \<Longrightarrow> e_isMounted (w_entity w z)"
    and "(ob, z) \<in> registered w sc \<Longrightarrow> (ob, z') \<in> registered w sc' \<Longrightarrow> z = z'"
proof -
  note r = assms [unfolded render_wired_def]
  note 1 = r [THEN conjunct1]
  note 2 = r [THEN conjunct2, THEN conjunct1]
  note 3 = r [THEN conjunct2, THEN conjunct2, THEN conjunct1]
  note 4 = r [THEN conjunct2, THEN conjunct2, THEN conjunct2, THEN conjunct1]
  note 5 = r [THEN conjunct2, THEN conjunct2, THEN conjunct2, THEN conjunct2]
  from 1 show "e_isMounted (w_entity w z) \<Longrightarrow> z \<notin> X \<Longrightarrow>
        \<exists>ob sc. e_onBeforeRenderObserver (w_entity w z) = Some ob \<and> scene_of w z = Some sc \<and>
           (ob, z) \<in> registered w sc" by blast
  from 2 show "(ob, z) \<in> registered w sc \<Longrightarrow>
        e_isMounted (w_entity w z) \<and> z \<notin> X \<and> e_onBeforeRenderObserver (w_entity w z) = Some ob \<and>
        scene_of w z = Some sc \<and> ob < w_observer_count w" by blast
  from 3 show "\<not> e_isMounted (w_entity w z) \<Longrightarrow> e_onBeforeRenderObserver (w_entity w z) = None"
    by blast
  from 4 show "z \<in> X \<Longrightarrow> e_isMounted (w_entity w z)" by blast
  from 5 show "(ob, z) \<in> registered w sc \<Longrightarrow> (ob, z') \<in> registered w sc' \<Longrightarrow> z = z'" by blast
qed

text \<open>Registering a new observer for an entity that has none.\<close>

lemma wired_after_add:
  assumes w: "render_wired (insert e X) w" and nx: "e \<notin> X"
    and flag: "\<And>z. e_isMounted (w_entity w' z) = (z = e \<or> e_isMounted (w_entity w z))"
    and obs: "\<And>z. e_onBeforeRenderObserver (w_entity w' z) =
                (if z = e then Some (w_observer_count w) else e_onBeforeRenderObserver (w_entity w z))"
    and scn: "\<And>z. scene_of w' z = scene_of w z" and sce: "scene_of w e = Some s"
    and reg: "\<And>sc. registered w' sc =
                (if sc = s then insert (w_observer_count w, e) (registered w sc) else registered w sc)"
    and cnt: "w_observer_count w < w_observer_count w'"
  shows "render_wired X w'"
proof (rule render_wiredI)
  fix z
  assume m: "e_isMounted (w_entity w' z)" and x: "z \<notin> X"
  show "\<exists>ob sc. e_onBeforeRenderObserver (w_entity w' z) = Some ob \<and> scene_of w' z = Some sc \<and>
           (ob, z) \<in> registered w' sc"
  proof (cases "z = e")
    case True
    then show ?thesis by (simp add: obs scn sce reg)
  next
    case False
    with m have "e_isMounted (w_entity w z)" by (simp add: flag)
    from render_wiredD(1) [OF w this] False x
    obtain ob sc where "e_onBeforeRenderObserver (w_entity w z) = Some ob"
      and "scene_of w z = Some sc" and "(ob, z) \<in> registered w sc" by auto
    with False show ?thesis by (auto simp: obs scn reg)
  qed
next
  fix sc ob z
  assume r: "(ob, z) \<in> registered w' sc"
  show "e_isMounted (w_entity w' z) \<and> z \<notin> X \<and> e_onBeforeRenderObserver (w_entity w' z) = Some ob \<and>
        scene_of w' z = Some sc \<and> ob < w_observer_count w'"
  proof (cases "(ob, z) \<in> registered w sc")
    case True
    from render_wiredD(2) [OF w this] cnt show ?thesis by (auto simp: flag obs scn)
  next
    case False
    with r have "sc = s \<and> ob = w_observer_count w \<and> z = e"
      by (auto simp: reg split: if_splits)
    with nx sce cnt show ?thesis by (simp add: flag obs scn)
  qed
next
  fix z
  assume "\<not> e_isMounted (w_entity w' z)"
  then have "z \<noteq> e" and "\<not> e_isMounted (w_entity w z)" by (auto simp: flag)
  with render_wiredD(3) [OF w] show "e_onBeforeRenderObserver (w_entity w' z) = None"
    by (simp add: obs)
next
  fix z
  assume "z \<in> X"
  with render_wiredD(4) [OF w, of z] show "e_isMounted (w_entity w' z)" by (simp add: flag)
next
  fix sc sc' ob z z'
  assume a: "(ob, z) \<in> registered w' sc" and b: "(ob, z') \<in> registered w' sc'"
  from a have 1: "(ob, z) \<in> registered w sc \<or> (ob = w_observer_count w \<and> z = e)"
    by (auto simp: reg split: if_splits)
  from b have 2: "(ob, z') \<in> registered w sc' \<or> (ob = w_observer_count w \<and> z' = e)"
    by (auto simp: reg split: if_splits)
  show "z = z'"
  proof (cases "ob = w_observer_count w")
    case True
    with 1 render_wiredD(2) [OF w, of ob z sc] have "z = e" by auto
    moreover from True 2 render_wiredD(2) [OF w, of ob z' sc'] have "z' = e" by auto
    ultimately show ?thesis by simp
  next
    case False
    with 1 2 render_wiredD(5) [OF w, of ob z sc z' sc'] show ?thesis by auto
  qed
qed

text \<open>An entity that is not mounted may change its context, and may be flagged as mounted.\<close>

lemma wired_unmounted_change:
  assumes w: "render_wired X w" and nm: "\<not> e_isMounted (w_entity w e)"
    and flag: "\<And>z. e_isMounted (w_entity w' z) = e_isMounted (w_entity w z)"
    and obs: "\<And>z. e_onBeforeRenderObserver (w_entity w' z) = e_onBeforeRenderObserver (w_entity w z)"
    and scn: "\<And>z. z \<noteq> e \<Longrightarrow> scene_of w' z = scene_of w z"
    and reg: "\<And>sc. registered w' sc = registered w sc"
    and cnt: "w_observer_count w \<le> w_observer_count w'"
  shows "render_wired X w'"
proof (rule render_wiredI)
  fix z
  assume m: "e_isMounted (w_entity w' z)" and x: "z \<notin> X"
  with nm have "z \<noteq> e" by (auto simp: flag)
  with render_wiredD(1) [OF w, of z] m x
  show "\<exists>ob sc. e_onBeforeRenderObserver (w_entity w' z) = Some ob \<and> scene_of w' z = Some sc \<and>
           (ob, z) \<in> registered w' sc"
    by (simp add: flag obs scn reg)
next
  fix sc ob z
  assume "(ob, z) \<in> registered w' sc"
  then have r: "(ob, z) \<in> registered w sc" by (simp add: reg)
  from render_wiredD(2) [OF w r] nm have "z \<noteq> e" by auto
  with render_wiredD(2) [OF w r] cnt
  show "e_isMounted (w_entity w' z) \<and> z \<notin> X \<and> e_onBeforeRenderObserver (w_entity w' z) = Some ob \<and>
        scene_of w' z = Some sc \<and> ob < w_observer_count w'"
    by (simp add: flag obs scn)
next
  fix z
  assume "\<not> e_isMounted (w_entity w' z)"
  with render_wiredD(3) [OF w, of z] show "e_onBeforeRenderObserver (w_entity w' z) = None"
    by (simp add: flag obs)
next
  fix z
  assume "z \<in> X"
  with render_wiredD(4) [OF w, of z] show "e_isMounted (w_entity w' z)" by (simp add: flag)
next
  fix sc sc' ob z z'
  assume "(ob, z) \<in> registered w' sc" and "(ob, z') \<in> registered w' sc'"
  with render_wiredD(5) [OF w, of ob z sc z' sc'] show "z = z'" by (simp add: reg)
qed

lemma wired_flagged:
  assumes w: "render_wired X w" and nm: "\<not> e_isMounted (w_entity w e)"
    and flag: "\<And>z. e_isMounted (w_entity w' z) = (z = e \<or> e_isMounted (w_entity w z))"
    and obs: "\<And>z. e_onBeforeRenderObserver (w_entity w' z) = e_onBeforeRenderObserver (w_entity w z)"
    and scn: "\<And>z. z \<noteq> e \<Longrightarrow> scene_of w' z = scene_of w z"
    and reg: "\<And>sc. registered w' sc = registered w sc"
    and cnt: "w_observer_count w \<le> w_observer_count w'"
  shows "render_wired (insert e X) w'"
proof (rule render_wiredI)
  fix z
  assume m: "e_isMounted (w_entity w' z)" and x: "z \<notin> insert e X"
  with render_wiredD(1) [OF w, of z]
  show "\<exists>ob sc. e_onBeforeRenderObserver (w_entity w' z) = Some ob \<and> scene_of w' z = Some sc \<and>
           (ob, z) \<in> registered w' sc"
    by (simp add: flag obs scn reg)
next
  fix sc ob z
  assume "(ob, z) \<in> registered w' sc"
  then have r: "(ob, z) \<in> registered w sc" by (simp add: reg)
  from render_wiredD(2) [OF w r] nm have "z \<noteq> e" by auto
  with render_wiredD(2) [OF w r] cnt
  show "e_isMounted (w_entity w' z) \<and> z \<notin> insert e X \<and> e_onBeforeRenderObserver (w_entity w' z) = Some ob \<and>
        scene_of w' z = Some sc \<and> ob < w_observer_count w'"
    by (simp add: flag obs scn)
next
  fix z
  assume "\<not> e_isMounted (w_entity w' z)"
  with render_wiredD(3) [OF w, of z] show "e_onBeforeRenderObserver (w_entity w' z) = None"
    by (simp add: flag obs)
next
  fix z
  assume "z \<in> insert e X"
  with render_wiredD(4) [OF w, of z] show "e_isMounted (w_entity w' z)" by (auto simp: flag)
next
  fix sc sc' ob z z'
  assume "(ob, z) \<in> registered w' sc" and "(ob, z') \<in> registered w' sc'"
  with render_wiredD(5) [OF w, of ob z sc z' sc'] show "z = z'" by (simp add: reg)
qed

text \<open>Removing the stored observer of an entity and clearing its flag.\<close>

lemma wired_after_remove:
  assumes w: "render_wired X w" and nx: "e \<notin> X"
    and flag: "\<And>z. e_isMounted (w_entity w' z) = (z \<noteq> e \<and> e_isMounted (w_entity w z))"
    and obs: "\<And>z. e_onBeforeRenderObserver (w_entity w' z) =
                (if z = e then None else e_onBeforeRenderObserver (w_entity w z))"
    and scn: "\<And>z. scene_of w' z = scene_of w z" and sce: "scene_of w e = Some s"
    and reg: "\<And>sc. registered w' sc =
                (if sc = s then {p \<in> registered w sc. Some (fst p) \<noteq> e_onBeforeRenderObserver (w_entity w e)}
                 else registered w sc)"
    and cnt: "w_observer_count w \<le> w_observer_count w'"
  shows "render_wired X w'"
proof (rule render_wiredI)
  fix z
  assume m: "e_isMounted (w_entity w' z)" and x: "z \<notin> X"
  then have ze: "z \<noteq> e" and mz: "e_isMounted (w_entity w z)" by (simp_all add: flag)
  from render_wiredD(1) [OF w mz x] obtain ob sc where
    o: "e_onBeforeRenderObserver (w_entity w z) = Some ob" and sz: "scene_of w z = Some sc"
    and r: "(ob, z) \<in> registered w sc" by blast
  have "e_onBeforeRenderObserver (w_entity w e) \<noteq> Some ob"
  proof
    assume eo: "e_onBeforeRenderObserver (w_entity w e) = Some ob"
    with render_wiredD(3) [OF w, of e] have me: "e_isMounted (w_entity w e)" by auto
    from render_wiredD(1) [OF w me nx] eo obtain sc' where "(ob, e) \<in> registered w sc'" by auto
    from render_wiredD(5) [OF w r this] ze show False by simp
  qed
  with r have "(ob, z) \<in> registered w' sc" by (auto simp: reg)
  with o sz ze show "\<exists>ob sc. e_onBeforeRenderObserver (w_entity w' z) = Some ob \<and> scene_of w' z = Some sc \<and>
           (ob, z) \<in> registered w' sc"
    by (auto simp: obs scn)
next
  fix sc ob z
  assume r': "(ob, z) \<in> registered w' sc"
  then have r: "(ob, z) \<in> registered w sc" by (auto simp: reg split: if_splits)
  note d = render_wiredD(2) [OF w r]
  have "z \<noteq> e"
  proof
    assume "z = e"
    with d sce have "sc = s" and "e_onBeforeRenderObserver (w_entity w e) = Some ob" by simp_all
    with r' show False by (simp add: reg)
  qed
  with d cnt show "e_isMounted (w_entity w' z) \<and> z \<notin> X \<and> e_onBeforeRenderObserver (w_entity w' z) = Some ob \<and>
        scene_of w' z = Some sc \<and> ob < w_observer_count w'"
    by (simp add: flag obs scn)
next
  fix z
  assume "\<not> e_isMounted (w_entity w' z)"
  with render_wiredD(3) [OF w, of z] show "e_onBeforeRenderObserver (w_entity w' z) = None"
    by (auto simp: flag obs)
next
  fix z
  assume "z \<in> X"
  with render_wiredD(4) [OF w, of z] nx show "e_isMounted (w_entity w' z)" by (auto simp: flag)
next
  fix sc sc' ob z z'
  assume "(ob, z) \<in> registered w' sc" and "(ob, z') \<in> registered w' sc'"
  then have "(ob, z) \<in> registered w sc" and "(ob, z') \<in> registered w sc'"
    by (auto simp: reg split: if_splits)
  with render_wiredD(5) [OF w] show "z = z'" by blast
qed

lemma set_observable_remove:
  "set (observable_remove ob obs) = {p \<in> set obs. Some (fst p) \<noteq> ob}"
  by (cases ob) (auto simp: observable_remove_def)

section \<open>The wiring, block by block\<close>

lemma same_wiring_simple:
  "same_wiring w (emit ev w)"
  "same_wiring w (set_to_parent nd pn e w)"
  "same_wiring w (upd_entity x (\<lambda>r. r\<lparr>e_childContext := VUndefined\<rparr>) w)"
  "same_wiring w (upd_entity x (\<lambda>r. r\<lparr>e_children := cs\<rparr>) w)"
  "same_wiring w (upd_entity x (\<lambda>r. r\<lparr>e_parent := p\<rparr>) w)"
  by (simp_all add: same_wiring_def scene_of_def registered_def set_to_parent_frame heap_defs)

lemma same_wiring_mountComponent:
  "bframe_mountComponent e c w = Returned w' \<Longrightarrow> same_wiring w w'"
  by (auto simp: bframe_mountComponent_def same_wiring_def scene_of_def registered_def heap_defs
      split: option.splits)

lemma keeps_wired_refl: "keeps_wired w w"
  by (simp add: keeps_wired_def)

lemma keeps_wired_trans: "keeps_wired a b \<Longrightarrow> keeps_wired b c \<Longrightarrow> keeps_wired a c"
  by (simp add: keeps_wired_def)

lemma keeps_wired_same: "same_wiring w w' \<Longrightarrow> keeps_wired w w'"
  by (auto simp: keeps_wired_def intro: same_wiring_wired)

lemma bframe_mount_begin_wired:
  assumes "render_wired X w" and "\<not> e_isMounted (w_entity w e)"
    and b: "bframe_mount_begin ctx e w = Returned w1"
  shows "render_wired X w1"
  using assms(1,2)
  by (rule wired_unmounted_change)
    (simp_all add: bframe_mount_begin_fields [OF b] scene_of_def registered_def)

lemma bframe_mount_wire_Returned:
  "bframe_mount_wire e w = Returned w' \<longleftrightarrow>
     (\<exists>cx. e_context (w_entity w e) = Some cx \<and>
        w' = upd_entity e (\<lambda>r. r\<lparr>e_isMounted := True\<rparr>)
               (upd_entity e (\<lambda>r. r\<lparr>e_onBeforeRenderObserver := Some (w_observer_count w)\<rparr>)
                  (snd (onBeforeRender_add (ctx_scene (w_jscontext w cx)) e
                     (if e_ref (w_entity w e) then emit (Ref e) (emit (DidMount e) w)
                      else emit (DidMount e) w)))))"
  by (auto simp: bframe_mount_wire_def Let_def heap_defs split: option.splits)

lemma bframe_mount_wire_wired:
  assumes w: "render_wired X w" and nm: "\<not> e_isMounted (w_entity w e)"
    and r: "bframe_mount_wire e w = Returned w'"
  shows "render_wired X w'"
proof -
  let ?wf = "upd_entity e (\<lambda>r. r\<lparr>e_isMounted := True\<rparr>) w"
  from render_wiredD(4) [OF w, of e] nm have nx: "e \<notin> X" by auto
  have f: "render_wired (insert e X) ?wf"
    using w nm by (rule wired_flagged) (simp_all add: scene_of_def registered_def heap_defs)
  from r obtain cx where cx: "e_context (w_entity w e) = Some cx"
    and w': "w' = upd_entity e (\<lambda>r. r\<lparr>e_isMounted := True\<rparr>)
               (upd_entity e (\<lambda>r. r\<lparr>e_onBeforeRenderObserver := Some (w_observer_count w)\<rparr>)
                  (snd (onBeforeRender_add (ctx_scene (w_jscontext w cx)) e
                     (if e_ref (w_entity w e) then emit (Ref e) (emit (DidMount e) w)
                      else emit (DidMount e) w))))"
    by (auto simp: bframe_mount_wire_Returned)
  show ?thesis
    using f nx
  proof (rule wired_after_add [where s = "ctx_scene (w_jscontext w cx)"])
    show "scene_of ?wf e = Some (ctx_scene (w_jscontext w cx))"
      using cx by (simp add: scene_of_def heap_defs)
  qed (auto simp: w' scene_of_def registered_def heap_defs Let_def)
qed

lemma bframe_unmount_tail_wired:
  assumes w: "render_wired {} w" and r: "bframe_unmount_tail e w = Returned w'"
  shows "render_wired {} w'"
proof -
  from r obtain cx nd p where cx: "e_context (w_entity w e) = Some cx"
    and w': "w' = emit (OnChildrenUpdated p)
               (upd_entity e (\<lambda>r. r\<lparr>e_isMounted := False\<rparr>)
                  (upd_entity e (\<lambda>r. r\<lparr>e_node := None\<rparr>)
                     (dispose nd
                        (upd_entity e (\<lambda>r. r\<lparr>e_onBeforeRenderObserver := None\<rparr>)
                           (onBeforeRender_remove (ctx_scene (w_jscontext w cx))
                              (e_onBeforeRenderObserver (w_entity w e)) w)))))"
    by (auto simp: bframe_unmount_tail_Returned)
  show ?thesis
    using w
  proof (rule wired_after_remove [where e = e and s = "ctx_scene (w_jscontext w cx)"])
    show "scene_of w e = Some (ctx_scene (w_jscontext w cx))"
      using cx by (simp add: scene_of_def)
  qed (auto simp: w' scene_of_def registered_def heap_defs set_observable_remove)
qed

lemma bframe_mount_keeps_wired:
  "bframe_mount fuel ctx pn e w = Returned w' \<Longrightarrow> keeps_wired w w'"
proof (rule bframe_mount_rel [where R = keeps_wired])
  show "\<And>c x a b. \<not> e_isMounted (w_entity a x) \<Longrightarrow> bframe_mount_begin c x a = Returned b \<Longrightarrow> keeps_wired a b"
    by (auto simp: keeps_wired_def intro: bframe_mount_begin_wired)
  show "\<And>x a b. \<not> e_isMounted (w_entity a x) \<Longrightarrow> bframe_mount_wire x a = Returned b \<Longrightarrow> keeps_wired a b"
    by (auto simp: keeps_wired_def intro: bframe_mount_wire_wired)
  show "\<And>x c a b. bframe_mountComponent x c a = Returned b \<Longrightarrow> keeps_wired a b"
    by (blast intro: keeps_wired_same same_wiring_mountComponent)
  show "\<And>nd pn x a. keeps_wired a (set_to_parent nd pn x a)"
    by (blast intro: keeps_wired_same same_wiring_simple)
  show "\<And>x a. keeps_wired a (upd_entity x (\<lambda>r. r\<lparr>e_childContext := VUndefined\<rparr>) a)"
    by (blast intro: keeps_wired_same same_wiring_simple)
qed (blast intro: keeps_wired_refl keeps_wired_trans)+

lemma bframe_unmount_keeps_wired:
  "bframe_unmount fuel e w = Returned w' \<Longrightarrow> keeps_wired w w'"
proof (rule bframe_unmount_rel [where R = keeps_wired])
  show "\<And>x a b. bframe_unmount_tail x a = Returned b \<Longrightarrow> keeps_wired a b"
    by (auto simp: keeps_wired_def intro: bframe_unmount_tail_wired)
  show "\<And>x a. keeps_wired a (emit x a)"
    by (blast intro: keeps_wired_same same_wiring_simple)
qed (blast intro: keeps_wired_refl keeps_wired_trans)+

text \<open>
  The nucleus \<open>unmount\<close> takes the entity off the render loop before the node is disposed,
  and clears the flag after it. In between the engine calls back, and other entities are
  unmounted.
\<close>

lemma render_wired_unobserved:
  assumes w: "render_wired {} w"
  shows "unobserved w = {}"
proof -
  have "z \<notin> unobserved w" for z
  proof
    assume "z \<in> unobserved w"
    then have "e_isMounted (w_entity w z)" and "e_onBeforeRenderObserver (w_entity w z) = None"
      by (simp_all add: unobserved_def)
    with render_wiredD(1) [OF w, of z] show False by simp
  qed
  then show ?thesis by blast
qed

lemma nucleus_unwire_wired:
  assumes w: "render_wired (unobserved w) w" and cx: "e_context (w_entity w x) = Some cx"
  shows "render_wired (unobserved (nucleus_unwire cx nd x w)) (nucleus_unwire cx nd x w)"
proof -
  let ?w' = "nucleus_unwire cx nd x w"
  let ?s = "ctx_scene (w_jscontext w cx)"
  have flag: "e_isMounted (w_entity ?w' z) = e_isMounted (w_entity w z)" for z
    by (simp add: nucleus_unwire_fields)
  have obs: "e_onBeforeRenderObserver (w_entity ?w' z) =
      (if z = x then None else e_onBeforeRenderObserver (w_entity w z))" for z
    by (simp add: nucleus_unwire_fields)
  have scn: "scene_of ?w' z = scene_of w z" for z
    by (simp add: scene_of_def nucleus_unwire_fields)
  from cx have sx: "scene_of w x = Some ?s" by (simp add: scene_of_def)
  have reg: "registered ?w' sc =
      (if sc = ?s then {p \<in> registered w sc. Some (fst p) \<noteq> e_onBeforeRenderObserver (w_entity w x)}
       else registered w sc)" for sc
    by (simp add: registered_def nucleus_unwire_fields set_observable_remove)
  have cnt: "w_observer_count ?w' = w_observer_count w" by (simp add: nucleus_unwire_fields)
  have un: "z \<in> unobserved ?w' \<longleftrightarrow>
      e_isMounted (w_entity w z) \<and> (z = x \<or> e_onBeforeRenderObserver (w_entity w z) = None)" for z
    by (auto simp: unobserved_def flag obs)
  have un0: "z \<in> unobserved w \<longleftrightarrow>
      e_isMounted (w_entity w z) \<and> e_onBeforeRenderObserver (w_entity w z) = None" for z
    by (simp add: unobserved_def)
  show ?thesis
  proof (rule render_wiredI)
    fix z
    assume m: "e_isMounted (w_entity ?w' z)" and x: "z \<notin> unobserved ?w'"
    then have mz: "e_isMounted (w_entity w z)" and zx: "z \<noteq> x"
      and oz: "e_onBeforeRenderObserver (w_entity w z) \<noteq> None"
      by (auto simp: un flag)
    then have "z \<notin> unobserved w" by (simp add: un0)
    from render_wiredD(1) [OF w mz this] obtain ob sc where
      o: "e_onBeforeRenderObserver (w_entity w z) = Some ob" and sz: "scene_of w z = Some sc"
      and r: "(ob, z) \<in> registered w sc" by blast
    have "e_onBeforeRenderObserver (w_entity w x) \<noteq> Some ob"
    proof
      assume eo: "e_onBeforeRenderObserver (w_entity w x) = Some ob"
      with render_wiredD(3) [OF w, of x] have me: "e_isMounted (w_entity w x)" by auto
      from eo have "x \<notin> unobserved w" by (simp add: un0)
      from render_wiredD(1) [OF w me this] eo obtain sc' where "(ob, x) \<in> registered w sc'" by auto
      from render_wiredD(5) [OF w r this] zx show False by simp
    qed
    with r have "(ob, z) \<in> registered ?w' sc" by (auto simp: reg)
    with o sz zx
    show "\<exists>ob sc. e_onBeforeRenderObserver (w_entity ?w' z) = Some ob \<and> scene_of ?w' z = Some sc \<and>
           (ob, z) \<in> registered ?w' sc"
      by (auto simp: obs scn)
  next
    fix sc ob z
    assume r': "(ob, z) \<in> registered ?w' sc"
    then have r: "(ob, z) \<in> registered w sc" by (auto simp: reg split: if_splits)
    note d = render_wiredD(2) [OF w r]
    have "z \<noteq> x"
    proof
      assume "z = x"
      with d sx have "sc = ?s" and "e_onBeforeRenderObserver (w_entity w x) = Some ob" by simp_all
      with r' show False by (simp add: reg)
    qed
    with d show "e_isMounted (w_entity ?w' z) \<and> z \<notin> unobserved ?w' \<and>
        e_onBeforeRenderObserver (w_entity ?w' z) = Some ob \<and>
        scene_of ?w' z = Some sc \<and> ob < w_observer_count ?w'"
      by (simp add: flag obs scn cnt un)
  next
    fix z
    assume "\<not> e_isMounted (w_entity ?w' z)"
    with render_wiredD(3) [OF w, of z] show "e_onBeforeRenderObserver (w_entity ?w' z) = None"
      by (simp add: flag obs)
  next
    fix z
    assume "z \<in> unobserved ?w'"
    then show "e_isMounted (w_entity ?w' z)" by (simp add: un flag)
  next
    fix sc sc' ob z z'
    assume "(ob, z) \<in> registered ?w' sc" and "(ob, z') \<in> registered ?w' sc'"
    then have "(ob, z) \<in> registered w sc" and "(ob, z') \<in> registered w sc'"
      by (auto simp: reg split: if_splits)
    with render_wiredD(5) [OF w] show "z = z'" by blast
  qed
qed

lemma nucleus_forget_wired:
  assumes w: "render_wired (unobserved w) w"
    and ox: "e_onBeforeRenderObserver (w_entity w x) = None"
  shows "render_wired (unobserved (nucleus_leave_parent x (nucleus_forget nd x w)))
           (nucleus_leave_parent x (nucleus_forget nd x w))"
proof -
  let ?w' = "nucleus_leave_parent x (nucleus_forget nd x w)"
  have flag: "e_isMounted (w_entity ?w' z) = (z \<noteq> x \<and> e_isMounted (w_entity w z))" for z
    by (simp add: nucleus_leave_parent_fields nucleus_forget_fields)
  have obs: "e_onBeforeRenderObserver (w_entity ?w' z) = e_onBeforeRenderObserver (w_entity w z)" for z
    by (simp add: nucleus_leave_parent_fields nucleus_forget_fields)
  have scn: "scene_of ?w' z = scene_of w z" for z
    by (simp add: scene_of_def nucleus_leave_parent_fields nucleus_forget_fields)
  have reg: "registered ?w' sc = registered w sc" for sc
    by (simp add: registered_def nucleus_leave_parent_fields nucleus_forget_fields)
  have cnt: "w_observer_count ?w' = w_observer_count w"
    by (simp add: nucleus_leave_parent_fields nucleus_forget_fields)
  have un: "z \<in> unobserved ?w' \<longleftrightarrow> z \<noteq> x \<and> z \<in> unobserved w" for z
    by (auto simp: unobserved_def flag obs)
  show ?thesis
  proof (rule render_wiredI)
    fix z
    assume "e_isMounted (w_entity ?w' z)" and "z \<notin> unobserved ?w'"
    then have "e_isMounted (w_entity w z)" and "z \<notin> unobserved w" by (simp_all add: flag un)
    from render_wiredD(1) [OF w this]
    show "\<exists>ob sc. e_onBeforeRenderObserver (w_entity ?w' z) = Some ob \<and> scene_of ?w' z = Some sc \<and>
           (ob, z) \<in> registered ?w' sc"
      by (simp add: obs scn reg)
  next
    fix sc ob z
    assume "(ob, z) \<in> registered ?w' sc"
    then have r: "(ob, z) \<in> registered w sc" by (simp add: reg)
    note d = render_wiredD(2) [OF w r]
    with ox have "z \<noteq> x" by auto
    with d show "e_isMounted (w_entity ?w' z) \<and> z \<notin> unobserved ?w' \<and>
        e_onBeforeRenderObserver (w_entity ?w' z) = Some ob \<and>
        scene_of ?w' z = Some sc \<and> ob < w_observer_count ?w'"
      by (simp add: flag obs scn cnt un)
  next
    fix z
    assume "\<not> e_isMounted (w_entity ?w' z)"
    with render_wiredD(3) [OF w, of z] ox show "e_onBeforeRenderObserver (w_entity ?w' z) = None"
      by (auto simp: flag obs)
  next
    fix z
    assume "z \<in> unobserved ?w'"
    then show "e_isMounted (w_entity ?w' z)" by (simp add: unobserved_def)
  next
    fix sc sc' ob z z'
    assume "(ob, z) \<in> registered ?w' sc" and "(ob, z') \<in> registered ?w' sc'"
    with render_wiredD(5) [OF w, of ob z sc z' sc'] show "z = z'" by (simp add: reg)
  qed
qed

lemma unwires_refl: "unwires w w"
  by (simp add: unwires_def)

lemma unwires_trans: "unwires a b \<Longrightarrow> unwires b c \<Longrightarrow> unwires a c"
  unfolding unwires_def by blast

lemma unwires_same:
  assumes s: "same_wiring w w'"
  shows "unwires w w'"
proof -
  from s have "unobserved w' = unobserved w" by (auto simp: unobserved_def same_wiring_def)
  moreover from s have "e_onBeforeRenderObserver (w_entity w' z) = e_onBeforeRenderObserver (w_entity w z)" for z
    by (simp add: same_wiring_def)
  ultimately show ?thesis using same_wiring_wired [OF s] by (simp add: unwires_def)
qed

lemma same_wiring_engine:
  "same_wiring w (dispose nd w)" "same_wiring w (upd_node nd f w)"
  by (simp_all add: same_wiring_def scene_of_def registered_def heap_defs)

lemma nucleus_unmount_unwires:
  "nucleus_unmount fuel e w = Returned w' \<Longrightarrow> unwires w w'"
proof (rule nucleus_unmount_rel [where R = unwires])
  show "\<And>x a. unwires a (emit x a)"
    by (blast intro: unwires_same same_wiring_simple)
  show "\<And>nd a. unwires a (dispose nd a)"
    by (blast intro: unwires_same same_wiring_engine)
  show "\<And>nd a. unwires a (upd_node nd (\<lambda>m. m\<lparr>n_parent := None\<rparr>) a)"
    by (blast intro: unwires_same same_wiring_engine)
  show "\<And>nd a. unwires a (upd_node nd (\<lambda>m. m\<lparr>n_onDispose := []\<rparr>) a)"
    by (blast intro: unwires_same same_wiring_engine)
  show "unwires a0 (nucleus_leave_parent x (nucleus_forget nd' x c))"
    if r0: "unwires a0 a" and cx: "e_context (w_entity a x) = Some cx"
      and r1: "unwires (nucleus_unwire cx nd x a) c"
    for x cx nd nd' a0 a c
  proof -
    let ?u = "nucleus_unwire cx nd x a"
    let ?b = "nucleus_leave_parent x (nucleus_forget nd' x c)"
    have "e_onBeforeRenderObserver (w_entity ?u x) = None" by (simp add: nucleus_unwire_fields)
    with r1 have oc: "e_onBeforeRenderObserver (w_entity c x) = None"
      unfolding unwires_def by blast
    have 1: "render_wired (unobserved a0) a0 \<longrightarrow> render_wired (unobserved ?b) ?b"
    proof
      assume "render_wired (unobserved a0) a0"
      with r0 have "render_wired (unobserved a) a" unfolding unwires_def by blast
      from this cx have "render_wired (unobserved ?u) ?u" by (rule nucleus_unwire_wired)
      with r1 have "render_wired (unobserved c) c" unfolding unwires_def by blast
      from this oc show "render_wired (unobserved ?b) ?b" by (rule nucleus_forget_wired)
    qed
    have 2: "z \<in> unobserved ?b \<longrightarrow> z \<in> unobserved a0" for z
    proof
      assume "z \<in> unobserved ?b"
      then have zx: "z \<noteq> x" and "z \<in> unobserved c"
        by (auto simp: unobserved_def nucleus_leave_parent_fields nucleus_forget_fields
            split: if_splits)
      with r1 have "z \<in> unobserved ?u" unfolding unwires_def by blast
      with zx have "z \<in> unobserved a" by (simp add: unobserved_def nucleus_unwire_fields)
      with r0 show "z \<in> unobserved a0" unfolding unwires_def by blast
    qed
    have 3: "e_onBeforeRenderObserver (w_entity a0 z) = None \<longrightarrow>
        e_onBeforeRenderObserver (w_entity ?b z) = None" for z
    proof
      assume "e_onBeforeRenderObserver (w_entity a0 z) = None"
      with r0 have "e_onBeforeRenderObserver (w_entity a z) = None" unfolding unwires_def by blast
      then have "e_onBeforeRenderObserver (w_entity ?u z) = None" by (simp add: nucleus_unwire_fields)
      with r1 have "e_onBeforeRenderObserver (w_entity c z) = None" unfolding unwires_def by blast
      then show "e_onBeforeRenderObserver (w_entity ?b z) = None"
        by (simp add: nucleus_leave_parent_fields nucleus_forget_fields)
    qed
    from 1 2 3 show ?thesis unfolding unwires_def by blast
  qed
qed (blast intro: unwires_refl unwires_trans)+

lemma nucleus_unmount_keeps_wired:
  assumes run: "nucleus_unmount fuel e w = Returned w'"
  shows "keeps_wired w w'"
  unfolding keeps_wired_def
proof
  assume w: "render_wired {} w"
  from nucleus_unmount_unwires [OF run] have u: "unwires w w'" .
  from w have e: "unobserved w = {}" by (rule render_wired_unobserved)
  with u have "unobserved w' = {}" unfolding unwires_def by blast
  moreover from u w e have "render_wired (unobserved w') w'" unfolding unwires_def by simp
  ultimately show "render_wired {} w'" by simp
qed

lemma nucleus_mount_begin_fields:
  assumes "nucleus_mount_begin ctx pn e w = Returned w1"
  shows "e_context (w_entity w1 z) = (if z = e then ctx else e_context (w_entity w z))"
    and "e_isMounted (w_entity w1 z) = (z = e \<or> e_isMounted (w_entity w z))"
    and "e_onBeforeRenderObserver (w_entity w1 z) = e_onBeforeRenderObserver (w_entity w z)"
    and "w_scene w1 = w_scene w" and "w_jscontext w1 = w_jscontext w"
    and "w_observer_count w1 = w_observer_count w"
  using assms
  by (auto simp: nucleus_mount_begin_def onMount_def bind_Returned_iff set_to_parent_def heap_defs
      Let_def split: option.splits if_splits)

lemma nucleus_mount_begin_wired:
  assumes "render_wired X w" and "\<not> e_isMounted (w_entity w e)"
    and b: "nucleus_mount_begin ctx pn e w = Returned w1"
  shows "render_wired (insert e X) w1"
  using assms(1,2)
  by (rule wired_flagged)
    (simp_all add: nucleus_mount_begin_fields [OF b] scene_of_def registered_def)

lemma nucleus_mount_finish_Returned:
  "nucleus_mount_finish ctx e w = Returned w' \<longleftrightarrow>
     (\<exists>cx nd cx0 se. e_context (w_entity w e) = Some cx \<and> e_node (w_entity w e) = Some nd \<and>
        ctx = Some cx0 \<and> ctx_sceneEntity (w_jscontext w cx0) = Some se \<and>
        w' = emit (RegisterEntity se e)
               (upd_entity e (\<lambda>r. r\<lparr>e_onDisposeObserver := Some (Suc (w_observer_count w))\<rparr>)
                  (snd (onDispose_add nd e
                     (upd_entity e (\<lambda>r. r\<lparr>e_onBeforeRenderObserver := Some (w_observer_count w)\<rparr>)
                        (snd (onBeforeRender_add (ctx_scene (w_jscontext w cx)) e
                           (emit (DidMount e) (emit (CollectionMount e) w)))))))))"
  by (auto simp: nucleus_mount_finish_def Let_def heap_defs split: option.splits)

lemma nucleus_mount_finish_wired:
  assumes w: "render_wired (insert e X) w" and nx: "e \<notin> X"
    and r: "nucleus_mount_finish ctx e w = Returned w'"
  shows "render_wired X w'"
proof -
  from render_wiredD(4) [OF w, of e] have me: "e_isMounted (w_entity w e)" by simp
  from r obtain cx nd cx0 se where cx: "e_context (w_entity w e) = Some cx"
    and w': "w' = emit (RegisterEntity se e)
               (upd_entity e (\<lambda>r. r\<lparr>e_onDisposeObserver := Some (Suc (w_observer_count w))\<rparr>)
                  (snd (onDispose_add nd e
                     (upd_entity e (\<lambda>r. r\<lparr>e_onBeforeRenderObserver := Some (w_observer_count w)\<rparr>)
                        (snd (onBeforeRender_add (ctx_scene (w_jscontext w cx)) e
                           (emit (DidMount e) (emit (CollectionMount e) w))))))))"
    by (auto simp: nucleus_mount_finish_Returned)
  show ?thesis
    using w nx
  proof (rule wired_after_add [where s = "ctx_scene (w_jscontext w cx)"])
    show "scene_of w e = Some (ctx_scene (w_jscontext w cx))"
      using cx by (simp add: scene_of_def)
  qed (use me in \<open>auto simp: w' scene_of_def registered_def heap_defs Let_def\<close>)
qed

lemma nucleus_mount_wired:
  "render_wired X w \<Longrightarrow> nucleus_mount fuel ctx pn e w = Returned w' \<Longrightarrow> render_wired X w'"
proof (induction fuel arbitrary: X ctx pn e w w')
  case 0
  then show ?case by simp
next
  case (Suc fuel)
  from Suc.prems(2) obtain w1 w2 where
    nm: "\<not> e_isMounted (w_entity w e)"
    and s1: "nucleus_mount_begin ctx pn e w = Returned w1"
    and s2: "nucleus_mount_children (nucleus_mount fuel) e w1 = Returned w2"
    and s3: "nucleus_mount_finish ctx e w2 = Returned w'"
    by (auto simp: bind_Returned_iff split: if_splits)
  from render_wiredD(4) [OF Suc.prems(1), of e] nm have nx: "e \<notin> X" by auto
  from Suc.prems(1) nm s1 have k1: "render_wired (insert e X) w1"
    by (rule nucleus_mount_begin_wired)
  have k2: "render_wired (insert e X) w2"
    using k1 s2 [unfolded nucleus_mount_children_def]
  proof (rule forEach_preserves [where P = "render_wired (insert e X)", rotated])
    fix x v v'
    assume p: "render_wired (insert e X) v"
      and m: "nucleus_mount fuel (e_context (w_entity v e)) None x
                (upd_entity x (\<lambda>r. r\<lparr>e_childContext := VUndefined\<rparr>) v) = Returned v'"
    from same_wiring_simple(3) p
    have "render_wired (insert e X) (upd_entity x (\<lambda>r. r\<lparr>e_childContext := VUndefined\<rparr>) v)"
      by (rule same_wiring_wired)
    from this m show "render_wired (insert e X) v'" by (rule Suc.IH)
  qed
  from k2 nx s3 show ?case by (rule nucleus_mount_finish_wired)
qed

lemma nucleus_mount_stay_mounted:
  "nucleus_mount fuel ctx pn e w = Returned w' \<Longrightarrow> stay_mounted w w'"
proof (rule nucleus_mount_rel [where R = stay_mounted])
  show "\<And>c pn x a b. \<not> e_isMounted (w_entity a x) \<Longrightarrow> nucleus_mount_begin c pn x a = Returned b \<Longrightarrow> stay_mounted a b"
    by (simp add: stay_mounted_def nucleus_mount_begin_fields)
  show "\<And>c x a b. nucleus_mount_finish c x a = Returned b \<Longrightarrow> stay_mounted a b"
    by (auto simp: stay_mounted_def nucleus_mount_finish_Returned heap_defs Let_def)
  show "\<And>x a. stay_mounted a (upd_entity x (\<lambda>r. r\<lparr>e_childContext := VUndefined\<rparr>) a)"
    by (simp add: stay_mounted_def heap_defs)
qed (blast intro: stay_mounted_refl stay_mounted_trans)+

lemma nucleus_mount_mounted:
  assumes "nucleus_mount fuel ctx pn e w = Returned w'"
  shows "e_isMounted (w_entity w' e)"
proof -
  from assms obtain n where fuel: "fuel = Suc n" by (cases fuel) auto
  from assms [unfolded fuel] obtain w1 w2 where
    s1: "nucleus_mount_begin ctx pn e w = Returned w1"
    and s2: "nucleus_mount_children (nucleus_mount n) e w1 = Returned w2"
    and s3: "nucleus_mount_finish ctx e w2 = Returned w'"
    by (auto simp: bind_Returned_iff split: if_splits)
  have "stay_mounted w1 w2"
    using stay_mounted_refl stay_mounted_trans _ s2 [unfolded nucleus_mount_children_def]
  proof (rule forEach_rel [where R = stay_mounted])
    fix x v v'
    assume "nucleus_mount n (e_context (w_entity v e)) None x
                (upd_entity x (\<lambda>r. r\<lparr>e_childContext := VUndefined\<rparr>) v) = Returned v'"
    from nucleus_mount_stay_mounted [OF this] show "stay_mounted v v'"
      by (auto simp: stay_mounted_def heap_defs split: if_splits)
  qed
  with nucleus_mount_begin_fields(2) [OF s1, of e] have "e_isMounted (w_entity w2 e)"
    by (simp add: stay_mounted_def)
  with s3 show ?thesis by (auto simp: nucleus_mount_finish_Returned heap_defs Let_def)
qed

lemma bframe_unmount_cleared:
  assumes "bframe_unmount fuel e w = Returned w'"
  shows "\<not> e_isMounted (w_entity w' e) \<and> e_onBeforeRenderObserver (w_entity w' e) = None"
proof -
  from assms obtain n where fuel: "fuel = Suc n" by (cases fuel) auto
  from assms [unfolded fuel] obtain v where "bframe_unmount_tail e v = Returned w'"
    by (auto simp: bind_Returned_iff bframe_unmount_self_def)
  from bframe_unmount_tail_self [OF this] show ?thesis by simp
qed

lemma nucleus_unmount_cleared:
  assumes "nucleus_unmount fuel e w = Returned w'"
  shows "\<not> e_isMounted (w_entity w' e) \<and> e_onBeforeRenderObserver (w_entity w' e) = None"
proof -
  from assms obtain n where fuel: "fuel = Suc n" by (cases fuel) auto
  from assms [unfolded fuel] obtain v where
    rest: "nucleus_unmount_self (dispose_cascade (Suc n) (nucleus_onDispose (nucleus_unmount n))) e v =
       Returned w'"
    by (auto simp: bind_Returned_iff split: if_splits)
  have "e_node (w_entity w' e) = None \<and> \<not> e_isMounted (w_entity w' e) \<and>
         e_onBeforeRenderObserver (w_entity w' e) = None \<and>
         (\<exists>nd. e_node (w_entity v e) = Some nd \<and> n_disposed (w_node w' nd))"
    by (rule nucleus_unmount_self_gone [OF _ rest]) (rule nucleus_onDispose_only_unmounts)
  then show ?thesis by simp
qed

lemma bframe_remount_keeps_wired:
  assumes "bframe_remount fuel e w = Returned w'"
  shows "keeps_wired w w'"
proof (cases "e_isMounted (w_entity w e)")
  case False
  with assms show ?thesis by (simp add: bframe_remount_def keeps_wired_refl)
next
  case True
  with assms obtain w1 where "bframe_unmount fuel e w = Returned w1"
    and "bframe_mount fuel (e_context (w_entity w1 e)) None e w1 = Returned w'"
    by (auto simp: bframe_remount_def bind_Returned_iff)
  then show ?thesis
    by (blast intro: keeps_wired_trans bframe_unmount_keeps_wired bframe_mount_keeps_wired)
qed

lemma nucleus_remount_wired:
  assumes "render_wired {} w" and "nucleus_remount fuel e w = Returned w'"
  shows "render_wired {} w'"
proof -
  from assms(2) obtain w1 where u: "nucleus_unmount fuel e w = Returned w1"
    and m: "nucleus_mount fuel (e_context (w_entity w1 e)) None e w1 = Returned w'"
    by (auto simp: nucleus_remount_def bind_Returned_iff split: if_splits)
  from nucleus_unmount_keeps_wired [OF u] assms(1) have "render_wired {} w1"
    by (simp add: keeps_wired_def)
  from this m show ?thesis by (rule nucleus_mount_wired)
qed

lemma mountChild_links_wiring:
  "same_wiring w
     (emit ev (upd_entity child (\<lambda>r. r\<lparr>e_parent := p\<rparr>)
        (upd_entity e (\<lambda>r. r\<lparr>e_children := e_children r @ [child]\<rparr>) w)))"
  "same_wiring w
     (upd_entity child (\<lambda>r. r\<lparr>e_childContext := VUndefined\<rparr>)
        (emit ev (upd_entity child (\<lambda>r. r\<lparr>e_parent := p\<rparr>)
           (upd_entity e (\<lambda>r. r\<lparr>e_children := e_children r @ [child]\<rparr>) w))))"
  by (simp_all add: same_wiring_def scene_of_def registered_def heap_defs)

lemma bframe_mountChild_wired:
  assumes w: "render_wired {} w" and r: "bframe_mountChild fuel e child w = Returned w'"
  shows "render_wired {} w'"
proof -
  let ?ev = "ParentUpdated child (e_isMounted (w_entity w e))"
  let ?w3 = "emit ?ev (upd_entity child (\<lambda>r. r\<lparr>e_parent := Some e\<rparr>)
     (upd_entity e (\<lambda>r. r\<lparr>e_children := e_children r @ [child]\<rparr>) w))"
  have ev: "e_isMounted (w_entity (upd_entity child (\<lambda>r. r\<lparr>e_parent := Some e\<rparr>)
     (upd_entity e (\<lambda>r. r\<lparr>e_children := e_children r @ [child]\<rparr>) w)) e) = e_isMounted (w_entity w e)"
    by (simp add: heap_defs)
  have m3: "\<And>b. e_isMounted (w_entity (emit (ParentUpdated child b)
     (upd_entity child (\<lambda>r. r\<lparr>e_parent := Some e\<rparr>)
        (upd_entity e (\<lambda>r. r\<lparr>e_children := e_children r @ [child]\<rparr>) w))) e) = e_isMounted (w_entity w e)"
    by (simp add: heap_defs)
  show ?thesis
  proof (cases "e_isMounted (w_entity w e)")
    case False
    with r have "w' = ?w3"
      by (auto simp: bframe_mountChild_def Let_def ev m3 split: if_splits)
    with same_wiring_wired [OF mountChild_links_wiring(1) w] show ?thesis by simp
  next
    case True
    with r obtain w4 where
      m: "bframe_mount fuel (e_context (w_entity ?w3 e)) None child
            (upd_entity child (\<lambda>r. r\<lparr>e_childContext := VUndefined\<rparr>) ?w3) = Returned w4"
      and w': "w' = emit (OnChildrenUpdated e) w4"
      by (auto simp: bframe_mountChild_def Let_def ev m3 bind_Returned_iff split: if_splits)
    from same_wiring_wired [OF mountChild_links_wiring(2) w]
    have "render_wired {} (upd_entity child (\<lambda>r. r\<lparr>e_childContext := VUndefined\<rparr>) ?w3)" .
    with bframe_mount_keeps_wired [OF m] have "render_wired {} w4"
      by (simp add: keeps_wired_def)
    with same_wiring_wired [OF same_wiring_simple(1)] show ?thesis
      unfolding w' by blast
  qed
qed

lemma nucleus_mountChild_wired:
  assumes w: "render_wired {} w" and r: "nucleus_mountChild fuel e child w = Returned w'"
  shows "render_wired {} w'"
proof -
  let ?ev = "ParentUpdated child (e_isMounted (w_entity w e))"
  let ?w3 = "emit ?ev (upd_entity child (\<lambda>r. r\<lparr>e_parent := Some e\<rparr>)
     (upd_entity e (\<lambda>r. r\<lparr>e_children := e_children r @ [child]\<rparr>) w))"
  have ev: "e_isMounted (w_entity (upd_entity child (\<lambda>r. r\<lparr>e_parent := Some e\<rparr>)
     (upd_entity e (\<lambda>r. r\<lparr>e_children := e_children r @ [child]\<rparr>) w)) e) = e_isMounted (w_entity w e)"
    by (simp add: heap_defs)
  have m3: "\<And>b. e_isMounted (w_entity (emit (ParentUpdated child b)
     (upd_entity child (\<lambda>r. r\<lparr>e_parent := Some e\<rparr>)
        (upd_entity e (\<lambda>r. r\<lparr>e_children := e_children r @ [child]\<rparr>) w))) e) = e_isMounted (w_entity w e)"
    by (simp add: heap_defs)
  show ?thesis
  proof (cases "e_isMounted (w_entity w e)")
    case False
    with r have "w' = ?w3"
      by (auto simp: nucleus_mountChild_def Let_def ev m3 split: if_splits)
    with same_wiring_wired [OF mountChild_links_wiring(1) w] show ?thesis by simp
  next
    case True
    with r have
      m: "nucleus_mount fuel (e_context (w_entity ?w3 e)) None child
            (upd_entity child (\<lambda>r. r\<lparr>e_childContext := VUndefined\<rparr>) ?w3) = Returned w'"
      by (auto simp: nucleus_mountChild_def Let_def ev m3 split: if_splits)
    from same_wiring_wired [OF mountChild_links_wiring(2) w]
    have "render_wired {} (upd_entity child (\<lambda>r. r\<lparr>e_childContext := VUndefined\<rparr>) ?w3)" .
    from this m show ?thesis by (rule nucleus_mount_wired)
  qed
qed

section \<open>nucleus: unmount and the children lists\<close>














text \<open>
  \<open>unmount\<close> of the root: the loop over the children skips the second child, because the
  first one has left the list; the second child is unmounted when the engine disposes its
  mesh with the mesh of the root.
\<close>

lemma nucleus_siblings_unmount_root:
  "\<exists>w'. nucleus_unmount (Suc (Suc 0)) 0 nucleus_siblings = Returned w' \<and>
     e_children (w_entity w' 0) = [] \<and> \<not> e_isMounted (w_entity w' 0) \<and>
     \<not> e_isMounted (w_entity w' 1) \<and> \<not> e_isMounted (w_entity w' 2) \<and>
     s_onBeforeRender (w_scene w' 0) = []"
  by (simp add: nucleus_siblings_def nucleus_family_def nucleus_root_def nucleus_defs run_defs
      heap_defs splice1_def numeral_2_eq_2)

text \<open>
  \<open>remount\<close> of the root returns: both children are unmounted and have left the list,
  so that \<open>_mount\<close> finds no child to mount.
\<close>

lemma nucleus_siblings_remount_root:
  "\<exists>w'. nucleus_remount (Suc (Suc 0)) 0 nucleus_siblings = Returned w' \<and>
     e_isMounted (w_entity w' 0) \<and> e_children (w_entity w' 0) = [] \<and>
     \<not> e_isMounted (w_entity w' 1) \<and> \<not> e_isMounted (w_entity w' 2)"
  by (simp add: nucleus_remount_def nucleus_siblings_def nucleus_family_def nucleus_root_def
      nucleus_defs run_defs heap_defs splice1_def numeral_2_eq_2)







section \<open>The observers of the example heaps\<close>

lemma bframe_examples_wired:
  "render_wired {} bframe_two_parents" "render_wired {} bframe_family"
  "render_wired {} bframe_with_orphan"
  by (auto simp add: render_wired_def scene_of_def registered_def bframe_two_parents_def
      bframe_family_def bframe_with_orphan_def bframe_root_def bframe_defs run_defs heap_defs)

lemma nucleus_examples_wired:
  "render_wired {} nucleus_with_orphan" "render_wired {} nucleus_family"
  "render_wired {} nucleus_shared_child"
  by (auto simp add: render_wired_def scene_of_def registered_def nucleus_with_orphan_def
      nucleus_family_def nucleus_shared_child_def nucleus_root_def nucleus_defs run_defs heap_defs)

lemma nucleus_siblings_wired: "render_wired {} nucleus_siblings"
  by (auto simp add: render_wired_def scene_of_def registered_def nucleus_siblings_def
      nucleus_family_def nucleus_root_def nucleus_defs run_defs heap_defs)

lemma nucleus_orphan_mount:
  "\<exists>w'. nucleus_mount (Suc 0) (Some 0) None 1 nucleus_with_orphan = Returned w'"
  by (simp add: nucleus_with_orphan_def nucleus_root_def nucleus_defs run_defs heap_defs)

lemma nucleus_family_remount:
  "\<exists>w'. nucleus_remount (Suc 0) 1 nucleus_family = Returned w'"
  by (simp add: nucleus_remount_def nucleus_family_def nucleus_root_def nucleus_defs run_defs
      heap_defs splice1_def)

text \<open>
  C5, as stated, fails. The nucleus \<open>_mount\<close> sets \<open>_isMounted\<close> before it mounts the
  children and adds the observer after them, so a \<open>_mount\<close> that a child stops leaves the
  entity flagged as mounted and nothing registered for it. In \<open>nucleus_shared_child\<close> the
  observers are wired; \<open>mountChild\<close> of entity 1 on the mounted root runs \<open>_mount\<close> of
  entity 1, whose child 2 is mounted already and throws. Afterwards entity 1 is mounted,
  stores no observer, and the scene of its context holds the observers of the entities 0
  and 2 only.
\<close>

theorem nucleus_failed_mount_stays_flagged:
  "render_wired {} nucleus_shared_child \<and>
   (\<exists>w'. nucleus_mountChild (Suc (Suc 0)) 0 1 nucleus_shared_child =
            Thrown (Error ''Entity already mounted'') w' \<and>
      e_isMounted (w_entity w' 1) \<and> e_onBeforeRenderObserver (w_entity w' 1) = None \<and>
      scene_of w' 1 = Some 0 \<and> s_onBeforeRender (w_scene w' 0) = [(0, 0), (2, 2)] \<and>
      \<not> render_wired {} w')"
proof -
  have "\<exists>w'. nucleus_mountChild (Suc (Suc 0)) 0 1 nucleus_shared_child =
            Thrown (Error ''Entity already mounted'') w' \<and>
      e_isMounted (w_entity w' 1) \<and> e_onBeforeRenderObserver (w_entity w' 1) = None \<and>
      scene_of w' 1 = Some 0 \<and> s_onBeforeRender (w_scene w' 0) = [(0, 0), (2, 2)]"
    by (simp add: scene_of_def nucleus_shared_child_def nucleus_root_def nucleus_defs run_defs
        heap_defs numeral_2_eq_2)
  then obtain w' where r: "nucleus_mountChild (Suc (Suc 0)) 0 1 nucleus_shared_child =
            Thrown (Error ''Entity already mounted'') w'"
    and m: "e_isMounted (w_entity w' 1)" and ob: "e_onBeforeRenderObserver (w_entity w' 1) = None"
    and rest: "scene_of w' 1 = Some 0" "s_onBeforeRender (w_scene w' 0) = [(0, 0), (2, 2)]"
    by blast
  have "\<not> render_wired {} w'"
  proof
    assume "render_wired {} w'"
    from render_wiredD(1) [OF this, of 1] m ob show False by simp
  qed
  with r m ob rest nucleus_examples_wired(3) show ?thesis by blast
qed

text \<open>
  C5, amended. Say that the observers are wired (\<open>render_wired {}\<close>) when a mounted entity
  has its stored observer registered on the scene of its context, every registered
  observer is the stored observer of a mounted entity, on the scene of that entity's
  context, and an entity that is not mounted stores no observer. In both classes every
  \<open>_mount\<close>, \<open>unmount\<close>, \<open>remount\<close> and \<open>mountChild\<close> that returns keeps the observers
  wired; after \<open>_mount\<close> the entity is mounted, so its observer is registered; after
  \<open>unmount\<close> it is not mounted, so nothing is registered for it, and its stored observer is
  cleared. For the nucleus entity this includes the entities that are unmounted by their
  \<open>_onDispose\<close> callbacks while the engine disposes the node. A call that throws is not
  covered.
\<close>

theorem render_observer_wired:
  "render_wired {} w \<longrightarrow>
     (bframe_mount fuel ctx pn e w = Returned w' \<longrightarrow>
        render_wired {} w' \<and> e_isMounted (w_entity w' e)) \<and>
     (bframe_unmount fuel e w = Returned w' \<longrightarrow>
        render_wired {} w' \<and> \<not> e_isMounted (w_entity w' e) \<and>
        e_onBeforeRenderObserver (w_entity w' e) = None) \<and>
     (bframe_remount fuel e w = Returned w' \<longrightarrow> render_wired {} w') \<and>
     (bframe_mountChild fuel e child w = Returned w' \<longrightarrow> render_wired {} w') \<and>
     (nucleus_mount fuel ctx pn e w = Returned w' \<longrightarrow>
        render_wired {} w' \<and> e_isMounted (w_entity w' e)) \<and>
     (nucleus_unmount fuel e w = Returned w' \<longrightarrow>
        render_wired {} w' \<and> \<not> e_isMounted (w_entity w' e) \<and>
        e_onBeforeRenderObserver (w_entity w' e) = None) \<and>
     (nucleus_remount fuel e w = Returned w' \<longrightarrow> render_wired {} w') \<and>
     (nucleus_mountChild fuel e child w = Returned w' \<longrightarrow> render_wired {} w')"
proof
  assume w: "render_wired {} w"
  have 1: "bframe_mount fuel ctx pn e w = Returned w' \<longrightarrow>
        render_wired {} w' \<and> e_isMounted (w_entity w' e)"
    using w bframe_mount_keeps_wired [of fuel ctx pn e w w'] bframe_mount_mounted [of fuel ctx pn e w w']
    by (simp add: keeps_wired_def)
  have 2: "bframe_unmount fuel e w = Returned w' \<longrightarrow>
        render_wired {} w' \<and> \<not> e_isMounted (w_entity w' e) \<and>
        e_onBeforeRenderObserver (w_entity w' e) = None"
    using w bframe_unmount_keeps_wired [of fuel e w w'] bframe_unmount_cleared [of fuel e w w']
    by (simp add: keeps_wired_def)
  have 3: "bframe_remount fuel e w = Returned w' \<longrightarrow> render_wired {} w'"
    using w bframe_remount_keeps_wired [of fuel e w w'] by (simp add: keeps_wired_def)
  have 4: "bframe_mountChild fuel e child w = Returned w' \<longrightarrow> render_wired {} w'"
    using w by (blast intro: bframe_mountChild_wired)
  have 5: "nucleus_mount fuel ctx pn e w = Returned w' \<longrightarrow>
        render_wired {} w' \<and> e_isMounted (w_entity w' e)"
    using w by (blast intro: nucleus_mount_wired nucleus_mount_mounted)
  have 6: "nucleus_unmount fuel e w = Returned w' \<longrightarrow>
        render_wired {} w' \<and> \<not> e_isMounted (w_entity w' e) \<and>
        e_onBeforeRenderObserver (w_entity w' e) = None"
    using w nucleus_unmount_keeps_wired [of fuel e w w'] nucleus_unmount_cleared [of fuel e w w']
    by (simp add: keeps_wired_def)
  have 7: "nucleus_remount fuel e w = Returned w' \<longrightarrow> render_wired {} w'"
    using w by (blast intro: nucleus_remount_wired)
  have 8: "nucleus_mountChild fuel e child w = Returned w' \<longrightarrow> render_wired {} w'"
    using w by (blast intro: nucleus_mountChild_wired)
  show "(bframe_mount fuel ctx pn e w = Returned w' \<longrightarrow>
        render_wired {} w' \<and> e_isMounted (w_entity w' e)) \<and>
     (bframe_unmount fuel e w = Returned w' \<longrightarrow>
        render_wired {} w' \<and> \<not> e_isMounted (w_entity w' e) \<and>
        e_onBeforeRenderObserver (w_entity w' e) = None) \<and>
     (bframe_remount fuel e w = Returned w' \<longrightarrow> render_wired {} w') \<and>
     (bframe_mountChild fuel e child w = Returned w' \<longrightarrow> render_wired {} w') \<and>
     (nucleus_mount fuel ctx pn e w = Returned w' \<longrightarrow>
        render_wired {} w' \<and> e_isMounted (w_entity w' e)) \<and>
     (nucleus_unmount fuel e w = Returned w' \<longrightarrow>
        render_wired {} w' \<and> \<not> e_isMounted (w_entity w' e) \<and>
        e_onBeforeRenderObserver (w_entity w' e) = None) \<and>
     (nucleus_remount fuel e w = Returned w' \<longrightarrow> render_wired {} w') \<and>
     (nucleus_mountChild fuel e child w = Returned w' \<longrightarrow> render_wired {} w')"
    by (rule conjI [OF 1 conjI [OF 2 conjI [OF 3 conjI [OF 4 conjI [OF 5 conjI [OF 6 conjI [OF 7 8]]]]]]])
qed

theorem render_observer_wired_witness:
  "render_wired {} bframe_two_parents \<and>
   (\<exists>w'. bframe_mount (Suc (Suc 0)) (Some 0) None 0 bframe_two_parents = Returned w' \<and>
      render_wired {} w' \<and> e_isMounted (w_entity w' 0)) \<and>
   render_wired {} bframe_family \<and>
   (\<exists>w'. bframe_unmount (Suc 0) 1 bframe_family = Returned w' \<and> render_wired {} w' \<and>
      \<not> e_isMounted (w_entity w' 1) \<and> e_onBeforeRenderObserver (w_entity w' 1) = None) \<and>
   (\<exists>w'. bframe_remount (Suc 0) 1 bframe_family = Returned w' \<and> render_wired {} w') \<and>
   render_wired {} bframe_with_orphan \<and>
   (\<exists>w'. bframe_mountChild (Suc 0) 0 1 bframe_with_orphan = Returned w' \<and> render_wired {} w') \<and>
   render_wired {} nucleus_with_orphan \<and>
   (\<exists>w'. nucleus_mount (Suc 0) (Some 0) None 1 nucleus_with_orphan = Returned w' \<and>
      render_wired {} w' \<and> e_isMounted (w_entity w' 1)) \<and>
   (\<exists>w'. nucleus_mountChild (Suc 0) 0 1 nucleus_with_orphan = Returned w' \<and> render_wired {} w') \<and>
   render_wired {} nucleus_family \<and>
   (\<exists>w'. nucleus_unmount (Suc 0) 1 nucleus_family = Returned w' \<and> render_wired {} w' \<and>
      \<not> e_isMounted (w_entity w' 1) \<and> e_onBeforeRenderObserver (w_entity w' 1) = None) \<and>
   (\<exists>w'. nucleus_remount (Suc 0) 1 nucleus_family = Returned w' \<and> render_wired {} w') \<and>
   render_wired {} nucleus_siblings \<and>
   (\<exists>w'. nucleus_unmount (Suc (Suc 0)) 0 nucleus_siblings = Returned w' \<and> render_wired {} w' \<and>
      \<not> e_isMounted (w_entity w' 0) \<and> \<not> e_isMounted (w_entity w' 1) \<and>
      \<not> e_isMounted (w_entity w' 2) \<and> s_onBeforeRender (w_scene w' 0) = []) \<and>
   (\<exists>w'. nucleus_remount (Suc (Suc 0)) 0 nucleus_siblings = Returned w' \<and> render_wired {} w' \<and>
      e_isMounted (w_entity w' 0) \<and> \<not> e_isMounted (w_entity w' 1) \<and>
      \<not> e_isMounted (w_entity w' 2))"
proof -
  from bframe_two_parents_eval obtain a where
    a: "bframe_mount (Suc (Suc 0)) (Some 0) None 0 bframe_two_parents = Returned a" by blast
  from bframe_family_unmount obtain b where
    b: "bframe_unmount (Suc 0) 1 bframe_family = Returned b" by blast
  from bframe_family_remount obtain c where
    c: "bframe_remount (Suc 0) 1 bframe_family = Returned c" by blast
  from orphan_mountChild obtain d where
    d: "bframe_mountChild (Suc 0) 0 1 bframe_with_orphan = Returned d" by blast
  from nucleus_orphan_mount obtain f where
    f: "nucleus_mount (Suc 0) (Some 0) None 1 nucleus_with_orphan = Returned f" by blast
  from orphan_mountChild obtain g where
    g: "nucleus_mountChild (Suc 0) 0 1 nucleus_with_orphan = Returned g" by blast
  from nucleus_family_unmount obtain h where
    h: "nucleus_unmount (Suc 0) 1 nucleus_family = Returned h" by blast
  from nucleus_family_remount obtain k where
    k: "nucleus_remount (Suc 0) 1 nucleus_family = Returned k" by blast
  from render_observer_wired [of bframe_two_parents "Suc (Suc 0)" "Some 0" None 0 a]
    bframe_examples_wired(1) a
  have 1: "render_wired {} a \<and> e_isMounted (w_entity a 0)" by blast
  from render_observer_wired [of bframe_family "Suc 0" _ _ 1 b] bframe_examples_wired(2) b
  have 2: "render_wired {} b \<and> \<not> e_isMounted (w_entity b 1) \<and>
      e_onBeforeRenderObserver (w_entity b 1) = None" by blast
  from render_observer_wired [of bframe_family "Suc 0" _ _ 1 c] bframe_examples_wired(2) c
  have 3: "render_wired {} c" by blast
  from render_observer_wired [of bframe_with_orphan "Suc 0" _ _ 0 d 1] bframe_examples_wired(3) d
  have 4: "render_wired {} d" by blast
  from render_observer_wired [of nucleus_with_orphan "Suc 0" "Some 0" None 1 f]
    nucleus_examples_wired(1) f
  have 5: "render_wired {} f \<and> e_isMounted (w_entity f 1)" by blast
  from render_observer_wired [of nucleus_with_orphan "Suc 0" _ _ 0 g 1] nucleus_examples_wired(1) g
  have 6: "render_wired {} g" by blast
  from render_observer_wired [of nucleus_family "Suc 0" _ _ 1 h] nucleus_examples_wired(2) h
  have 7: "render_wired {} h \<and> \<not> e_isMounted (w_entity h 1) \<and>
      e_onBeforeRenderObserver (w_entity h 1) = None" by blast
  from render_observer_wired [of nucleus_family "Suc 0" _ _ 1 k] nucleus_examples_wired(2) k
  have 8: "render_wired {} k" by blast
  from nucleus_siblings_unmount_root obtain r where
    r: "nucleus_unmount (Suc (Suc 0)) 0 nucleus_siblings = Returned r"
    and r1: "\<not> e_isMounted (w_entity r 1)" "\<not> e_isMounted (w_entity r 2)"
      "s_onBeforeRender (w_scene r 0) = []" by blast
  from render_observer_wired [of nucleus_siblings "Suc (Suc 0)" _ _ 0 r] nucleus_siblings_wired r
  have 9: "render_wired {} r \<and> \<not> e_isMounted (w_entity r 0)" by blast
  from nucleus_siblings_remount_root obtain q where
    q: "nucleus_remount (Suc (Suc 0)) 0 nucleus_siblings = Returned q"
    and q1: "e_isMounted (w_entity q 0)" "\<not> e_isMounted (w_entity q 1)"
      "\<not> e_isMounted (w_entity q 2)" by blast
  from render_observer_wired [of nucleus_siblings "Suc (Suc 0)" _ _ 0 q] nucleus_siblings_wired q
  have 10: "render_wired {} q" by blast
  from a b c d f g h k r r1 q q1 1 2 3 4 5 6 7 8 9 10 bframe_examples_wired
    nucleus_examples_wired(1,2) nucleus_siblings_wired
  show ?thesis by blast
qed

end
